theory Spec2Isabelle
  imports Main "HOL-Library.AList"
begin

section \<open>Numbers, objects used as dictionaries, sets of hashes\<close>

text \<open>
  Block numbers and timestamps are JavaScript numbers holding integers; they are modelled
  as \<open>int\<close>.  \<open>Math.min()\<close> and \<open>Math.max()\<close> of no arguments are \<open>Infinity\<close> and
  \<open>-Infinity\<close>, so the results of these two functions live in \<open>number\<close>.
\<close>

datatype number = NegInf | Fin int | PosInf

fun num_le :: "number \<Rightarrow> number \<Rightarrow> bool" where
  "num_le NegInf _ = True"
| "num_le (Fin a) NegInf = False"
| "num_le (Fin a) (Fin b) = (a \<le> b)"
| "num_le (Fin a) PosInf = True"
| "num_le PosInf PosInf = True"
| "num_le PosInf _ = False"

definition num_gt :: "number \<Rightarrow> number \<Rightarrow> bool" where
  \<comment> \<open>\<open>a > b\<close>\<close>
  "num_gt a b = (\<not> num_le a b)"

definition num_min :: "number \<Rightarrow> number \<Rightarrow> number" where
  "num_min a b = (if num_le a b then a else b)"

definition num_max :: "number \<Rightarrow> number \<Rightarrow> number" where
  "num_max a b = (if num_le a b then b else a)"

definition Math_min :: "int list \<Rightarrow> number" where
  "Math_min xs = fold (\<lambda>x acc. num_min acc (Fin x)) xs PosInf"

definition Math_max :: "int list \<Rightarrow> number" where
  "Math_max xs = fold (\<lambda>x acc. num_max acc (Fin x)) xs NegInf"

definition MAX_SAFE_INTEGER :: int where
  "MAX_SAFE_INTEGER = 2 ^ 53 - 1"

text \<open>
  An object used as \<open>Record<number, V>\<close> is an association list with distinct keys.
  \<open>Object.keys\<close> lists integer keys in ascending order.
\<close>

type_synonym 'v Record = "(int \<times> 'v) list"

definition Object_keys :: "'v Record \<Rightarrow> int list" where
  "Object_keys r = sort (map fst r)"

definition or_assign_push :: "'v list Record \<Rightarrow> int \<Rightarrow> 'v \<Rightarrow> 'v list Record" where
  \<comment> \<open>\<open>(r[k] ||= []).push(v)\<close>\<close>
  "or_assign_push r k v =
     (case map_of r k of
        None \<Rightarrow> AList.update k [v] r
      | Some vs \<Rightarrow> AList.update k (vs @ [v]) r)"

definition Object_values :: "'v Record \<Rightarrow> 'v list" where
  "Object_values r = map snd (sort_key fst r)"

text \<open>
  Errors thrown by the modelled code: the JavaScript errors raised by a property access on
  \<open>undefined\<close> and by \<open>BigInt\<close> of a non-integer, the range error of viem's
  \<open>numberToHex\<close>, a failed RPC request (viem error class and \<open>details\<close>), and a failed
  event-store call.
\<close>

datatype RpcErrorClass =
  InvalidParamsRpcError | LimitExceededRpcError | HttpRequestError | OtherRpcError

datatype Error =
  TypeError | RangeError | IntegerOutOfRangeError
  | RequestError RpcErrorClass string
  | StoreError string

type_synonym Hash = string

definition Set_add :: "Hash list \<Rightarrow> Hash \<Rightarrow> Hash list" where
  \<comment> \<open>a \<open>Set<Hash>\<close> in insertion order\<close>
  "Set_add s h = (if h \<in> set s then s else s @ [h])"

definition or_assign_add :: "Hash list Record \<Rightarrow> int \<Rightarrow> Hash \<Rightarrow> Hash list Record" where
  \<comment> \<open>\<open>(r[k] ||= new Set()).add(h)\<close>\<close>
  "or_assign_add r k h =
     (case map_of r k of
        None \<Rightarrow> AList.update k (Set_add [] h) r
      | Some s \<Rightarrow> AList.update k (Set_add s h) r)"

section \<open>Historical sync service: log intervals\<close>

record RpcLog =
  blockNumber :: int  \<comment> \<open>\<open>hexToNumber(log.blockNumber)\<close>\<close>
  transactionHash :: Hash
  logIndex :: nat

record LogInterval =
  startBlock :: int
  endBlock :: int
  logs :: "RpcLog list"
  transactionHashes :: "Hash list"

definition group_log ::
  "RpcLog \<Rightarrow> Hash list Record \<times> RpcLog list Record \<Rightarrow> Hash list Record \<times> RpcLog list Record" where
  "group_log log acc =
     (case acc of (txHashesByBlockNumber, logsByBlockNumber) \<Rightarrow>
        (or_assign_add txHashesByBlockNumber (blockNumber log) (transactionHash log),
         or_assign_push logsByBlockNumber (blockNumber log) log))"

fun requiredIntervals_loop ::
  "int \<Rightarrow> int list \<Rightarrow> RpcLog list Record \<Rightarrow> Hash list Record \<Rightarrow> LogInterval list" where
  "requiredIntervals_loop prev [] lg tx = []"
| "requiredIntervals_loop prev (b # bs) lg tx =
     \<lparr>startBlock = prev, endBlock = b,
      logs = (case map_of lg b of None \<Rightarrow> [] | Some ls \<Rightarrow> ls),
      transactionHashes = (case map_of tx b of None \<Rightarrow> [] | Some hs \<Rightarrow> hs)\<rparr>
     # requiredIntervals_loop (b + 1) bs lg tx"

definition buildLogIntervals :: "int \<Rightarrow> int \<Rightarrow> RpcLog list \<Rightarrow> LogInterval list" where
  "buildLogIntervals fromBlock toBlock lgs =
     (case fold group_log lgs ([], []) of (txHashesByBlockNumber, logsByBlockNumber) \<Rightarrow>
        let requiredBlocks = Object_keys txHashesByBlockNumber;
            requiredBlocks' = (if toBlock \<in> set requiredBlocks then requiredBlocks
                               else requiredBlocks @ [toBlock])
        in requiredIntervals_loop fromBlock requiredBlocks' logsByBlockNumber txHashesByBlockNumber)"

section \<open>Interval utilities and progress trackers\<close>

text \<open>
  Modelled from the spec: the module \<open>@/utils/interval\<close> (\<open>intervalDifference\<close>,
  \<open>getChunks\<close>, \<open>ProgressTracker\<close>, \<open>BlockProgressTracker\<close>) is imported by the historical sync
  service but is not among the sources.  The definitions below follow
  sections 3, 4.1, 4.2 and 4.3 of the specification: closed integer intervals, difference
  as removal of coverage, chunking by maximum width without merging across gaps, a range
  tracker with a target and canonical completed intervals, and a block tracker with a sorted
  list of pending block numbers.
\<close>

type_synonym interval = "int \<times> int"

fun interval_minus :: "interval \<Rightarrow> interval \<Rightarrow> interval list" where
  \<comment> \<open>the parts of \<open>[a, b]\<close> outside \<open>[c, d]\<close>, in ascending order\<close>
  "interval_minus (a, b) (c, d) =
     (if d < a \<or> b < c then [(a, b)]
      else (if a < c then [(a, c - 1)] else []) @ (if d < b then [(d + 1, b)] else []))"

definition intervalDifference :: "interval list \<Rightarrow> interval list \<Rightarrow> interval list" where
  "intervalDifference initial remove =
     fold (\<lambda>r acc. concat (map (\<lambda>i. interval_minus i r) acc)) remove initial"

function chunk_interval :: "int \<Rightarrow> int \<Rightarrow> int \<Rightarrow> interval list" where
  "chunk_interval maxChunkSize a b =
     (if maxChunkSize \<le> 0 \<or> b < a then []
      else (a, min (a + maxChunkSize - 1) b)
           # chunk_interval maxChunkSize (min (a + maxChunkSize - 1) b + 1) b)"
  by pat_completeness auto
termination
  by (relation "measure (\<lambda>(m, f, e). nat (e - f + 1))") auto

declare chunk_interval.simps [simp del]

definition getChunks :: "interval list \<Rightarrow> int \<Rightarrow> interval list" where
  \<comment> \<open>the specification's chunks have a width of at least one block; a \<open>maxChunkSize\<close> below 1
      is outside its contract and yields no chunk here\<close>
  "getChunks intervals maxChunkSize =
     concat (map (\<lambda>(a, b). chunk_interval maxChunkSize a b) intervals)"

fun coalesce :: "interval list \<Rightarrow> interval list" where
  "coalesce [] = []"
| "coalesce [i] = [i]"
| "coalesce ((a, b) # (c, d) # rest) =
     (if c \<le> b + 1 then coalesce ((a, max b d) # rest)
      else (a, b) # coalesce ((c, d) # rest))"

definition intervalUnion :: "interval list \<Rightarrow> interval list" where
  \<comment> \<open>sort by start, then coalesce overlapping and adjacent intervals\<close>
  "intervalUnion ivs = coalesce (sort_key fst (filter (\<lambda>(a, b). a \<le> b) ivs))"

definition intervalClip :: "interval \<Rightarrow> interval list \<Rightarrow> interval list" where
  "intervalClip t ivs =
     filter (\<lambda>(a, b). a \<le> b) (map (\<lambda>(a, b). (max a (fst t), min b (snd t))) ivs)"

record ProgressTracker =
  target :: interval
  completed :: "interval list"

definition ProgressTracker_new :: "interval \<Rightarrow> interval list \<Rightarrow> ProgressTracker" where
  "ProgressTracker_new t initialCompleted =
     \<lparr>target = t, completed = intervalUnion (intervalClip t initialCompleted)\<rparr>"

definition getRequired :: "ProgressTracker \<Rightarrow> interval list" where
  "getRequired tr = intervalDifference [target tr] (completed tr)"

definition getCheckpoint :: "ProgressTracker \<Rightarrow> int" where
  "getCheckpoint tr =
     (case find (\<lambda>(a, b). a \<le> fst (target tr) \<and> fst (target tr) \<le> b) (completed tr) of
        Some (a, b) \<Rightarrow> b
      | None \<Rightarrow> fst (target tr) - 1)"

record CheckpointUpdate =
  isUpdated :: bool
  prevCheckpoint :: int
  newCheckpoint' :: int

definition addCompletedInterval ::
  "ProgressTracker \<Rightarrow> interval \<Rightarrow> ProgressTracker \<times> CheckpointUpdate" where
  "addCompletedInterval tr iv =
     (let prev = getCheckpoint tr;
          tr' = tr\<lparr>completed := intervalUnion (completed tr @ intervalClip (target tr) [iv])\<rparr>;
          new = getCheckpoint tr'
      in (tr', \<lparr>isUpdated = (new > prev), prevCheckpoint = prev, newCheckpoint' = new\<rparr>))"

record BlockProgressTracker =
  pendingBlocks :: "int list"
  completedBlocks :: "(int \<times> int) list"
  lastCheckpoint :: "(int \<times> int) option"

definition BlockProgressTracker_new :: BlockProgressTracker where
  "BlockProgressTracker_new = \<lparr>pendingBlocks = [], completedBlocks = [], lastCheckpoint = None\<rparr>"

definition addPendingBlocks :: "BlockProgressTracker \<Rightarrow> int list \<Rightarrow> BlockProgressTracker" where
  "addPendingBlocks bt blockNumbers = bt\<lparr>pendingBlocks := sort (pendingBlocks bt @ blockNumbers)\<rparr>"

section \<open>Sync gateway\<close>

text \<open>
  \<open>sync-gateway/service.ts\<close>.  Timestamps are integers (seconds).  The gateway's own
  \<open>finalityCheckpoint\<close> field is called \<open>gatewayFinalityCheckpoint\<close> here, the name
  \<open>finalityCheckpoint\<close> being taken by the per-network record.  Logging is left out;
  emitted events are appended to \<open>emitted\<close>.
\<close>

record NetworkCheckpoint =
  isHistoricalSyncComplete :: bool
  historicalCheckpoint :: int
  realtimeCheckpoint :: int
  finalityCheckpoint :: int

datatype SyncGatewayEvent =
  newCheckpoint number | newFinalityCheckpoint number | reorg int

record SyncGateway =
  checkpoint :: number
  gatewayFinalityCheckpoint :: number
  historicalSyncCompletedAt :: "number option"
  networkCheckpoints :: "NetworkCheckpoint Record"
  emitted :: "SyncGatewayEvent list"

definition SyncGateway_new :: "int list \<Rightarrow> SyncGateway" where
  \<comment> \<open>the constructor, given the chain ids of \<open>networks\<close>\<close>
  "SyncGateway_new chainIds =
     \<lparr>checkpoint = Fin 0, gatewayFinalityCheckpoint = Fin 0, historicalSyncCompletedAt = None,
      networkCheckpoints =
        fold (\<lambda>chainId nc. AList.update chainId
                \<lparr>isHistoricalSyncComplete = False, historicalCheckpoint = 0,
                 realtimeCheckpoint = 0, finalityCheckpoint = 0\<rparr> nc) chainIds [],
      emitted = []\<rparr>"

definition recalculateCheckpoint :: "SyncGateway \<Rightarrow> SyncGateway" where
  "recalculateCheckpoint g =
     (let checkpoints =
            map (\<lambda>n. if isHistoricalSyncComplete n
                      then max (historicalCheckpoint n) (realtimeCheckpoint n)
                      else historicalCheckpoint n)
              (Object_values (networkCheckpoints g));
          newCheckpoint' = Math_min checkpoints
      in if num_gt newCheckpoint' (checkpoint g)
         then g\<lparr>checkpoint := newCheckpoint', emitted := emitted g @ [newCheckpoint newCheckpoint']\<rparr>
         else g)"

definition recalculateFinalityCheckpoint :: "SyncGateway \<Rightarrow> SyncGateway" where
  "recalculateFinalityCheckpoint g =
     (let newFinalityCheckpoint' =
            Math_min (map finalityCheckpoint (Object_values (networkCheckpoints g)))
      in if num_gt newFinalityCheckpoint' (gatewayFinalityCheckpoint g)
         then g\<lparr>gatewayFinalityCheckpoint := newFinalityCheckpoint',
                emitted := emitted g @ [newFinalityCheckpoint newFinalityCheckpoint']\<rparr>
         else g)"

text \<open>
  Each handler first writes a field of \<open>this.networkCheckpoints[chainId]\<close>; for a chain id
  that was not registered this is a write to \<open>undefined\<close> and throws before anything changes.
\<close>

definition handleNewHistoricalCheckpoint :: "SyncGateway \<Rightarrow> int \<Rightarrow> int \<Rightarrow> Error + SyncGateway" where
  "handleNewHistoricalCheckpoint g chainId timestamp =
     (case map_of (networkCheckpoints g) chainId of
        None \<Rightarrow> Inl TypeError
      | Some n \<Rightarrow>
          Inr (recalculateCheckpoint
                 (g\<lparr>networkCheckpoints :=
                      AList.update chainId (n\<lparr>historicalCheckpoint := timestamp\<rparr>)
                        (networkCheckpoints g)\<rparr>)))"

definition handleHistoricalSyncComplete :: "SyncGateway \<Rightarrow> int \<Rightarrow> Error + SyncGateway" where
  "handleHistoricalSyncComplete g chainId =
     (case map_of (networkCheckpoints g) chainId of
        None \<Rightarrow> Inl TypeError
      | Some n \<Rightarrow>
          let g1 = recalculateCheckpoint
                     (g\<lparr>networkCheckpoints :=
                          AList.update chainId (n\<lparr>isHistoricalSyncComplete := True\<rparr>)
                            (networkCheckpoints g)\<rparr>);
              networkCheckpoints' = Object_values (networkCheckpoints g1)
          in if list_all isHistoricalSyncComplete networkCheckpoints'
             then Inr (g1\<lparr>historicalSyncCompletedAt :=
                            Some (Math_max (map historicalCheckpoint networkCheckpoints'))\<rparr>)
             else Inr g1)"

definition handleNewRealtimeCheckpoint :: "SyncGateway \<Rightarrow> int \<Rightarrow> int \<Rightarrow> Error + SyncGateway" where
  "handleNewRealtimeCheckpoint g chainId timestamp =
     (case map_of (networkCheckpoints g) chainId of
        None \<Rightarrow> Inl TypeError
      | Some n \<Rightarrow>
          Inr (recalculateCheckpoint
                 (g\<lparr>networkCheckpoints :=
                      AList.update chainId (n\<lparr>realtimeCheckpoint := timestamp\<rparr>)
                        (networkCheckpoints g)\<rparr>)))"

definition handleNewFinalityCheckpoint :: "SyncGateway \<Rightarrow> int \<Rightarrow> int \<Rightarrow> Error + SyncGateway" where
  "handleNewFinalityCheckpoint g chainId timestamp =
     (case map_of (networkCheckpoints g) chainId of
        None \<Rightarrow> Inl TypeError
      | Some n \<Rightarrow>
          Inr (recalculateFinalityCheckpoint
                 (g\<lparr>networkCheckpoints :=
                      AList.update chainId (n\<lparr>finalityCheckpoint := timestamp\<rparr>)
                        (networkCheckpoints g)\<rparr>)))"

definition handleReorg :: "SyncGateway \<Rightarrow> int \<Rightarrow> Error + SyncGateway" where
  "handleReorg g commonAncestorTimestamp =
     Inr (g\<lparr>emitted := emitted g @ [reorg commonAncestorTimestamp]\<rparr>)"

text \<open>
  The gateway's life is a sequence of handler calls.  A call that throws leaves the gateway
  as it was, and later calls still arrive.
\<close>

datatype GatewayCall =
  NewHistoricalCheckpoint int int
  | HistoricalSyncComplete int
  | NewRealtimeCheckpoint int int
  | NewFinalityCheckpoint int int
  | Reorg int

fun gatewayCall :: "SyncGateway \<Rightarrow> GatewayCall \<Rightarrow> Error + SyncGateway" where
  "gatewayCall g (NewHistoricalCheckpoint c t) = handleNewHistoricalCheckpoint g c t"
| "gatewayCall g (HistoricalSyncComplete c) = handleHistoricalSyncComplete g c"
| "gatewayCall g (NewRealtimeCheckpoint c t) = handleNewRealtimeCheckpoint g c t"
| "gatewayCall g (NewFinalityCheckpoint c t) = handleNewFinalityCheckpoint g c t"
| "gatewayCall g (Reorg t) = handleReorg g t"

fun gatewayCalls :: "SyncGateway \<Rightarrow> GatewayCall list \<Rightarrow> SyncGateway" where
  "gatewayCalls g [] = g"
| "gatewayCalls g (c # cs) =
     (case gatewayCall g c of Inl e \<Rightarrow> gatewayCalls g cs | Inr g' \<Rightarrow> gatewayCalls g' cs)"

definition completeCalled :: "GatewayCall list \<Rightarrow> int set" where
  "completeCalled calls = {c. HistoricalSyncComplete c \<in> set calls}"

definition completedInv :: "int set \<Rightarrow> SyncGateway \<Rightarrow> int set \<Rightarrow> bool" where
  "completedInv K g S \<longleftrightarrow>
     fst ` set (networkCheckpoints g) = K
     \<and> (\<forall>c n. map_of (networkCheckpoints g) c = Some n \<and> isHistoricalSyncComplete n \<longrightarrow> c \<in> S)
     \<and> (historicalSyncCompletedAt g \<noteq> None \<longrightarrow> K \<subseteq> S)"

section \<open>Historical sync service: state, queue and tasks\<close>

text \<open>
  The event sources.  Field names carry a prefix where the source uses the same name in
  several types (\<open>name\<close>, \<open>chainId\<close>, \<open>criteria\<close>, \<open>startBlock\<close>, \<open>endBlock\<close>,
  \<open>maxBlockRange\<close>, \<open>address\<close>, \<open>topics\<close>).
\<close>

type_synonym Address = string
type_synonym Topic = string

record LogFilterCriteria =
  address :: "Address list option"
  topics :: "Topic list option list option"

record LogFilter =
  lf_name :: string
  lf_chainId :: int
  lf_criteria :: LogFilterCriteria
  lf_startBlock :: int
  lf_endBlock :: "int option"
  lf_maxBlockRange :: "int option"

record FactoryCriteria =
  fc_address :: Address
  eventSelector :: Topic
  childAddressLocation :: string
  fc_topics :: "Topic list option list option"

record Factory =
  f_name :: string
  f_chainId :: int
  f_criteria :: FactoryCriteria
  f_startBlock :: int
  f_endBlock :: "int option"
  f_maxBlockRange :: "int option"

text \<open>
  A block callback is a closure over the data of one log interval; it is run with the block
  body by the block task.  The closures of the three workers are the constructors below: the
  store call they make, their captured arguments, and the label of the
  \<open>ponder_historical_completed_blocks\<close> counter they increment (none for the callback of a
  child-address task).
\<close>

datatype BlockCallback =
  insertLogFilterInterval int LogFilterCriteria "RpcLog list" "Hash list" int int "string option"
  | insertFactoryLogFilterInterval int FactoryCriteria "RpcLog list" "Hash list" int int string

datatype HistoricalSyncTask =
  LOG_FILTER LogFilter int int
  | FACTORY_CHILD_ADDRESS Factory int int
  | FACTORY_LOG_FILTER Factory int int
  | BLOCK int "BlockCallback list option"

text \<open>
  Modelled from the spec: the queue of \<open>@/utils/queue\<close> (\<open>createQueue\<close>) is not among the
  sources.  Following section 4.4, the queue holds the queued tasks with their options in
  insertion order; \<open>addTask\<close> appends, \<open>size\<close> counts the queued tasks.
\<close>

record QueueEntry =
  task :: HistoricalSyncTask
  priority :: int
  retry :: bool

type_synonym Queue = "QueueEntry list"

definition addTask :: "Queue \<Rightarrow> HistoricalSyncTask \<Rightarrow> int \<Rightarrow> bool \<Rightarrow> Queue" where
  "addTask q t p r = q @ [\<lparr>task = t, priority = p, retry = r\<rparr>]"

definition queue_size :: "Queue \<Rightarrow> nat" where
  "queue_size q = length q"

datatype HistoricalSyncEvent =
  syncComplete
  | historicalCheckpoint' "int option" int

datatype ServiceEffect = Emit HistoricalSyncEvent | QueueStart

text \<open>
  The service.  \<open>finalizedBlockNumber\<close> is \<open>null\<close> until \<open>setup\<close> has run.  The tracker tables
  are objects keyed by source name, kept in insertion order.  \<open>effects\<close> records, in order,
  the events emitted and the start of the queue.  Logging, metrics and the timers of
  \<open>start\<close> are left out.

  The constructor stores its \<open>sources\<close> argument in the field \<open>sources\<close>.  \<open>setup\<close> reads
  \<open>this.logFilters\<close> and \<open>this.factories\<close> instead.  The class declares neither, and neither
  the constructor nor any method assigns them, so both are \<open>undefined\<close> in every service:
  the model gives them the value \<open>None\<close> and no function below updates them.

  Modelled from the spec: the type \<open>Source\<close> of \<open>@/config/sources\<close> is not among the sources.
  Following section 3, an event source is a tagged variant with two cases, a log filter or a
  factory.
\<close>

datatype Source = LogFilterSource LogFilter | FactorySource Factory

record HistoricalSyncService =
  defaultMaxBlockRange :: int
  finalizedBlockNumber :: "int option"
  sources :: "Source list"
  logFilters :: "LogFilter list option"
  factories :: "Factory list option"
  logFilterProgressTrackers :: "(string \<times> ProgressTracker) list"
  factoryChildAddressProgressTrackers :: "(string \<times> ProgressTracker) list"
  factoryLogFilterProgressTrackers :: "(string \<times> ProgressTracker) list"
  blockProgressTracker :: BlockProgressTracker
  blockCallbacks :: "BlockCallback list Record"
  blockTasksEnqueuedCheckpoint :: number
  queue :: Queue
  effects :: "ServiceEffect list"

definition HistoricalSyncService_new :: "int \<Rightarrow> Source list \<Rightarrow> HistoricalSyncService" where
  "HistoricalSyncService_new networkDefaultMaxBlockRange sources' =
     \<lparr>defaultMaxBlockRange = networkDefaultMaxBlockRange, finalizedBlockNumber = None,
      sources = sources', logFilters = None, factories = None,
      logFilterProgressTrackers = [], factoryChildAddressProgressTrackers = [],
      factoryLogFilterProgressTrackers = [], blockProgressTracker = BlockProgressTracker_new,
      blockCallbacks = [], blockTasksEnqueuedCheckpoint = Fin 0, queue = [], effects = []\<rparr>"

subsection \<open>start\<close>

definition Math_round_div :: "int \<Rightarrow> int \<Rightarrow> int" where
  \<comment> \<open>\<open>Math.round(x / d)\<close> for integers \<open>x\<close> and \<open>d > 0\<close>: halves round up\<close>
  "Math_round_div x d = (2 * x + d) div (2 * d)"

definition start :: "int \<Rightarrow> HistoricalSyncService \<Rightarrow> HistoricalSyncService" where
  \<comment> \<open>\<open>now\<close> is the value of \<open>Date.now()\<close>, in milliseconds\<close>
  "start now s =
     (let s1 = (if queue_size (queue s) = 0
                then s\<lparr>effects := effects s
                        @ [Emit (historicalCheckpoint' (finalizedBlockNumber s) (Math_round_div now 1000)),
                           Emit syncComplete]\<rparr>
                else s)
      in s1\<lparr>effects := effects s1 @ [QueueStart]\<rparr>)"

subsection \<open>The queue's error handler\<close>

fun onError :: "Error \<Rightarrow> HistoricalSyncTask \<Rightarrow> Queue \<Rightarrow> Queue" where
  "onError error (LOG_FILTER logFilter fromBlock toBlock) q =
     addTask q (LOG_FILTER logFilter fromBlock toBlock) (MAX_SAFE_INTEGER - fromBlock) True"
| "onError error (FACTORY_CHILD_ADDRESS factory fromBlock toBlock) q =
     addTask q (FACTORY_CHILD_ADDRESS factory fromBlock toBlock) (MAX_SAFE_INTEGER - fromBlock) True"
| "onError error (FACTORY_LOG_FILTER factory fromBlock toBlock) q =
     addTask q (FACTORY_LOG_FILTER factory fromBlock toBlock) (MAX_SAFE_INTEGER - fromBlock) True"
| "onError error (BLOCK blockNumber' callbacks) q =
     addTask q (BLOCK blockNumber' callbacks) (MAX_SAFE_INTEGER - blockNumber') True"

subsection \<open>enqueueBlockTasks\<close>

definition enqueueBlockTask :: "int \<Rightarrow> HistoricalSyncService \<Rightarrow> HistoricalSyncService" where
  \<comment> \<open>the body of the loop over \<open>newBlocks\<close>\<close>
  "enqueueBlockTask blockNumber' s =
     s\<lparr>queue := addTask (queue s) (BLOCK blockNumber' (map_of (blockCallbacks s) blockNumber'))
                  (MAX_SAFE_INTEGER - blockNumber') False,
       blockCallbacks := AList.delete blockNumber' (blockCallbacks s)\<rparr>"

definition blockTasksCanBeEnqueuedTo :: "HistoricalSyncService \<Rightarrow> number" where
  "blockTasksCanBeEnqueuedTo s =
     Math_min (map (getCheckpoint \<circ> snd) (logFilterProgressTrackers s)
               @ map (getCheckpoint \<circ> snd) (factoryChildAddressProgressTrackers s)
               @ map (getCheckpoint \<circ> snd) (factoryLogFilterProgressTrackers s))"

definition enqueueBlockTasks :: "HistoricalSyncService \<Rightarrow> HistoricalSyncService" where
  "enqueueBlockTasks s =
     (if num_gt (blockTasksCanBeEnqueuedTo s) (blockTasksEnqueuedCheckpoint s)
      then let newBlocks = filter (\<lambda>blockNumber'. num_le (Fin blockNumber') (blockTasksCanBeEnqueuedTo s))
                             (Object_keys (blockCallbacks s));
               s1 = s\<lparr>blockProgressTracker := addPendingBlocks (blockProgressTracker s) newBlocks\<rparr>;
               s2 = fold enqueueBlockTask newBlocks s1
           in s2\<lparr>blockTasksEnqueuedCheckpoint := blockTasksCanBeEnqueuedTo s\<rparr>
      else s)"

section \<open>Remote log fetcher\<close>

subsection \<open>JavaScript strings and numbers\<close>

text \<open>
  The string methods used on \<open>error.details\<close>.  \<open>split\<close> is used with non-empty separators
  only.  An index into the array returned by \<open>split\<close> may be \<open>undefined\<close>.
\<close>

definition startsWith :: "string \<Rightarrow> string \<Rightarrow> bool" where
  "startsWith s p = (take (length p) s = p)"

fun includes_str :: "string \<Rightarrow> string \<Rightarrow> bool" where
  "includes_str [] p = (p = [])"
| "includes_str (c # cs) p = (take (length p) (c # cs) = p \<or> includes_str cs p)"

function split_from :: "string \<Rightarrow> string \<Rightarrow> string \<Rightarrow> string list" where
  "split_from sep cur [] = [rev cur]"
| "split_from sep cur (c # cs) =
     (if sep \<noteq> [] \<and> take (length sep) (c # cs) = sep
      then rev cur # split_from sep [] (drop (length sep - 1) cs)
      else split_from sep (c # cur) cs)"
  by pat_completeness auto
termination
  by (relation "measure (\<lambda>(sep, cur, s). length s)") auto

definition split :: "string \<Rightarrow> string \<Rightarrow> string list" where
  "split s sep = split_from sep [] s"

fun at_index :: "'a list \<Rightarrow> nat \<Rightarrow> 'a option" where
  "at_index [] i = None"
| "at_index (x # xs) 0 = Some x"
| "at_index (x # xs) (Suc i) = at_index xs i"

definition slice_from :: "nat \<Rightarrow> string \<Rightarrow> string" where
  \<comment> \<open>\<open>s.slice(n)\<close>\<close>
  "slice_from n s = drop n s"

definition slice_to_end_minus :: "nat \<Rightarrow> string \<Rightarrow> string" where
  \<comment> \<open>\<open>s.slice(0, -n)\<close>\<close>
  "slice_to_end_minus n s = take (length s - n) s"

text \<open>
  A \<open>string\<close> stands for a JavaScript string whose code units are all below 256.

  A JavaScript number is an IEEE double: \<open>NaN\<close>, an infinity, an integer (\<open>Integer n\<close>), or
  a value \<open>m / 2 ^ k\<close> that is not an integer (\<open>Dyadic m k\<close>, with \<open>m\<close> odd and \<open>k > 0\<close>).
  Negative zero is not told apart from zero; the modelled code does not tell them apart
  either.

  \<open>roundFraction p q\<close> is the double nearest to the fraction \<open>p / q\<close> (\<open>q > 0\<close>), ties going to
  the even significand: 53 significant bits, exponents down to \<open>-1074\<close>, and infinity from
  \<open>2 ^ 1024\<close> on.  An integer of magnitude at most \<open>2 ^ 53\<close> is a double, which the first
  branch of \<open>roundPositive\<close> returns directly.
\<close>

datatype JsNumber = NaN | Integer int | Dyadic int nat | PosInfinity | NegInfinity

fun dyadic :: "int \<Rightarrow> nat \<Rightarrow> JsNumber" where
  \<comment> \<open>the number \<open>m / 2 ^ k\<close>, in lowest terms\<close>
  "dyadic m 0 = Integer m"
| "dyadic m (Suc k) = (if even m then dyadic (m div 2) k else Dyadic m (Suc k))"

function bitLength :: "int \<Rightarrow> nat" where
  "bitLength n = (if n \<le> 0 then 0 else Suc (bitLength (n div 2)))"
  by pat_completeness auto

termination bitLength
  by (relation "measure nat") auto

declare bitLength.simps [simp del]

definition roundPositive :: "int \<Rightarrow> int \<Rightarrow> JsNumber" where
  "roundPositive p q =
     (if q dvd p \<and> p div q \<le> 2 ^ 53 then Integer (p div q)
      else
        let k = int (bitLength p) - int (bitLength q);
            log2 = (if (if 0 \<le> k then q * 2 ^ nat k \<le> p else q \<le> p * 2 ^ nat (- k))
                    then k else k - 1);
            e = max (log2 - 52) (- 1074);
            num = (if 0 \<le> e then p else p * 2 ^ nat (- e));
            den = (if 0 \<le> e then q * 2 ^ nat e else q);
            n = num div den;
            r = num mod den;
            m = (if den < 2 * r \<or> (2 * r = den \<and> odd n) then n + 1 else n)
        in if 0 \<le> e
           then (if 2 ^ 1024 \<le> m * 2 ^ nat e then PosInfinity else Integer (m * 2 ^ nat e))
           else dyadic m (nat (- e)))"

definition js_neg :: "JsNumber \<Rightarrow> JsNumber" where
  "js_neg x =
     (case x of
        NaN \<Rightarrow> NaN
      | Integer n \<Rightarrow> Integer (- n)
      | Dyadic m k \<Rightarrow> Dyadic (- m) k
      | PosInfinity \<Rightarrow> NegInfinity
      | NegInfinity \<Rightarrow> PosInfinity)"

definition roundFraction :: "int \<Rightarrow> int \<Rightarrow> JsNumber" where
  "roundFraction p q =
     (if 0 \<le> p then roundPositive p q else js_neg (roundPositive (- p) q))"

definition fractionOf :: "JsNumber \<Rightarrow> (int \<times> int) option" where
  \<comment> \<open>numerator and denominator of a finite number\<close>
  "fractionOf x =
     (case x of
        Integer n \<Rightarrow> Some (n, 1)
      | Dyadic m k \<Rightarrow> Some (m, 2 ^ k)
      | _ \<Rightarrow> None)"

definition js_plus :: "JsNumber \<Rightarrow> JsNumber \<Rightarrow> JsNumber" where
  \<comment> \<open>\<open>a + b\<close>\<close>
  "js_plus a b =
     (case fractionOf a of
        Some (p1, q1) \<Rightarrow>
          (case fractionOf b of
             Some (p2, q2) \<Rightarrow> roundFraction (p1 * q2 + p2 * q1) (q1 * q2)
           | None \<Rightarrow> b)
      | None \<Rightarrow>
          (case fractionOf b of
             Some (p2, q2) \<Rightarrow> a
           | None \<Rightarrow> if a = b then a else NaN))"

definition js_minus :: "JsNumber \<Rightarrow> JsNumber \<Rightarrow> JsNumber" where
  \<comment> \<open>\<open>a - b\<close>\<close>
  "js_minus a b = js_plus a (js_neg b)"

definition js_half :: "JsNumber \<Rightarrow> JsNumber" where
  \<comment> \<open>\<open>a / 2\<close>\<close>
  "js_half a = (case fractionOf a of Some (p, q) \<Rightarrow> roundFraction p (2 * q) | None \<Rightarrow> a)"

definition Math_floor :: "JsNumber \<Rightarrow> JsNumber" where
  "Math_floor a = (case a of Dyadic m k \<Rightarrow> Integer (m div 2 ^ k) | _ \<Rightarrow> a)"

definition js_plus1 :: "JsNumber \<Rightarrow> JsNumber" where
  \<comment> \<open>\<open>a + 1\<close>\<close>
  "js_plus1 a = js_plus a (Integer 1)"

definition js_midpoint :: "JsNumber \<Rightarrow> JsNumber \<Rightarrow> JsNumber" where
  \<comment> \<open>\<open>Math.floor((to - from) / 2 + from)\<close>\<close>
  "js_midpoint to from = Math_floor (js_plus (js_half (js_minus to from)) from)"

text \<open>
  \<open>Number(string)\<close>: white space around the text is dropped; the empty text is 0; a text
  that is a numeric literal (\<open>0x\<close>, \<open>0o\<close> or \<open>0b\<close> with digits of that base, or an optionally
  signed \<open>Infinity\<close> or decimal literal with optional fraction and exponent) is the double
  nearest to its value; every other text is \<open>NaN\<close>.
\<close>

definition isWhiteSpace :: "char \<Rightarrow> bool" where
  "isWhiteSpace c =
     (c \<in> set [CHR '' '', CHR 0x09, CHR 0x0A, CHR 0x0B, CHR 0x0C, CHR 0x0D, CHR 0xA0])"

definition trim :: "string \<Rightarrow> string" where
  "trim s = rev (dropWhile isWhiteSpace (rev (dropWhile isWhiteSpace s)))"

definition digitValue :: "char \<Rightarrow> int option" where
  "digitValue c =
     (let n = (of_char c :: int) in
      if 48 \<le> n \<and> n \<le> 57 then Some (n - 48)
      else if 97 \<le> n \<and> n \<le> 102 then Some (n - 87)
      else if 65 \<le> n \<and> n \<le> 70 then Some (n - 55)
      else None)"

fun digitsValue :: "int \<Rightarrow> int \<Rightarrow> string \<Rightarrow> int option" where
  "digitsValue base acc [] = Some acc"
| "digitsValue base acc (c # cs) =
     (case digitValue c of
        None \<Rightarrow> None
      | Some d \<Rightarrow> if d < base then digitsValue base (acc * base + d) cs else None)"

definition isDecimalDigit :: "char \<Rightarrow> bool" where
  "isDecimalDigit c = (48 \<le> (of_char c :: int) \<and> (of_char c :: int) \<le> 57)"

definition nonDecimalLiteral :: "int \<Rightarrow> string \<Rightarrow> JsNumber" where
  \<comment> \<open>the digits after the prefix \<open>0x\<close>, \<open>0o\<close> or \<open>0b\<close>\<close>
  "nonDecimalLiteral base ds =
     (if ds = [] then NaN
      else case digitsValue base 0 ds of None \<Rightarrow> NaN | Some n \<Rightarrow> roundFraction n 1)"

definition exponentPart :: "string \<Rightarrow> int option" where
  \<comment> \<open>the decimal exponent written by the rest of a literal: none, or \<open>e\<close> and a signed integer\<close>
  "exponentPart r =
     (if r = [] then Some 0
      else if take 1 r = ''e'' \<or> take 1 r = ''E''
      then (let r1 = drop 1 r;
                ds = (if take 1 r1 = ''+'' \<or> take 1 r1 = ''-'' then drop 1 r1 else r1)
            in if ds = [] then None
               else case digitsValue 10 0 ds of
                      None \<Rightarrow> None
                    | Some n \<Rightarrow> Some (if take 1 r1 = ''-'' then - n else n))
      else None)"

definition decimalValue :: "int \<Rightarrow> int \<Rightarrow> JsNumber" where
  \<comment> \<open>the double nearest to \<open>m * 10 ^ e\<close>\<close>
  "decimalValue m e =
     (if 0 \<le> e then roundFraction (m * 10 ^ nat e) 1
      else roundFraction m (10 ^ nat (- e)))"

definition unsignedDecimalLiteral :: "string \<Rightarrow> JsNumber" where
  "unsignedDecimalLiteral r =
     (if r = ''Infinity'' then PosInfinity
      else
        let integerPart = takeWhile isDecimalDigit r;
            r1 = dropWhile isDecimalDigit r;
            fractionPart = (if take 1 r1 = ''.'' then takeWhile isDecimalDigit (drop 1 r1) else []);
            r2 = (if take 1 r1 = ''.'' then dropWhile isDecimalDigit (drop 1 r1) else r1)
        in if integerPart = [] \<and> fractionPart = [] then NaN
           else case exponentPart r2 of
                  None \<Rightarrow> NaN
                | Some ex \<Rightarrow>
                    (case digitsValue 10 0 (integerPart @ fractionPart) of
                       None \<Rightarrow> NaN
                     | Some m \<Rightarrow> decimalValue m (ex - int (length fractionPart))))"

definition Number :: "string \<Rightarrow> JsNumber" where
  "Number s =
     (let t = trim s in
      if t = [] then Integer 0
      else if take 2 t = ''0x'' \<or> take 2 t = ''0X'' then nonDecimalLiteral 16 (drop 2 t)
      else if take 2 t = ''0o'' \<or> take 2 t = ''0O'' then nonDecimalLiteral 8 (drop 2 t)
      else if take 2 t = ''0b'' \<or> take 2 t = ''0B'' then nonDecimalLiteral 2 (drop 2 t)
      else if take 1 t = ''+'' then unsignedDecimalLiteral (drop 1 t)
      else if take 1 t = ''-'' then js_neg (unsignedDecimalLiteral (drop 1 t))
      else unsignedDecimalLiteral t)"

subsection \<open>viem's \<open>toHex\<close>\<close>

text \<open>
  \<open>toHex\<close> of a number is \<open>numberToHex\<close>: \<open>BigInt\<close> of a number that is not an integer
  throws a range error, a negative integer or one above \<open>MAX_SAFE_INTEGER\<close> throws viem's
  out-of-range error, and otherwise the result is \<open>0x\<close> followed by the lower-case
  hexadecimal digits.  \<open>toHex\<close> of a string is \<open>stringToHex\<close>: \<open>0x\<close> followed by two
  hexadecimal digits for each byte of the UTF-8 encoding of the string.
\<close>

definition hexDigit :: "nat \<Rightarrow> char" where
  "hexDigit d = (if d < 10 then char_of (48 + d) else char_of (87 + d))"

fun hexDigits :: "nat \<Rightarrow> string" where
  "hexDigits n = (if n < 16 then [hexDigit n] else hexDigits (n div 16) @ [hexDigit (n mod 16)])"

declare hexDigits.simps [simp del]

definition toHex_number :: "JsNumber \<Rightarrow> Error + string" where
  "toHex_number x =
     (case x of
        Integer n \<Rightarrow>
          if n > MAX_SAFE_INTEGER \<or> n < 0 then Inl IntegerOutOfRangeError
          else Inr (''0x'' @ hexDigits (nat n))
      | _ \<Rightarrow> Inl RangeError)"

definition utf8Bytes :: "char \<Rightarrow> nat list" where
  "utf8Bytes c =
     (let n = (of_char c :: nat) in
      if n < 128 then [n] else [192 + n div 64, 128 + n mod 64])"

definition toHex_string :: "string \<Rightarrow> string" where
  "toHex_string s =
     ''0x'' @ concat (map (\<lambda>b. [hexDigit (b div 16), hexDigit (b mod 16)]) (concat (map utf8Bytes s)))"

subsection \<open>\<open>_eth_getLogs\<close>\<close>

record GetLogsOptions =
  gl_address :: "Address list option"
  gl_topics :: "Topic list option list option"
  gl_fromBlock :: string
  gl_toBlock :: string

definition suggestedRanges ::
  "string \<Rightarrow> string \<Rightarrow> nat \<Rightarrow> GetLogsOptions \<Rightarrow> Error + (string \<times> string) list" where
  \<comment> \<open>the body shared by the two branches that read a suggested range from \<open>details\<close>:
      the text after \<open>marker\<close>, split at \<open>", "\<close>; \<open>n\<close> characters are dropped from the end\<close>
  "suggestedRanges details marker n options =
     (case at_index (split details marker) 1 of
        None \<Rightarrow> Inl TypeError
      | Some safe \<Rightarrow>
          (case at_index (split safe '', '') 0 of
             None \<Rightarrow> Inl TypeError
           | Some first \<Rightarrow>
               let safeStart = Number (slice_from 1 first) in
               (case at_index (split safe '', '') 1 of
                  None \<Rightarrow> Inl TypeError
                | Some second \<Rightarrow>
                    let safeEnd = Number (slice_to_end_minus n second) in
                    (case toHex_number safeStart of
                       Inl e \<Rightarrow> Inl e
                     | Inr h1 \<Rightarrow>
                         (case toHex_number safeEnd of
                            Inl e \<Rightarrow> Inl e
                          | Inr h2 \<Rightarrow>
                              (case toHex_number (js_plus1 safeEnd) of
                                 Inl e \<Rightarrow> Inl e
                               | Inr h3 \<Rightarrow> Inr [(h1, h2), (h3, gl_toBlock options)]))))))"

definition midpointRanges :: "GetLogsOptions \<Rightarrow> Error + (string \<times> string) list" where
  "midpointRanges options =
     (let midpoint = js_midpoint (Number (gl_toBlock options)) (Number (gl_fromBlock options)) in
      case toHex_number midpoint of
        Inl e \<Rightarrow> Inl e
      | Inr h2 \<Rightarrow>
          (case toHex_number (js_plus1 midpoint) of
             Inl e \<Rightarrow> Inl e
           | Inr h3 \<Rightarrow> Inr [(toHex_string (gl_fromBlock options), h2), (h3, gl_toBlock options)]))"

definition retryRanges :: "Error \<Rightarrow> GetLogsOptions \<Rightarrow> Error + (string \<times> string) list" where
  "retryRanges error options =
     (case error of
        RequestError cls details \<Rightarrow>
          if cls = InvalidParamsRpcError \<and> startsWith details ''Log response size exceeded.''
          then suggestedRanges details ''this block range should work: '' 1 options
          else if cls = LimitExceededRpcError
                  \<and> includes_str details ''query returned more than 10000 results''
          then suggestedRanges details ''Try with this block range '' 2 options
          else if cls = InvalidParamsRpcError \<and> includes_str details ''block range less than 20000''
          then midpointRanges options
          else if cls = HttpRequestError
                  \<and> includes_str details
                        ''eth_getLogs and eth_newFilter are limited to a 10,000 blocks range''
          then midpointRanges options
          else Inl error
      | _ \<Rightarrow> Inl error)"

text \<open>
  The chain client is a function on a client state, so that it may answer the same request
  differently over time.  The recursion of \<open>_eth_getLogs\<close> need not end (a provider may keep
  answering with a range error), so the model carries fuel: \<open>None\<close> means that the given
  depth of recursion was not enough.
\<close>

type_synonym 'c Client = "'c \<Rightarrow> GetLogsOptions \<Rightarrow> (Error + RpcLog list) \<times> 'c"

fun retryLoop ::
  "('c \<Rightarrow> GetLogsOptions \<Rightarrow> ((Error + RpcLog list) \<times> 'c) option) \<Rightarrow> 'c \<Rightarrow> GetLogsOptions
   \<Rightarrow> (string \<times> string) list \<Rightarrow> RpcLog list \<Rightarrow> ((Error + RpcLog list) \<times> 'c) option" where
  "retryLoop call c options [] lgs = Some (Inr lgs, c)"
| "retryLoop call c options ((from, to) # ranges) lgs =
     (case call c (options\<lparr>gl_fromBlock := from, gl_toBlock := to\<rparr>) of
        None \<Rightarrow> None
      | Some (Inl e, c1) \<Rightarrow> Some (Inl e, c1)
      | Some (Inr logs_, c1) \<Rightarrow> retryLoop call c1 options ranges (lgs @ logs_))"

primrec eth_getLogs ::
  "nat \<Rightarrow> 'c Client \<Rightarrow> 'c \<Rightarrow> GetLogsOptions \<Rightarrow> ((Error + RpcLog list) \<times> 'c) option" where
  "eth_getLogs 0 client c options = None"
| "eth_getLogs (Suc fuel) client c options =
     (case client c options of
        (Inr logs_, c1) \<Rightarrow> Some (Inr logs_, c1)
      | (Inl error, c1) \<Rightarrow>
          (case retryRanges error options of
             Inl e \<Rightarrow> Some (Inl e, c1)
           | Inr ranges \<Rightarrow> retryLoop (eth_getLogs fuel client) c1 options ranges []))"

section \<open>Historical sync service: setup and the child-address worker\<close>

definition nullish :: "'a option \<Rightarrow> 'a \<Rightarrow> 'a" where
  \<comment> \<open>\<open>x ?? d\<close>\<close>
  "nullish x d = (case x of None \<Rightarrow> d | Some v \<Rightarrow> v)"

definition addRangeTasks ::
  "(int \<Rightarrow> int \<Rightarrow> HistoricalSyncTask) \<Rightarrow> interval list \<Rightarrow> Queue \<Rightarrow> Queue" where
  \<comment> \<open>\<open>for (const [fromBlock, toBlock] of chunks) queue.addTask(task, { priority })\<close>\<close>
  "addRangeTasks mk chunks q =
     fold (\<lambda>(fromBlock, toBlock) q'. addTask q' (mk fromBlock toBlock) (MAX_SAFE_INTEGER - fromBlock) False)
       chunks q"

definition registerCallbacks ::
  "(LogInterval \<Rightarrow> BlockCallback) \<Rightarrow> LogInterval list \<Rightarrow> BlockCallback list Record
   \<Rightarrow> BlockCallback list Record" where
  \<comment> \<open>\<open>for (const logInterval of logIntervals) (this.blockCallbacks[endBlock] ||= []).push(...)\<close>\<close>
  "registerCallbacks mk logIntervals bc =
     fold (\<lambda>logInterval bc'. or_assign_push bc' (endBlock logInterval) (mk logInterval)) logIntervals bc"

subsection \<open>setup\<close>

text \<open>
  \<open>validateHistoricalBlockRange\<close> (module \<open>./utils\<close>) and the event store are not among the
  sources; \<open>setup\<close> takes them as parameters.  A store read may fail.
\<close>

record HistoricalBlockRange =
  isHistoricalSyncRequired :: bool
  range_startBlock :: int
  range_endBlock :: int

record SetupEnv =
  validateHistoricalBlockRange :: "int \<Rightarrow> int option \<Rightarrow> int \<Rightarrow> int \<Rightarrow> Error + HistoricalBlockRange"
  getLogFilterIntervals :: "int \<Rightarrow> LogFilterCriteria \<Rightarrow> Error + interval list"
  getFactoryLogFilterIntervals :: "int \<Rightarrow> FactoryCriteria \<Rightarrow> Error + interval list"

definition childAddressCriteria :: "Factory \<Rightarrow> LogFilterCriteria" where
  \<comment> \<open>\<open>{ address: factory.criteria.address, topics: [factory.criteria.eventSelector] }\<close>\<close>
  "childAddressCriteria factory =
     \<lparr>address = Some [fc_address (f_criteria factory)],
      topics = Some [Some [eventSelector (f_criteria factory)]]\<rparr>"

definition setupLogFilter ::
  "SetupEnv \<Rightarrow> int \<Rightarrow> int \<Rightarrow> LogFilter \<Rightarrow> HistoricalSyncService
   \<Rightarrow> Error option \<times> HistoricalSyncService" where
  "setupLogFilter env latestBlockNumber finalizedBlockNumber' logFilter s =
     (case validateHistoricalBlockRange env (lf_startBlock logFilter) (lf_endBlock logFilter)
             finalizedBlockNumber' latestBlockNumber of
        Inl e \<Rightarrow> (Some e, s)
      | Inr r \<Rightarrow>
          if \<not> isHistoricalSyncRequired r
          then (None,
                s\<lparr>logFilterProgressTrackers :=
                    AList.update (lf_name logFilter)
                      (ProgressTracker_new (range_startBlock r, finalizedBlockNumber')
                         [(range_startBlock r, finalizedBlockNumber')])
                      (logFilterProgressTrackers s)\<rparr>)
          else
            (case getLogFilterIntervals env (lf_chainId logFilter) (lf_criteria logFilter) of
               Inl e \<Rightarrow> (Some e, s)
             | Inr completedLogFilterIntervals \<Rightarrow>
                 let logFilterProgressTracker =
                       ProgressTracker_new (range_startBlock r, range_endBlock r)
                         completedLogFilterIntervals;
                     requiredLogFilterIntervals = getRequired logFilterProgressTracker;
                     logFilterTaskChunks =
                       getChunks requiredLogFilterIntervals
                         (nullish (lf_maxBlockRange logFilter) (defaultMaxBlockRange s))
                 in (None,
                     s\<lparr>logFilterProgressTrackers :=
                         AList.update (lf_name logFilter) logFilterProgressTracker
                           (logFilterProgressTrackers s),
                       queue := addRangeTasks (LOG_FILTER logFilter) logFilterTaskChunks (queue s)\<rparr>)))"

definition setupFactory ::
  "SetupEnv \<Rightarrow> int \<Rightarrow> int \<Rightarrow> Factory \<Rightarrow> HistoricalSyncService
   \<Rightarrow> Error option \<times> HistoricalSyncService" where
  "setupFactory env latestBlockNumber finalizedBlockNumber' factory s =
     (case validateHistoricalBlockRange env (f_startBlock factory) (f_endBlock factory)
             finalizedBlockNumber' latestBlockNumber of
        Inl e \<Rightarrow> (Some e, s)
      | Inr r \<Rightarrow>
          if \<not> isHistoricalSyncRequired r
          then (None,
                s\<lparr>factoryChildAddressProgressTrackers :=
                    AList.update (f_name factory)
                      (ProgressTracker_new (range_startBlock r, finalizedBlockNumber')
                         [(range_startBlock r, finalizedBlockNumber')])
                      (factoryChildAddressProgressTrackers s),
                  factoryLogFilterProgressTrackers :=
                    AList.update (f_name factory)
                      (ProgressTracker_new (range_startBlock r, finalizedBlockNumber')
                         [(range_startBlock r, finalizedBlockNumber')])
                      (factoryLogFilterProgressTrackers s)\<rparr>)
          else
            (case getLogFilterIntervals env (f_chainId factory) (childAddressCriteria factory) of
               Inl e \<Rightarrow> (Some e, s)
             | Inr completedFactoryChildAddressIntervals \<Rightarrow>
                 let factoryChildAddressProgressTracker =
                       ProgressTracker_new (range_startBlock r, range_endBlock r)
                         completedFactoryChildAddressIntervals;
                     requiredFactoryChildAddressIntervals =
                       getRequired factoryChildAddressProgressTracker;
                     factoryChildAddressTaskChunks =
                       getChunks requiredFactoryChildAddressIntervals
                         (nullish (f_maxBlockRange factory) (defaultMaxBlockRange s));
                     s1 = s\<lparr>factoryChildAddressProgressTrackers :=
                              AList.update (f_name factory) factoryChildAddressProgressTracker
                                (factoryChildAddressProgressTrackers s),
                            queue := addRangeTasks (FACTORY_CHILD_ADDRESS factory)
                                       factoryChildAddressTaskChunks (queue s)\<rparr>
                 in (case getFactoryLogFilterIntervals env (f_chainId factory) (f_criteria factory) of
                       Inl e \<Rightarrow> (Some e, s1)
                     | Inr completedFactoryLogFilterIntervals \<Rightarrow>
                         let factoryLogFilterProgressTracker =
                               ProgressTracker_new (range_startBlock r, range_endBlock r)
                                 completedFactoryLogFilterIntervals;
                             requiredFactoryLogFilterIntervals =
                               getRequired factoryLogFilterProgressTracker;
                             missingFactoryLogFilterIntervals =
                               intervalDifference requiredFactoryLogFilterIntervals
                                 requiredFactoryChildAddressIntervals;
                             missingFactoryLogFilterTaskChunks =
                               getChunks missingFactoryLogFilterIntervals
                                 (nullish (f_maxBlockRange factory) (defaultMaxBlockRange s))
                         in (None,
                             s1\<lparr>factoryLogFilterProgressTrackers :=
                                  AList.update (f_name factory) factoryLogFilterProgressTracker
                                    (factoryLogFilterProgressTrackers s1),
                                queue := addRangeTasks (FACTORY_LOG_FILTER factory)
                                           missingFactoryLogFilterTaskChunks (queue s1)\<rparr>))))"

text \<open>
  \<open>setup\<close> (here \<open>setupSources\<close>) stores the finalized block number and builds the argument
  of \<open>Promise.all\<close> from \<open>this.logFilters.map(...)\<close> and \<open>this.factories.map(...)\<close>; \<open>map\<close> on
  \<open>undefined\<close> throws a type error.  \<open>map\<close> starts one closure per source; a closure touches
  only the trackers of its own source and appends to the queue, and the model runs the
  closures one after the other.  Where both lists are defined, the first error of a closure
  is the error of \<open>setup\<close>.
\<close>

definition runClosure ::
  "(HistoricalSyncService \<Rightarrow> Error option \<times> HistoricalSyncService)
   \<Rightarrow> Error option \<times> HistoricalSyncService \<Rightarrow> Error option \<times> HistoricalSyncService" where
  "runClosure f acc =
     (case f (snd acc) of
        (e, s') \<Rightarrow> ((case fst acc of None \<Rightarrow> e | Some e0 \<Rightarrow> Some e0), s'))"

definition setupSources ::
  "SetupEnv \<Rightarrow> int \<Rightarrow> int \<Rightarrow> HistoricalSyncService \<Rightarrow> Error option \<times> HistoricalSyncService" where
  "setupSources env latestBlockNumber finalizedBlockNumber' s =
     (let s0 = s\<lparr>finalizedBlockNumber := Some finalizedBlockNumber'\<rparr> in
      case logFilters s0 of
        None \<Rightarrow> (Some TypeError, s0)
      | Some logFilters' \<Rightarrow>
          let started =
                fold (\<lambda>logFilter. runClosure
                                     (setupLogFilter env latestBlockNumber finalizedBlockNumber' logFilter))
                  logFilters' (None, s0)
          in (case factories s0 of
                None \<Rightarrow> (Some TypeError, snd started)
              | Some factories' \<Rightarrow>
                  fold (\<lambda>factory. runClosure
                                      (setupFactory env latestBlockNumber finalizedBlockNumber' factory))
                    factories' started))"

subsection \<open>factoryChildAddressTaskWorker\<close>

text \<open>
  The worker is given the chain client and \<open>insertFactoryChildAddressLogs\<close> of the event
  store, each a function on its own state.  It returns the error thrown, if any, together
  with the service as the worker left it; \<open>None\<close> means that the fuel of \<open>_eth_getLogs\<close> ran
  out.
\<close>

type_synonym 'st StoreInsert = "'st \<Rightarrow> int \<Rightarrow> RpcLog list \<Rightarrow> Error option \<times> 'st"

definition childAddressCallback :: "Factory \<Rightarrow> LogInterval \<Rightarrow> BlockCallback" where
  "childAddressCallback factory logInterval =
     insertLogFilterInterval (f_chainId factory) (childAddressCriteria factory)
       (logs logInterval) (transactionHashes logInterval)
       (startBlock logInterval) (endBlock logInterval) None"

definition factoryChildAddressTaskWorker ::
  "nat \<Rightarrow> 'c Client \<Rightarrow> 'st StoreInsert \<Rightarrow> Factory \<Rightarrow> int \<Rightarrow> int
   \<Rightarrow> HistoricalSyncService \<Rightarrow> 'c \<Rightarrow> 'st
   \<Rightarrow> (Error option \<times> HistoricalSyncService \<times> 'c \<times> 'st) option" where
  "factoryChildAddressTaskWorker fuel client insertFactoryChildAddressLogs factory fromBlock toBlock s c st =
     (case toHex_number (Integer fromBlock) of
        Inl e \<Rightarrow> Some (Some e, s, c, st)
      | Inr fromHex \<Rightarrow>
      (case toHex_number (Integer toBlock) of
        Inl e \<Rightarrow> Some (Some e, s, c, st)
      | Inr toHex \<Rightarrow>
      (case eth_getLogs fuel client c
              \<lparr>gl_address = address (childAddressCriteria factory),
               gl_topics = topics (childAddressCriteria factory),
               gl_fromBlock = fromHex, gl_toBlock = toHex\<rparr> of
        None \<Rightarrow> None
      | Some (Inl e, c1) \<Rightarrow> Some (Some e, s, c1, st)
      | Some (Inr lgs, c1) \<Rightarrow>
      (case insertFactoryChildAddressLogs st (f_chainId factory) lgs of
        (Some e, st1) \<Rightarrow> Some (Some e, s, c1, st1)
      | (None, st1) \<Rightarrow>
          let logIntervals = buildLogIntervals fromBlock toBlock lgs;
              s1 = s\<lparr>blockCallbacks :=
                       registerCallbacks (childAddressCallback factory) logIntervals (blockCallbacks s)\<rparr>
          in (case map_of (factoryChildAddressProgressTrackers s1) (f_name factory) of
                None \<Rightarrow> Some (Some TypeError, s1, c1, st1)
              | Some tracker \<Rightarrow>
                  (case addCompletedInterval tracker (fromBlock, toBlock) of
                     (tracker', upd) \<Rightarrow>
                       let s2 = s1\<lparr>factoryChildAddressProgressTrackers :=
                                     AList.update (f_name factory) tracker'
                                       (factoryChildAddressProgressTrackers s1)\<rparr>;
                           s3 = (if isUpdated upd
                                 then s2\<lparr>queue :=
                                          addRangeTasks (FACTORY_LOG_FILTER factory)
                                            (getChunks [(prevCheckpoint upd + 1, newCheckpoint' upd)]
                                               (nullish (f_maxBlockRange factory) (defaultMaxBlockRange s2)))
                                            (queue s2)\<rparr>
                                 else s2)
                       in Some (None, s3, c1, st1)))))))"

subsection \<open>Notions used in the statements\<close>

definition blocksOf :: "interval list \<Rightarrow> int set" where
  "blocksOf ivs = (\<Union>(a, b) \<in> set ivs. {a .. b})"

definition rangeTaskEntry :: "(int \<Rightarrow> int \<Rightarrow> HistoricalSyncTask) \<Rightarrow> interval \<Rightarrow> QueueEntry" where
  "rangeTaskEntry mk iv =
     \<lparr>task = mk (fst iv) (snd iv), priority = MAX_SAFE_INTEGER - fst iv, retry = False\<rparr>"

fun taskBlock :: "HistoricalSyncTask \<Rightarrow> int" where
  "taskBlock (LOG_FILTER logFilter fromBlock toBlock) = fromBlock"
| "taskBlock (FACTORY_CHILD_ADDRESS factory fromBlock toBlock) = fromBlock"
| "taskBlock (FACTORY_LOG_FILTER factory fromBlock toBlock) = fromBlock"
| "taskBlock (BLOCK blockNumber' callbacks) = blockNumber'"

definition enqueuedPriorities :: "Queue \<Rightarrow> bool" where
  \<comment> \<open>every queued task has the priority \<open>MAX_SAFE_INTEGER\<close> minus its block\<close>
  "enqueuedPriorities q = list_all (\<lambda>e. priority e = MAX_SAFE_INTEGER - taskBlock (task e)) q"

section \<open>Concrete inputs\<close>

definition log110 :: RpcLog where
  "log110 = \<lparr>blockNumber = 110, transactionHash = ''0xaa'', logIndex = 0\<rparr>"

definition gatewayTwoNetworks :: SyncGateway where
  "gatewayTwoNetworks = gatewayCalls (SyncGateway_new [1, 10])
     [NewHistoricalCheckpoint 1 50, NewHistoricalCheckpoint 10 30, HistoricalSyncComplete 10]"

definition gatewayMixed :: SyncGateway where
  \<comment> \<open>chain 1 has completed its historical sync, chain 10 has not\<close>
  "gatewayMixed = gatewayCalls (SyncGateway_new [1, 10])
     [NewHistoricalCheckpoint 1 50, NewHistoricalCheckpoint 10 60,
      HistoricalSyncComplete 1, NewRealtimeCheckpoint 10 90]"

definition gatewayAllCalls :: "GatewayCall list" where
  "gatewayAllCalls = [NewHistoricalCheckpoint 1 50, NewHistoricalCheckpoint 10 30,
                      HistoricalSyncComplete 10, HistoricalSyncComplete 1]"

definition gateService :: HistoricalSyncService where
  "gateService =
     (HistoricalSyncService_new 50 [])
       \<lparr>logFilterProgressTrackers := [(''A'', \<lparr>target = (100, 199), completed = [(100, 149)]\<rparr>)],
        factoryChildAddressProgressTrackers := [(''F'', \<lparr>target = (100, 199), completed = [(100, 199)]\<rparr>)],
        blockCallbacks :=
          [(160, [insertLogFilterInterval 1 \<lparr>address = None, topics = None\<rparr> [] [] 150 160 (Some ''A'')]),
           (110, [insertLogFilterInterval 1 \<lparr>address = None, topics = None\<rparr> [] [] 100 110 (Some ''A'')]),
           (149, [insertLogFilterInterval 1 \<lparr>address = None, topics = None\<rparr> [] [] 111 149 (Some ''A'')])]\<rparr>"

definition cachedService :: HistoricalSyncService where
  "cachedService = (HistoricalSyncService_new 50 [])\<lparr>finalizedBlockNumber := Some 500\<rparr>"

definition busyService :: HistoricalSyncService where
  "busyService = cachedService\<lparr>queue := [\<lparr>task = BLOCK 110 (Some []), priority = MAX_SAFE_INTEGER - 110,
                                            retry = False\<rparr>]\<rparr>"

definition s4Options :: GetLogsOptions where
  "s4Options = \<lparr>gl_address = None, gl_topics = None, gl_fromBlock = ''0x0'', gl_toBlock = ''0x3e8''\<rparr>"


definition s4LogA :: RpcLog where
  "s4LogA = \<lparr>blockNumber = 120, transactionHash = ''0xa1'', logIndex = 0\<rparr>"

definition s4LogB :: RpcLog where
  "s4LogB = \<lparr>blockNumber = 700, transactionHash = ''0xb2'', logIndex = 3\<rparr>"


definition noRangeDetails :: string where
  "noRangeDetails = ''Log response size exceeded.''"

definition badRangeDetails :: string where
  "badRangeDetails = ''Log response size exceeded. this block range should work: [abc, def]''"

definition c4Client :: "string \<Rightarrow> GetLogsOptions list Client" where
  \<comment> \<open>fails on \<open>[0, 1000]\<close> with the given details and serves both halves of the midpoint split\<close>
  "c4Client details requests options =
     (if gl_fromBlock options = ''0x0'' \<and> gl_toBlock options = ''0x3e8''
        then Inl (RequestError InvalidParamsRpcError details)
      else if gl_fromBlock options = ''0x0'' \<and> gl_toBlock options = ''0x1f4'' then Inr [s4LogA]
      else if gl_fromBlock options = ''0x1f5'' \<and> gl_toBlock options = ''0x3e8'' then Inr [s4LogB]
      else Inl (RequestError OtherRpcError ''unexpected block range''),
      requests @ [options])"

definition infuraDetails :: string where
  "infuraDetails = ''query returned more than 10000 results. Try with this block range [0x10, 0x2g].''"

definition infuraClient :: "GetLogsOptions list Client" where
  \<comment> \<open>fails every request with the more-than-10000-results error\<close>
  "infuraClient requests options =
     (Inl (RequestError LimitExceededRpcError infuraDetails), requests @ [options])"

definition c5Factory :: Factory where
  "c5Factory = \<lparr>f_name = ''F'', f_chainId = 1,
                  f_criteria = \<lparr>fc_address = ''0xf'', eventSelector = ''0x5'',
                                 childAddressLocation = ''topic1'', fc_topics = None\<rparr>,
                  f_startBlock = 100, f_endBlock = Some 199, f_maxBlockRange = Some 25\<rparr>"

definition c5Log :: RpcLog where
  "c5Log = \<lparr>blockNumber = 105, transactionHash = ''0xc1'', logIndex = 0\<rparr>"

definition c5Client :: "GetLogsOptions list Client" where
  "c5Client requests options = (Inr [c5Log], requests @ [options])"

definition c5Insert :: "RpcLog list StoreInsert" where
  "c5Insert st chainId lgs = (None, st @ lgs)"

definition c5Service :: HistoricalSyncService where
  "c5Service = (HistoricalSyncService_new 50 [FactorySource c5Factory])
     \<lparr>finalizedBlockNumber := Some 199,
      factoryChildAddressProgressTrackers := [(''F'', \<lparr>target = (100, 199), completed = []\<rparr>)],
      factoryLogFilterProgressTrackers := [(''F'', \<lparr>target = (100, 199), completed = []\<rparr>)]\<rparr>"

definition c5Request :: GetLogsOptions where
  "c5Request = \<lparr>gl_address = Some [''0xf''], gl_topics = Some [Some [''0x5'']],
                  gl_fromBlock = ''0x64'', gl_toBlock = ''0x95''\<rparr>"

definition c6Env :: SetupEnv where
  \<comment> \<open>child addresses are cached for \<open>[100, 149]\<close>, factory logs are not cached at all\<close>
  "c6Env = \<lparr>validateHistoricalBlockRange =
               (\<lambda>start end finalized latest.
                  Inr \<lparr>isHistoricalSyncRequired = True, range_startBlock = 100, range_endBlock = 199\<rparr>),
             getLogFilterIntervals = (\<lambda>chainId criteria. Inr [(100, 149)]),
             getFactoryLogFilterIntervals = (\<lambda>chainId criteria. Inr [])\<rparr>"

definition blockEntry :: QueueEntry where
  "blockEntry = \<lparr>task = BLOCK 110 (Some []), priority = MAX_SAFE_INTEGER - 110, retry = False\<rparr>"

section \<open>Log intervals partition the requested range\<close>

lemma keys_or_assign_add: "map fst (or_assign_add r k h) = (if k \<in> fst ` set r then map fst r else map fst r @ [k])"
  by (auto simp: or_assign_add_def update_keys split: option.splits simp: map_of_eq_None_iff  dest: map_of_SomeD weak_map_of_SomeI)

lemma keyset_or_assign_add: "fst ` set (or_assign_add r k h) = insert k (fst ` set r)"
  using keys_or_assign_add[of r k h] by (metis (no_types, lifting) insert_absorb list.set_map list.simps(15) set_append Un_insert_right sup_bot.right_neutral list.set(1))

lemma keys_fold_group:
  "fst ` set (fst (fold group_log lgs acc)) = fst ` set (fst acc) \<union> blockNumber ` set lgs"
proof (induction lgs arbitrary: acc)
  case Nil then show ?case by simp
next
  case (Cons l ls)
  obtain tx lg where acc: "acc = (tx, lg)" by (cases acc)
  show ?case unfolding fold_simps Cons.IH by (simp add: acc group_log_def keyset_or_assign_add)
qed

lemma distinct_fold_group:
  "distinct (map fst (fst acc)) \<Longrightarrow> distinct (map fst (fst (fold group_log lgs acc)))"
  by (induction lgs arbitrary: acc) (auto simp: group_log_def keys_or_assign_add split: prod.splits)

lemma loop_nonempty: "bs \<noteq> [] \<Longrightarrow> requiredIntervals_loop p bs lg tx \<noteq> []"
  by (cases bs) auto

lemma loop_length: "length (requiredIntervals_loop p bs lg tx) = length bs"
  by (induction bs arbitrary: p) auto

lemma loop_hd: "bs \<noteq> [] \<Longrightarrow> startBlock (hd (requiredIntervals_loop p bs lg tx)) = p"
  by (cases bs) auto

lemma loop_end: "map endBlock (requiredIntervals_loop p bs lg tx) = bs"
  by (induction bs arbitrary: p) auto

lemma loop_chain:
  "Suc i < length bs \<Longrightarrow>
   startBlock (requiredIntervals_loop p bs lg tx ! Suc i) = endBlock (requiredIntervals_loop p bs lg tx ! i) + 1"
proof (induction bs arbitrary: p i)
  case Nil then show ?case by simp
next
  case (Cons b bs)
  show ?case
  proof (cases i)
    case 0
    with Cons.prems show ?thesis by (cases bs) auto
  next
    case (Suc j)
    with Cons show ?thesis by simp
  qed
qed

lemma loop_wf:
  "sorted (p # bs) \<Longrightarrow> distinct bs \<Longrightarrow> \<forall>iv \<in> set (requiredIntervals_loop p bs lg tx). startBlock iv \<le> endBlock iv"
proof (induction bs arbitrary: p)
  case Nil then show ?case by simp
next
  case (Cons b bs)
  have "sorted ((b+1) # bs)" using Cons.prems by (auto simp: order_less_le intro!: add1_zle_eq[THEN iffD2])
  with Cons show ?case by auto
qed

lemma loop_union:
  "sorted (p # bs) \<Longrightarrow> distinct bs \<Longrightarrow> bs \<noteq> [] \<Longrightarrow>
   (\<Union>iv \<in> set (requiredIntervals_loop p bs lg tx). {startBlock iv .. endBlock iv}) = {p .. last bs}"
proof (induction bs arbitrary: p)
  case Nil then show ?case by simp
next
  case (Cons b bs)
  have s: "sorted ((b+1) # bs)" using Cons.prems by (auto simp: order_less_le intro!: add1_zle_eq[THEN iffD2])
  show ?case
  proof (cases bs)
    case Nil then show ?thesis by simp
  next
    case (Cons c cs)
    have "(\<Union>iv \<in> set (requiredIntervals_loop (b+1) bs lg tx). {startBlock iv .. endBlock iv}) = {b+1 .. last bs}"
      using Cons.IH[OF s] Cons.prems Cons by auto
    moreover have "p \<le> b" "b + 1 \<le> last bs" using Cons.prems s Cons by (auto simp del: sorted_wrt.simps simp: sorted_wrt.simps(2))
    ultimately show ?thesis using Cons by auto
  qed
qed


lemma sorted_le_last: "sorted (xs::int list) \<Longrightarrow> \<forall>k \<in> set xs. k \<le> last xs"
  by (induction xs) auto

lemma requiredBlocks_props:
  assumes "fromBlock \<le> toBlock"
    and "\<forall>l \<in> set lgs. fromBlock \<le> blockNumber l \<and> blockNumber l \<le> toBlock"
    and "fold group_log lgs ([], []) = (tx, lg)"
    and "ks = Object_keys tx"
    and "bs = (if toBlock \<in> set ks then ks else ks @ [toBlock])"
  shows "bs \<noteq> []" "sorted (fromBlock # bs)" "distinct bs" "last bs = toBlock"
proof -
  have kset: "set ks = blockNumber ` set lgs"
    using keys_fold_group[of lgs "([], [])"] assms(3,4) by (simp add: Object_keys_def)
  have kdist: "distinct ks"
    using distinct_fold_group[of "([], [])" lgs] assms(3,4) by (simp add: Object_keys_def)
  have ksort: "sorted ks" using assms(4) by (simp add: Object_keys_def)
  have kle: "\<forall>k \<in> set ks. fromBlock \<le> k \<and> k \<le> toBlock" using kset assms(2) by auto
  show "bs \<noteq> []" using assms(5) by auto
  show "sorted (fromBlock # bs)" using ksort kle assms(1,5) by (auto simp: sorted_append)
  show "distinct bs" using kdist assms(5) by auto
  show "last bs = toBlock"
  proof (cases "toBlock \<in> set ks")
    case False then show ?thesis using assms(5) by simp
  next
    case True
    then have ne: "ks \<noteq> []" by auto
    have "\<forall>k \<in> set ks. k \<le> last ks"
      using ksort by (rule sorted_le_last)
    then have "toBlock \<le> last ks" using True by auto
    moreover have "last ks \<le> toBlock" using kle ne by auto
    ultimately show ?thesis using True assms(5) by simp
  qed
qed

text \<open>
  Claim C1.  For \<open>fromBlock \<le> toBlock\<close> and logs whose block numbers all lie in
  \<open>[fromBlock, toBlock]\<close>, \<open>buildLogIntervals\<close> returns a non-empty list of intervals: the
  first starts at \<open>fromBlock\<close>, each later one starts one block after the end of its
  predecessor, the last ends at \<open>toBlock\<close>, every interval is well formed and together they
  cover exactly \<open>[fromBlock, toBlock]\<close>.  For no logs the result is the single interval
  \<open>[fromBlock, toBlock]\<close> with no logs and no transaction hashes.
\<close>

theorem buildLogIntervals_partition:
  assumes "fromBlock \<le> toBlock"
    and "\<forall>l \<in> set lgs. fromBlock \<le> blockNumber l \<and> blockNumber l \<le> toBlock"
  shows "buildLogIntervals fromBlock toBlock lgs \<noteq> []
       \<and> startBlock (hd (buildLogIntervals fromBlock toBlock lgs)) = fromBlock
       \<and> (\<forall>i. Suc i < length (buildLogIntervals fromBlock toBlock lgs) \<longrightarrow>
              startBlock (buildLogIntervals fromBlock toBlock lgs ! Suc i)
              = endBlock (buildLogIntervals fromBlock toBlock lgs ! i) + 1)
       \<and> endBlock (last (buildLogIntervals fromBlock toBlock lgs)) = toBlock
       \<and> (\<forall>iv \<in> set (buildLogIntervals fromBlock toBlock lgs). startBlock iv \<le> endBlock iv)
       \<and> (\<Union>iv \<in> set (buildLogIntervals fromBlock toBlock lgs). {startBlock iv .. endBlock iv})
           = {fromBlock .. toBlock}
       \<and> buildLogIntervals fromBlock toBlock []
           = [\<lparr>startBlock = fromBlock, endBlock = toBlock, logs = [], transactionHashes = []\<rparr>]"
proof -
  obtain tx lg where f: "fold group_log lgs ([], []) = (tx, lg)" by (cases "fold group_log lgs ([], [])")
  define ks where "ks = Object_keys tx"
  define bs where "bs = (if toBlock \<in> set ks then ks else ks @ [toBlock])"
  note p = requiredBlocks_props[OF assms f ks_def bs_def]
  have r: "buildLogIntervals fromBlock toBlock lgs = requiredIntervals_loop fromBlock bs lg tx"
    by (simp add: buildLogIntervals_def f ks_def bs_def Let_def)
  have 1: "requiredIntervals_loop fromBlock bs lg tx \<noteq> []" using p(1) by (rule loop_nonempty)
  have 2: "startBlock (hd (requiredIntervals_loop fromBlock bs lg tx)) = fromBlock"
    using p(1) by (rule loop_hd)
  have 3: "\<forall>i. Suc i < length (requiredIntervals_loop fromBlock bs lg tx) \<longrightarrow>
              startBlock (requiredIntervals_loop fromBlock bs lg tx ! Suc i)
              = endBlock (requiredIntervals_loop fromBlock bs lg tx ! i) + 1"
    by (simp add: loop_length loop_chain)
  have "endBlock (last (requiredIntervals_loop fromBlock bs lg tx))
        = last (map endBlock (requiredIntervals_loop fromBlock bs lg tx))"
    using 1 by (simp add: last_map)
  then have 4: "endBlock (last (requiredIntervals_loop fromBlock bs lg tx)) = toBlock"
    using p(4) by (simp add: loop_end)
  have 5: "\<forall>iv \<in> set (requiredIntervals_loop fromBlock bs lg tx). startBlock iv \<le> endBlock iv"
    using p(2,3) by (rule loop_wf)
  have 6: "(\<Union>iv \<in> set (requiredIntervals_loop fromBlock bs lg tx). {startBlock iv .. endBlock iv})
           = {fromBlock .. toBlock}"
    using loop_union[OF p(2,3,1)] p(4) by simp
  have 7: "buildLogIntervals fromBlock toBlock []
           = [\<lparr>startBlock = fromBlock, endBlock = toBlock, logs = [], transactionHashes = []\<rparr>]"
    by (simp add: buildLogIntervals_def Object_keys_def)
  show ?thesis unfolding r using 1 2 3 4 5 6 7 by blast
qed

theorem buildLogIntervals_partition_witness:
  "buildLogIntervals 100 149 [log110]
     = [\<lparr>startBlock = 100, endBlock = 110, logs = [log110], transactionHashes = [''0xaa'']\<rparr>,
        \<lparr>startBlock = 111, endBlock = 149, logs = [], transactionHashes = []\<rparr>]
   \<and> (\<Union>iv \<in> set (buildLogIntervals 100 149 [log110]). {startBlock iv .. endBlock iv}) = {100 .. 149}"
proof -
  have h1: "(100::int) \<le> 149" by simp
  have h2: "\<forall>l \<in> set [log110]. 100 \<le> blockNumber l \<and> blockNumber l \<le> 149"
    by (simp add: log110_def)
  have e: "buildLogIntervals 100 149 [log110]
     = [\<lparr>startBlock = 100, endBlock = 110, logs = [log110], transactionHashes = [''0xaa'']\<rparr>,
        \<lparr>startBlock = 111, endBlock = 149, logs = [], transactionHashes = []\<rparr>]"
    by (simp add: buildLogIntervals_def group_log_def or_assign_add_def or_assign_push_def
        Set_add_def Object_keys_def log110_def)
  show ?thesis using buildLogIntervals_partition[OF h1 h2] e by blast
qed

section \<open>Gateway: checkpoint and completion\<close>

lemma num_le_refl: "num_le a a"
  by (cases a) auto

lemma num_le_total: "\<not> num_le a b \<Longrightarrow> num_le b a"
  by (cases a; cases b) auto

lemma num_le_trans: "num_le a b \<Longrightarrow> num_le b c \<Longrightarrow> num_le a c"
  by (cases a; cases b; cases c) auto

lemma num_gt_imp_le: "num_gt a b \<Longrightarrow> num_le b a"
  by (simp add: num_gt_def num_le_total)

lemma num_min_Fin: "num_min (Fin a) (Fin b) = Fin (min a b)"
  by (simp add: num_min_def min_def)

lemma num_max_Fin: "num_max (Fin a) (Fin b) = Fin (max a b)"
  by (simp add: num_max_def max_def)

lemma fold_num_min_Fin:
  "fold (\<lambda>x acc. num_min acc (Fin x)) xs (Fin a) = Fin (Min (insert a (set xs)))"
proof (induction xs arbitrary: a)
  case Nil then show ?case by simp
next
  case (Cons x xs)
  have "Min (insert (min a x) (set xs)) = Min (insert a (insert x (set xs)))"
    by (cases "set xs = {}") (simp_all add: min.assoc)
  then show ?case using Cons.IH[of "min a x"] by (simp add: num_min_Fin)
qed

lemma num_min_PosInf: "num_min PosInf a = a"
  by (cases a) (simp_all add: num_min_def)

lemma num_max_NegInf: "num_max NegInf a = a"
  by (cases a) (simp_all add: num_max_def)

lemma Math_min_Min: "xs \<noteq> [] \<Longrightarrow> Math_min xs = Fin (Min (set xs))"
  by (cases xs) (simp_all add: Math_min_def num_min_PosInf fold_num_min_Fin)

lemma fold_num_max_Fin:
  "fold (\<lambda>x acc. num_max acc (Fin x)) xs (Fin a) = Fin (Max (insert a (set xs)))"
proof (induction xs arbitrary: a)
  case Nil then show ?case by simp
next
  case (Cons x xs)
  have "Max (insert (max a x) (set xs)) = Max (insert a (insert x (set xs)))"
    by (cases "set xs = {}") (simp_all add: max.assoc)
  then show ?case using Cons.IH[of "max a x"] by (simp add: num_max_Fin)
qed

lemma Math_max_Max: "xs \<noteq> [] \<Longrightarrow> Math_max xs = Fin (Max (set xs))"
  by (cases xs) (simp_all add: Math_max_def num_max_NegInf fold_num_max_Fin)

lemma recalculateCheckpoint_mono: "num_le (checkpoint g) (checkpoint (recalculateCheckpoint g))"
  by (simp add: recalculateCheckpoint_def Let_def num_le_refl num_gt_imp_le)

lemma recalculateFinalityCheckpoint_checkpoint:
  "checkpoint (recalculateFinalityCheckpoint g) = checkpoint g"
  by (simp add: recalculateFinalityCheckpoint_def Let_def)

lemma gatewayCall_mono: "gatewayCall g call = Inr g' \<Longrightarrow> num_le (checkpoint g) (checkpoint g')"
proof (cases call)
  case (NewHistoricalCheckpoint c t)
  assume "gatewayCall g call = Inr g'"
  then show ?thesis using NewHistoricalCheckpoint
      recalculateCheckpoint_mono[of "g\<lparr>networkCheckpoints := nc\<rparr>" for nc]
    by (auto simp: handleNewHistoricalCheckpoint_def split: option.splits)
next
  case (HistoricalSyncComplete c)
  assume "gatewayCall g call = Inr g'"
  then show ?thesis using HistoricalSyncComplete
      recalculateCheckpoint_mono[of "g\<lparr>networkCheckpoints := nc\<rparr>" for nc]
    by (auto simp: handleHistoricalSyncComplete_def Let_def split: option.splits if_splits)
next
  case (NewRealtimeCheckpoint c t)
  assume "gatewayCall g call = Inr g'"
  then show ?thesis using NewRealtimeCheckpoint
      recalculateCheckpoint_mono[of "g\<lparr>networkCheckpoints := nc\<rparr>" for nc]
    by (auto simp: handleNewRealtimeCheckpoint_def split: option.splits)
next
  case (NewFinalityCheckpoint c t)
  assume "gatewayCall g call = Inr g'"
  then show ?thesis using NewFinalityCheckpoint
    by (auto simp: handleNewFinalityCheckpoint_def recalculateFinalityCheckpoint_checkpoint num_le_refl split: option.splits)
next
  case (Reorg t)
  assume "gatewayCall g call = Inr g'"
  then show ?thesis using Reorg by (auto simp: handleReorg_def num_le_refl)
qed

lemma gatewayCalls_mono: "num_le (checkpoint g) (checkpoint (gatewayCalls g calls))"
proof (induction calls arbitrary: g)
  case Nil then show ?case by (simp add: num_le_refl)
next
  case (Cons c cs)
  show ?case
  proof (cases "gatewayCall g c")
    case (Inl e) then show ?thesis using Cons.IH[of g] by simp
  next
    case (Inr g')
    then show ?thesis using Cons.IH[of g'] gatewayCall_mono[OF Inr] by (auto intro: num_le_trans)
  qed
qed

lemma recalculateCheckpoint_exact:
  "recalculateCheckpoint g =
     (if num_gt (Math_min (map (\<lambda>n. if isHistoricalSyncComplete n then max (historicalCheckpoint n) (realtimeCheckpoint n) else historicalCheckpoint n) (Object_values (networkCheckpoints g)))) (checkpoint g)
      then g\<lparr>checkpoint := Math_min (map (\<lambda>n. if isHistoricalSyncComplete n then max (historicalCheckpoint n) (realtimeCheckpoint n) else historicalCheckpoint n) (Object_values (networkCheckpoints g))),
             emitted := emitted g @ [newCheckpoint (Math_min (map (\<lambda>n. if isHistoricalSyncComplete n then max (historicalCheckpoint n) (realtimeCheckpoint n) else historicalCheckpoint n) (Object_values (networkCheckpoints g))))]\<rparr>
      else g)"
  by (simp add: recalculateCheckpoint_def Let_def)

lemma recalculateCheckpoint_networkCheckpoints:
  "networkCheckpoints (recalculateCheckpoint g) = networkCheckpoints g"
  by (simp add: recalculateCheckpoint_def Let_def)

lemma set_Object_values: "set (Object_values r) = snd ` set r"
  by (simp add: Object_values_def)

lemma Object_values_Nil: "Object_values r = [] \<longleftrightarrow> r = []"
  by (simp add: Object_values_def) (metis length_0_conv length_sort)

lemma update_not_Nil: "AList.update k v r \<noteq> []"
  by (cases r) auto

lemma checkpoint_handler_exact:
  assumes "g' = recalculateCheckpoint (g\<lparr>networkCheckpoints := AList.update chainId n' (networkCheckpoints g)\<rparr>)"
  shows "num_le (checkpoint g) (checkpoint g')
       \<and> networkCheckpoints g' = AList.update chainId n' (networkCheckpoints g)
       \<and> Math_min (map (\<lambda>n. if isHistoricalSyncComplete n then max (historicalCheckpoint n) (realtimeCheckpoint n) else historicalCheckpoint n) (Object_values (networkCheckpoints g')))
           = Fin (Min ((\<lambda>n. if isHistoricalSyncComplete n then max (historicalCheckpoint n) (realtimeCheckpoint n) else historicalCheckpoint n) ` set (Object_values (networkCheckpoints g'))))
       \<and> (num_gt (Math_min (map (\<lambda>n. if isHistoricalSyncComplete n then max (historicalCheckpoint n) (realtimeCheckpoint n) else historicalCheckpoint n) (Object_values (networkCheckpoints g')))) (checkpoint g) \<longrightarrow>
             checkpoint g' = Math_min (map (\<lambda>n. if isHistoricalSyncComplete n then max (historicalCheckpoint n) (realtimeCheckpoint n) else historicalCheckpoint n) (Object_values (networkCheckpoints g')))
             \<and> emitted g' = emitted g
                 @ [newCheckpoint (Math_min (map (\<lambda>n. if isHistoricalSyncComplete n then max (historicalCheckpoint n) (realtimeCheckpoint n) else historicalCheckpoint n) (Object_values (networkCheckpoints g'))))])
       \<and> (\<not> num_gt (Math_min (map (\<lambda>n. if isHistoricalSyncComplete n then max (historicalCheckpoint n) (realtimeCheckpoint n) else historicalCheckpoint n) (Object_values (networkCheckpoints g')))) (checkpoint g) \<longrightarrow>
             checkpoint g' = checkpoint g \<and> emitted g' = emitted g)"
proof -
  define m where "m = Math_min (map (\<lambda>n. if isHistoricalSyncComplete n then max (historicalCheckpoint n) (realtimeCheckpoint n) else historicalCheckpoint n)
                         (Object_values (AList.update chainId n' (networkCheckpoints g))))"
  have nc: "networkCheckpoints g' = AList.update chainId n' (networkCheckpoints g)"
    using assms by (simp add: recalculateCheckpoint_networkCheckpoints)
  have ne: "map (\<lambda>n. if isHistoricalSyncComplete n then max (historicalCheckpoint n) (realtimeCheckpoint n) else historicalCheckpoint n) (Object_values (networkCheckpoints g')) \<noteq> []"
    using nc by (simp add: Object_values_Nil update_not_Nil)
  have mono: "num_le (checkpoint g) (checkpoint g')"
    using recalculateCheckpoint_mono[of "g\<lparr>networkCheckpoints := AList.update chainId n' (networkCheckpoints g)\<rparr>"]
      assms by simp
  have a: "num_gt m (checkpoint g) \<Longrightarrow>
             checkpoint g' = m \<and> emitted g' = emitted g @ [newCheckpoint m]"
    using assms by (simp add: recalculateCheckpoint_def Let_def m_def)
  have b: "\<not> num_gt m (checkpoint g) \<Longrightarrow> checkpoint g' = checkpoint g \<and> emitted g' = emitted g"
    using assms by (simp add: recalculateCheckpoint_def Let_def m_def)
  have m: "Math_min (map (\<lambda>n. if isHistoricalSyncComplete n then max (historicalCheckpoint n) (realtimeCheckpoint n) else historicalCheckpoint n) (Object_values (networkCheckpoints g'))) = m"
    by (simp add: nc m_def)
  show ?thesis unfolding m using mono nc Math_min_Min[OF ne] a b m by auto
qed

text \<open>
  Claim C9.  The gateway's \<open>checkpoint\<close> never decreases, over any sequence of handler
  calls.  A call of \<open>handleNewHistoricalCheckpoint\<close> or \<open>handleNewRealtimeCheckpoint\<close> for
  a registered chain stores the timestamp and recalculates: the candidate is the minimum,
  over the registered networks, of the historical checkpoint (historical sync not complete)
  or of the larger of historical and realtime checkpoint (complete); the stored checkpoint
  is replaced by the candidate and one \<open>newCheckpoint\<close> event is emitted exactly when the
  candidate is strictly greater, and otherwise checkpoint and events stay as they were.  For
  a chain that is not registered both handlers throw.
\<close>

theorem gateway_checkpoint_never_decreases:
  "num_le (checkpoint g) (checkpoint (gatewayCalls g calls))
   \<and> (\<forall>n. map_of (networkCheckpoints g) chainId = Some n \<longrightarrow>
        (\<exists>g'. handleNewHistoricalCheckpoint g chainId timestamp = Inr g'
           \<and> num_le (checkpoint g) (checkpoint g')
           \<and> networkCheckpoints g'
               = AList.update chainId (n\<lparr>historicalCheckpoint := timestamp\<rparr>) (networkCheckpoints g)
           \<and> Math_min (map (\<lambda>n. if isHistoricalSyncComplete n then max (historicalCheckpoint n) (realtimeCheckpoint n) else historicalCheckpoint n) (Object_values (networkCheckpoints g')))
               = Fin (Min ((\<lambda>n. if isHistoricalSyncComplete n then max (historicalCheckpoint n) (realtimeCheckpoint n) else historicalCheckpoint n) ` set (Object_values (networkCheckpoints g'))))
           \<and> (num_gt (Math_min (map (\<lambda>n. if isHistoricalSyncComplete n then max (historicalCheckpoint n) (realtimeCheckpoint n) else historicalCheckpoint n) (Object_values (networkCheckpoints g'))))
                 (checkpoint g) \<longrightarrow>
                 checkpoint g' = Math_min (map (\<lambda>n. if isHistoricalSyncComplete n then max (historicalCheckpoint n) (realtimeCheckpoint n) else historicalCheckpoint n) (Object_values (networkCheckpoints g')))
                 \<and> emitted g' = emitted g
                     @ [newCheckpoint (Math_min (map (\<lambda>n. if isHistoricalSyncComplete n then max (historicalCheckpoint n) (realtimeCheckpoint n) else historicalCheckpoint n)
                                                  (Object_values (networkCheckpoints g'))))])
           \<and> (\<not> num_gt (Math_min (map (\<lambda>n. if isHistoricalSyncComplete n then max (historicalCheckpoint n) (realtimeCheckpoint n) else historicalCheckpoint n) (Object_values (networkCheckpoints g'))))
                 (checkpoint g) \<longrightarrow>
                 checkpoint g' = checkpoint g \<and> emitted g' = emitted g))
      \<and> (\<exists>g'. handleNewRealtimeCheckpoint g chainId timestamp = Inr g'
           \<and> num_le (checkpoint g) (checkpoint g')
           \<and> networkCheckpoints g'
               = AList.update chainId (n\<lparr>realtimeCheckpoint := timestamp\<rparr>) (networkCheckpoints g)
           \<and> Math_min (map (\<lambda>n. if isHistoricalSyncComplete n then max (historicalCheckpoint n) (realtimeCheckpoint n) else historicalCheckpoint n) (Object_values (networkCheckpoints g')))
               = Fin (Min ((\<lambda>n. if isHistoricalSyncComplete n then max (historicalCheckpoint n) (realtimeCheckpoint n) else historicalCheckpoint n) ` set (Object_values (networkCheckpoints g'))))
           \<and> (num_gt (Math_min (map (\<lambda>n. if isHistoricalSyncComplete n then max (historicalCheckpoint n) (realtimeCheckpoint n) else historicalCheckpoint n) (Object_values (networkCheckpoints g'))))
                 (checkpoint g) \<longrightarrow>
                 checkpoint g' = Math_min (map (\<lambda>n. if isHistoricalSyncComplete n then max (historicalCheckpoint n) (realtimeCheckpoint n) else historicalCheckpoint n) (Object_values (networkCheckpoints g')))
                 \<and> emitted g' = emitted g
                     @ [newCheckpoint (Math_min (map (\<lambda>n. if isHistoricalSyncComplete n then max (historicalCheckpoint n) (realtimeCheckpoint n) else historicalCheckpoint n)
                                                  (Object_values (networkCheckpoints g'))))])
           \<and> (\<not> num_gt (Math_min (map (\<lambda>n. if isHistoricalSyncComplete n then max (historicalCheckpoint n) (realtimeCheckpoint n) else historicalCheckpoint n) (Object_values (networkCheckpoints g'))))
                 (checkpoint g) \<longrightarrow>
                 checkpoint g' = checkpoint g \<and> emitted g' = emitted g)))
   \<and> (map_of (networkCheckpoints g) chainId = None \<longrightarrow>
        handleNewHistoricalCheckpoint g chainId timestamp = Inl TypeError
        \<and> handleNewRealtimeCheckpoint g chainId timestamp = Inl TypeError)"
proof (intro conjI allI impI)
  show "num_le (checkpoint g) (checkpoint (gatewayCalls g calls))" by (rule gatewayCalls_mono)
next
  fix n assume n: "map_of (networkCheckpoints g) chainId = Some n"
  define g' where "g' = recalculateCheckpoint
     (g\<lparr>networkCheckpoints := AList.update chainId (n\<lparr>historicalCheckpoint := timestamp\<rparr>) (networkCheckpoints g)\<rparr>)"
  have "handleNewHistoricalCheckpoint g chainId timestamp = Inr g'"
    by (simp add: handleNewHistoricalCheckpoint_def n g'_def)
  then show "\<exists>g'. handleNewHistoricalCheckpoint g chainId timestamp = Inr g'
           \<and> num_le (checkpoint g) (checkpoint g')
           \<and> networkCheckpoints g'
               = AList.update chainId (n\<lparr>historicalCheckpoint := timestamp\<rparr>) (networkCheckpoints g)
           \<and> Math_min (map (\<lambda>n. if isHistoricalSyncComplete n then max (historicalCheckpoint n) (realtimeCheckpoint n) else historicalCheckpoint n) (Object_values (networkCheckpoints g')))
               = Fin (Min ((\<lambda>n. if isHistoricalSyncComplete n then max (historicalCheckpoint n) (realtimeCheckpoint n) else historicalCheckpoint n) ` set (Object_values (networkCheckpoints g'))))
           \<and> (num_gt (Math_min (map (\<lambda>n. if isHistoricalSyncComplete n then max (historicalCheckpoint n) (realtimeCheckpoint n) else historicalCheckpoint n) (Object_values (networkCheckpoints g'))))
                 (checkpoint g) \<longrightarrow>
                 checkpoint g' = Math_min (map (\<lambda>n. if isHistoricalSyncComplete n then max (historicalCheckpoint n) (realtimeCheckpoint n) else historicalCheckpoint n) (Object_values (networkCheckpoints g')))
                 \<and> emitted g' = emitted g
                     @ [newCheckpoint (Math_min (map (\<lambda>n. if isHistoricalSyncComplete n then max (historicalCheckpoint n) (realtimeCheckpoint n) else historicalCheckpoint n)
                                                  (Object_values (networkCheckpoints g'))))])
           \<and> (\<not> num_gt (Math_min (map (\<lambda>n. if isHistoricalSyncComplete n then max (historicalCheckpoint n) (realtimeCheckpoint n) else historicalCheckpoint n) (Object_values (networkCheckpoints g'))))
                 (checkpoint g) \<longrightarrow>
                 checkpoint g' = checkpoint g \<and> emitted g' = emitted g)"
    using checkpoint_handler_exact[OF g'_def] by blast
next
  fix n assume n: "map_of (networkCheckpoints g) chainId = Some n"
  define g' where "g' = recalculateCheckpoint
     (g\<lparr>networkCheckpoints := AList.update chainId (n\<lparr>realtimeCheckpoint := timestamp\<rparr>) (networkCheckpoints g)\<rparr>)"
  have "handleNewRealtimeCheckpoint g chainId timestamp = Inr g'"
    by (simp add: handleNewRealtimeCheckpoint_def n g'_def)
  then show "\<exists>g'. handleNewRealtimeCheckpoint g chainId timestamp = Inr g'
           \<and> num_le (checkpoint g) (checkpoint g')
           \<and> networkCheckpoints g'
               = AList.update chainId (n\<lparr>realtimeCheckpoint := timestamp\<rparr>) (networkCheckpoints g)
           \<and> Math_min (map (\<lambda>n. if isHistoricalSyncComplete n then max (historicalCheckpoint n) (realtimeCheckpoint n) else historicalCheckpoint n) (Object_values (networkCheckpoints g')))
               = Fin (Min ((\<lambda>n. if isHistoricalSyncComplete n then max (historicalCheckpoint n) (realtimeCheckpoint n) else historicalCheckpoint n) ` set (Object_values (networkCheckpoints g'))))
           \<and> (num_gt (Math_min (map (\<lambda>n. if isHistoricalSyncComplete n then max (historicalCheckpoint n) (realtimeCheckpoint n) else historicalCheckpoint n) (Object_values (networkCheckpoints g'))))
                 (checkpoint g) \<longrightarrow>
                 checkpoint g' = Math_min (map (\<lambda>n. if isHistoricalSyncComplete n then max (historicalCheckpoint n) (realtimeCheckpoint n) else historicalCheckpoint n) (Object_values (networkCheckpoints g')))
                 \<and> emitted g' = emitted g
                     @ [newCheckpoint (Math_min (map (\<lambda>n. if isHistoricalSyncComplete n then max (historicalCheckpoint n) (realtimeCheckpoint n) else historicalCheckpoint n)
                                                  (Object_values (networkCheckpoints g'))))])
           \<and> (\<not> num_gt (Math_min (map (\<lambda>n. if isHistoricalSyncComplete n then max (historicalCheckpoint n) (realtimeCheckpoint n) else historicalCheckpoint n) (Object_values (networkCheckpoints g'))))
                 (checkpoint g) \<longrightarrow>
                 checkpoint g' = checkpoint g \<and> emitted g' = emitted g)"
    using checkpoint_handler_exact[OF g'_def] by blast
next
  assume "map_of (networkCheckpoints g) chainId = None"
  then show "handleNewHistoricalCheckpoint g chainId timestamp = Inl TypeError"
    by (simp add: handleNewHistoricalCheckpoint_def)
next
  assume "map_of (networkCheckpoints g) chainId = None"
  then show "handleNewRealtimeCheckpoint g chainId timestamp = Inl TypeError"
    by (simp add: handleNewRealtimeCheckpoint_def)
qed

lemma eval_hist_1_50:
  "handleNewHistoricalCheckpoint (SyncGateway_new [1]) 1 50
   = Inr \<lparr>checkpoint = Fin 50, gatewayFinalityCheckpoint = Fin 0, historicalSyncCompletedAt = None,
          networkCheckpoints = [(1, \<lparr>isHistoricalSyncComplete = False, historicalCheckpoint = 50,
                                    realtimeCheckpoint = 0, finalityCheckpoint = 0\<rparr>)],
          emitted = [newCheckpoint (Fin 50)]\<rparr>"
  by (simp add: handleNewHistoricalCheckpoint_def SyncGateway_new_def recalculateCheckpoint_def
      Object_values_def Math_min_def num_min_def num_gt_def Let_def)

lemma gatewayMixed_eval:
  "gatewayMixed =
     \<lparr>checkpoint = Fin 50, gatewayFinalityCheckpoint = Fin 0, historicalSyncCompletedAt = None,
      networkCheckpoints =
        [(1, \<lparr>isHistoricalSyncComplete = True, historicalCheckpoint = 50,
              realtimeCheckpoint = 0, finalityCheckpoint = 0\<rparr>),
         (10, \<lparr>isHistoricalSyncComplete = False, historicalCheckpoint = 60,
               realtimeCheckpoint = 90, finalityCheckpoint = 0\<rparr>)],
      emitted = [newCheckpoint (Fin 50)]\<rparr>"
  by (simp add: gatewayMixed_def handleNewHistoricalCheckpoint_def SyncGateway_new_def
      handleHistoricalSyncComplete_def handleNewRealtimeCheckpoint_def recalculateCheckpoint_def
      Object_values_def Math_min_def num_min_def num_gt_def Let_def)

theorem gateway_checkpoint_never_decreases_witness:
  "map_of (networkCheckpoints (SyncGateway_new [1])) 1
     = Some \<lparr>isHistoricalSyncComplete = False, historicalCheckpoint = 0,
             realtimeCheckpoint = 0, finalityCheckpoint = 0\<rparr>
   \<and> (\<exists>g'. handleNewHistoricalCheckpoint (SyncGateway_new [1]) 1 50 = Inr g'
          \<and> num_gt (Math_min (map (\<lambda>n. if isHistoricalSyncComplete n then max (historicalCheckpoint n) (realtimeCheckpoint n) else historicalCheckpoint n) (Object_values (networkCheckpoints g'))))
               (checkpoint (SyncGateway_new [1]))
          \<and> checkpoint g' = Fin 50 \<and> emitted g' = [newCheckpoint (Fin 50)])
   \<and> map_of (networkCheckpoints (SyncGateway_new [1])) 7 = None
   \<and> handleNewRealtimeCheckpoint (SyncGateway_new [1]) 7 50 = Inl TypeError
   \<and> map_of (networkCheckpoints gatewayMixed) 1
       = Some \<lparr>isHistoricalSyncComplete = True, historicalCheckpoint = 50,
               realtimeCheckpoint = 0, finalityCheckpoint = 0\<rparr>
   \<and> map_of (networkCheckpoints gatewayMixed) 10
       = Some \<lparr>isHistoricalSyncComplete = False, historicalCheckpoint = 60,
               realtimeCheckpoint = 90, finalityCheckpoint = 0\<rparr>
   \<and> checkpoint gatewayMixed = Fin 50
   \<and> (\<exists>g'. handleNewRealtimeCheckpoint gatewayMixed 1 70 = Inr g'
          \<and> checkpoint g' = Fin 60
          \<and> emitted g' = emitted gatewayMixed @ [newCheckpoint (Fin 60)])"
proof -
  have a: "map_of (networkCheckpoints (SyncGateway_new [1])) 1
     = Some \<lparr>isHistoricalSyncComplete = False, historicalCheckpoint = 0,
             realtimeCheckpoint = 0, finalityCheckpoint = 0\<rparr>"
    by (simp add: SyncGateway_new_def)
  have b: "map_of (networkCheckpoints (SyncGateway_new [1])) 7 = None"
    by (simp add: SyncGateway_new_def)
  have c: "num_gt (Math_min (map (\<lambda>n. if isHistoricalSyncComplete n then max (historicalCheckpoint n) (realtimeCheckpoint n) else historicalCheckpoint n) (Object_values
              [(1, \<lparr>isHistoricalSyncComplete = False, historicalCheckpoint = 50,
                                    realtimeCheckpoint = 0, finalityCheckpoint = 0\<rparr>)])))
               (checkpoint (SyncGateway_new [1]))"
    by (simp add: SyncGateway_new_def Object_values_def Math_min_def num_min_def num_gt_def
       )
  from gateway_checkpoint_never_decreases[of "SyncGateway_new [1]" "[]" 7 50] b
  have d: "handleNewRealtimeCheckpoint (SyncGateway_new [1]) 7 50 = Inl TypeError" by blast
  from gateway_checkpoint_never_decreases[of "SyncGateway_new [1]" "[]" 1 50] a
  obtain g' where g': "handleNewHistoricalCheckpoint (SyncGateway_new [1]) 1 50 = Inr g'"
    and up: "num_gt (Math_min (map (\<lambda>n. if isHistoricalSyncComplete n then max (historicalCheckpoint n) (realtimeCheckpoint n) else historicalCheckpoint n) (Object_values (networkCheckpoints g'))))
                 (checkpoint (SyncGateway_new [1])) \<longrightarrow>
                 checkpoint g' = Math_min (map (\<lambda>n. if isHistoricalSyncComplete n then max (historicalCheckpoint n) (realtimeCheckpoint n) else historicalCheckpoint n) (Object_values (networkCheckpoints g')))
                 \<and> emitted g' = emitted (SyncGateway_new [1])
                     @ [newCheckpoint (Math_min (map (\<lambda>n. if isHistoricalSyncComplete n then max (historicalCheckpoint n) (realtimeCheckpoint n) else historicalCheckpoint n)
                                                  (Object_values (networkCheckpoints g'))))]"
    by blast
  have nc: "networkCheckpoints g' = [(1, \<lparr>isHistoricalSyncComplete = False, historicalCheckpoint = 50,
                                    realtimeCheckpoint = 0, finalityCheckpoint = 0\<rparr>)]"
    using g' unfolding eval_hist_1_50 by auto
  have m: "Math_min (map (\<lambda>n. if isHistoricalSyncComplete n then max (historicalCheckpoint n) (realtimeCheckpoint n) else historicalCheckpoint n) (Object_values (networkCheckpoints g'))) = Fin 50"
    unfolding nc by (simp add: Object_values_def Math_min_def num_min_def)
  have e: "emitted (SyncGateway_new [1]) = []" by (simp add: SyncGateway_new_def)
  have first: "checkpoint g' = Fin 50 \<and> emitted g' = [newCheckpoint (Fin 50)]"
    using up c unfolding nc[symmetric] m e by simp
  have m1: "map_of (networkCheckpoints gatewayMixed) 1
       = Some \<lparr>isHistoricalSyncComplete = True, historicalCheckpoint = 50,
               realtimeCheckpoint = 0, finalityCheckpoint = 0\<rparr>"
    and m10: "map_of (networkCheckpoints gatewayMixed) 10
       = Some \<lparr>isHistoricalSyncComplete = False, historicalCheckpoint = 60,
               realtimeCheckpoint = 90, finalityCheckpoint = 0\<rparr>"
    and cp: "checkpoint gatewayMixed = Fin 50"
    by (simp_all add: gatewayMixed_eval)
  from gateway_checkpoint_never_decreases[of gatewayMixed "[]" 1 70] m1
  obtain h where h: "handleNewRealtimeCheckpoint gatewayMixed 1 70 = Inr h"
    and hnc: "networkCheckpoints h
               = AList.update 1 (\<lparr>isHistoricalSyncComplete = True, historicalCheckpoint = 50,
                                   realtimeCheckpoint = 0, finalityCheckpoint = 0\<rparr>
                                   \<lparr>realtimeCheckpoint := 70\<rparr>) (networkCheckpoints gatewayMixed)"
    and hup: "num_gt (Math_min (map (\<lambda>n. if isHistoricalSyncComplete n then max (historicalCheckpoint n) (realtimeCheckpoint n) else historicalCheckpoint n) (Object_values (networkCheckpoints h))))
                 (checkpoint gatewayMixed) \<longrightarrow>
                 checkpoint h = Math_min (map (\<lambda>n. if isHistoricalSyncComplete n then max (historicalCheckpoint n) (realtimeCheckpoint n) else historicalCheckpoint n) (Object_values (networkCheckpoints h)))
                 \<and> emitted h = emitted gatewayMixed
                     @ [newCheckpoint (Math_min (map (\<lambda>n. if isHistoricalSyncComplete n then max (historicalCheckpoint n) (realtimeCheckpoint n) else historicalCheckpoint n)
                                                  (Object_values (networkCheckpoints h))))]"
    by blast
  have hm: "Math_min (map (\<lambda>n. if isHistoricalSyncComplete n then max (historicalCheckpoint n) (realtimeCheckpoint n) else historicalCheckpoint n) (Object_values (networkCheckpoints h))) = Fin 60"
    unfolding hnc by (simp add: gatewayMixed_eval Object_values_def Math_min_def num_min_def)
  have second: "checkpoint h = Fin 60 \<and> emitted h = emitted gatewayMixed @ [newCheckpoint (Fin 60)]"
    using hup unfolding hm cp by (simp add: num_gt_def)
  have old: "\<exists>g'. handleNewHistoricalCheckpoint (SyncGateway_new [1]) 1 50 = Inr g'
          \<and> num_gt (Math_min (map (\<lambda>n. if isHistoricalSyncComplete n then max (historicalCheckpoint n) (realtimeCheckpoint n) else historicalCheckpoint n) (Object_values (networkCheckpoints g'))))
               (checkpoint (SyncGateway_new [1]))
          \<and> checkpoint g' = Fin 50 \<and> emitted g' = [newCheckpoint (Fin 50)]"
    using c g' nc first by auto
  have new: "\<exists>g'. handleNewRealtimeCheckpoint gatewayMixed 1 70 = Inr g'
          \<and> checkpoint g' = Fin 60
          \<and> emitted g' = emitted gatewayMixed @ [newCheckpoint (Fin 60)]"
    using h second by (intro exI[of _ h]) simp
  show ?thesis
    by (intro conjI) (rule a old b d m1 m10 cp new)+
qed

lemma keys_update_existing:
  "map_of r k = Some v \<Longrightarrow> fst ` set (AList.update k v' r) = fst ` set r"
proof -
  assume "map_of r k = Some v"
  then have "k \<in> set (map fst r)" by (force dest: map_of_SomeD)
  then have "set (map fst (AList.update k v' r)) = set (map fst r)" by (simp only: update_keys if_True)
  then show ?thesis by simp
qed

lemma recalculateCheckpoint_hsca:
  "historicalSyncCompletedAt (recalculateCheckpoint g) = historicalSyncCompletedAt g"
  by (simp add: recalculateCheckpoint_def Let_def)

lemma recalculateFinalityCheckpoint_others:
  "historicalSyncCompletedAt (recalculateFinalityCheckpoint g) = historicalSyncCompletedAt g"
  "networkCheckpoints (recalculateFinalityCheckpoint g) = networkCheckpoints g"
  by (simp_all add: recalculateFinalityCheckpoint_def Let_def)

lemma inv_field_update:
  assumes inv: "completedInv K g S"
    and n: "map_of (networkCheckpoints g) c = Some n"
    and nc: "networkCheckpoints g' = AList.update c n' (networkCheckpoints g)"
    and flag: "isHistoricalSyncComplete n' = isHistoricalSyncComplete n"
    and h: "historicalSyncCompletedAt g' = historicalSyncCompletedAt g"
  shows "completedInv K g' S"
  unfolding completedInv_def
proof (intro conjI allI impI)
  show "fst ` set (networkCheckpoints g') = K"
    using inv n nc by (simp add: completedInv_def keys_update_existing)
  show "K \<subseteq> S" if "historicalSyncCompletedAt g' \<noteq> None"
    using that inv h by (simp add: completedInv_def)
  show "c' \<in> S" if "map_of (networkCheckpoints g') c' = Some m \<and> isHistoricalSyncComplete m" for c' m
  proof (cases "c' = c")
    case True
    then have "m = n'" using that nc by (simp add: update_conv)
    then show ?thesis using inv n flag that True by (auto simp: completedInv_def)
  next
    case False
    then have "map_of (networkCheckpoints g) c' = Some m" using that nc by (simp add: update_conv)
    then show ?thesis using inv that by (auto simp: completedInv_def)
  qed
qed

lemma inv_complete:
  assumes inv: "completedInv K g S"
    and r: "handleHistoricalSyncComplete g c = Inr g'"
  shows "completedInv K g' (insert c S)"
proof -
  obtain n where n: "map_of (networkCheckpoints g) c = Some n"
    using r by (auto simp: handleHistoricalSyncComplete_def split: option.splits)
  define nc' where "nc' = AList.update c (n\<lparr>isHistoricalSyncComplete := True\<rparr>) (networkCheckpoints g)"
  have nc: "networkCheckpoints g' = nc'"
    using r n by (auto simp: handleHistoricalSyncComplete_def Let_def nc'_def
        recalculateCheckpoint_networkCheckpoints split: if_splits)
  have keys: "fst ` set nc' = K" using inv n by (simp add: nc'_def completedInv_def keys_update_existing)
  have flags: "c' \<in> insert c S" if "map_of nc' c' = Some m" "isHistoricalSyncComplete m" for c' m
  proof (cases "c' = c")
    case True then show ?thesis by simp
  next
    case False
    then have "map_of (networkCheckpoints g) c' = Some m" using that by (simp add: nc'_def update_conv)
    then show ?thesis using inv that by (auto simp: completedInv_def)
  qed
  have h: "K \<subseteq> insert c S" if "historicalSyncCompletedAt g' \<noteq> None"
  proof (cases "list_all isHistoricalSyncComplete (Object_values nc')")
    case True
    show ?thesis
    proof
      fix k assume "k \<in> K"
      then obtain m where m: "map_of nc' k = Some m"
        using keys by (metis domD dom_map_of_conv_image_fst)
      then have "m \<in> set (Object_values nc')"
        unfolding set_Object_values by (metis map_of_SomeD snd_conv image_eqI)
      then have "isHistoricalSyncComplete m" using True unfolding list_all_iff by blast
      then show "k \<in> insert c S" using flags m by blast
    qed
  next
    case False
    then have "historicalSyncCompletedAt g' = historicalSyncCompletedAt g"
      using r n by (auto simp: handleHistoricalSyncComplete_def Let_def nc'_def
          recalculateCheckpoint_networkCheckpoints recalculateCheckpoint_hsca)
    then show ?thesis using that inv by (auto simp: completedInv_def)
  qed
  show ?thesis unfolding completedInv_def nc using keys flags h by blast
qed

lemma inv_weaken: "completedInv K g S \<Longrightarrow> S \<subseteq> S' \<Longrightarrow> completedInv K g S'"
  by (auto simp: completedInv_def)

lemma inv_step:
  assumes inv: "completedInv K g S" and r: "gatewayCall g call = Inr g'"
  shows "completedInv K g' (S \<union> completeCalled [call])"
proof (cases call)
  case (NewHistoricalCheckpoint c t)
  then obtain n where n: "map_of (networkCheckpoints g) c = Some n"
    and g': "g' = recalculateCheckpoint (g\<lparr>networkCheckpoints :=
                AList.update c (n\<lparr>historicalCheckpoint := t\<rparr>) (networkCheckpoints g)\<rparr>)"
    using r by (auto simp: handleNewHistoricalCheckpoint_def split: option.splits)
  have "completedInv K g' S"
    by (rule inv_field_update[OF inv n, where n' = "n\<lparr>historicalCheckpoint := t\<rparr>"])
       (simp_all add: g' recalculateCheckpoint_networkCheckpoints recalculateCheckpoint_hsca)
  then show ?thesis by (rule inv_weaken) simp
next
  case (HistoricalSyncComplete c)
  then have "completedInv K g' (insert c S)" using inv_complete[OF inv] r by simp
  then show ?thesis using HistoricalSyncComplete by (simp add: completeCalled_def)
next
  case (NewRealtimeCheckpoint c t)
  then obtain n where n: "map_of (networkCheckpoints g) c = Some n"
    and g': "g' = recalculateCheckpoint (g\<lparr>networkCheckpoints :=
                AList.update c (n\<lparr>realtimeCheckpoint := t\<rparr>) (networkCheckpoints g)\<rparr>)"
    using r by (auto simp: handleNewRealtimeCheckpoint_def split: option.splits)
  have "completedInv K g' S"
    by (rule inv_field_update[OF inv n, where n' = "n\<lparr>realtimeCheckpoint := t\<rparr>"])
       (simp_all add: g' recalculateCheckpoint_networkCheckpoints recalculateCheckpoint_hsca)
  then show ?thesis by (rule inv_weaken) simp
next
  case (NewFinalityCheckpoint c t)
  then obtain n where n: "map_of (networkCheckpoints g) c = Some n"
    and g': "g' = recalculateFinalityCheckpoint (g\<lparr>networkCheckpoints :=
                AList.update c (n\<lparr>finalityCheckpoint := t\<rparr>) (networkCheckpoints g)\<rparr>)"
    using r by (auto simp: handleNewFinalityCheckpoint_def split: option.splits)
  have "completedInv K g' S"
    by (rule inv_field_update[OF inv n, where n' = "n\<lparr>finalityCheckpoint := t\<rparr>"])
       (simp_all add: g' recalculateFinalityCheckpoint_others)
  then show ?thesis by (rule inv_weaken) simp
next
  case (Reorg t)
  then have "completedInv K g' S" using inv r by (auto simp: handleReorg_def completedInv_def)
  then show ?thesis by (rule inv_weaken) simp
qed

lemma inv_calls:
  "completedInv K g S \<Longrightarrow> completedInv K (gatewayCalls g calls) (S \<union> completeCalled calls)"
proof (induction calls arbitrary: g S)
  case Nil then show ?case by (simp add: completeCalled_def)
next
  case (Cons c cs)
  have split: "S \<union> completeCalled (c # cs) = (S \<union> completeCalled [c]) \<union> completeCalled cs"
    by (auto simp: completeCalled_def)
  show ?case
  proof (cases "gatewayCall g c")
    case (Inl e)
    have "completedInv K g (S \<union> completeCalled [c])" using Cons.prems by (rule inv_weaken) simp
    from Cons.IH[OF this] show ?thesis using Inl unfolding split by simp
  next
    case (Inr g')
    from Cons.IH[OF inv_step[OF Cons.prems Inr]] show ?thesis using Inr unfolding split by simp
  qed
qed

lemma keys_new: "fst ` set (fold (\<lambda>c nc. AList.update c v nc) cs r) = fst ` set r \<union> set cs"
proof (induction cs arbitrary: r)
  case Nil then show ?case by simp
next
  case (Cons c cs)
  have "set (map fst (AList.update c v r)) = insert c (set (map fst r))"
    by (simp only: update_keys) auto
  then have "fst ` set (AList.update c v r) = insert c (fst ` set r)" by simp
  then show ?case using Cons.IH[of "AList.update c v r"] by auto
qed

lemma set_update_subset: "set (AList.update k v r) \<subseteq> insert (k, v) (set r)"
  by (induction r) auto

lemma update_all:
  "P v \<Longrightarrow> \<forall>n \<in> snd ` set r. P n \<Longrightarrow> \<forall>n \<in> snd ` set (AList.update c v r). P n"
  using set_update_subset[of c v r] by fastforce

lemma fold_update_all:
  "P v \<Longrightarrow> \<forall>n \<in> snd ` set r. P n \<Longrightarrow>
   \<forall>n \<in> snd ` set (fold (\<lambda>c nc. AList.update c v nc) cs r). P n"
proof (induction cs arbitrary: r)
  case Nil then show ?case by simp
next
  case (Cons c cs)
  from Cons.IH[OF Cons.prems(1) update_all[OF Cons.prems, of c]] show ?case by simp
qed

lemma map_of_in_values: "map_of r k = Some v \<Longrightarrow> v \<in> snd ` set r"
  by (induction r) (auto split: if_splits)

lemma inv_new: "completedInv (set chainIds) (SyncGateway_new chainIds) {}"
proof -
  define v0 where "v0 = \<lparr>isHistoricalSyncComplete = False, historicalCheckpoint = 0,
                 realtimeCheckpoint = 0, finalityCheckpoint = 0\<rparr>"
  define nc0 where "nc0 = fold (\<lambda>c nc. AList.update c v0 nc) chainIds []"
  have nc: "networkCheckpoints (SyncGateway_new chainIds) = nc0"
    by (simp add: SyncGateway_new_def nc0_def v0_def)
  have h: "historicalSyncCompletedAt (SyncGateway_new chainIds) = None"
    by (simp add: SyncGateway_new_def)
  have keys: "fst ` set nc0 = set chainIds" by (simp add: nc0_def keys_new)
  have "\<not> isHistoricalSyncComplete v0" by (simp add: v0_def)
  then have flags: "\<forall>n \<in> snd ` set nc0. \<not> isHistoricalSyncComplete n"
    unfolding nc0_def by (rule fold_update_all) simp
  have "\<forall>c n. map_of nc0 c = Some n \<and> isHistoricalSyncComplete n \<longrightarrow> c \<in> {}"
    using flags map_of_in_values by fastforce
  then show ?thesis unfolding completedInv_def nc h using keys by blast
qed

lemma completedAt_needs_all_calls:
  "historicalSyncCompletedAt (gatewayCalls (SyncGateway_new chainIds) calls) \<noteq> None \<Longrightarrow>
   c \<in> set chainIds \<Longrightarrow> HistoricalSyncComplete c \<in> set calls"
  using inv_calls[OF inv_new, of chainIds calls] by (auto simp: completedInv_def completeCalled_def)

lemma complete_sets_max:
  assumes r: "handleHistoricalSyncComplete g c = Inr g'"
  shows "(list_all isHistoricalSyncComplete (Object_values (networkCheckpoints g')) \<longrightarrow>
            historicalSyncCompletedAt g'
            = Some (Fin (Max (historicalCheckpoint ` set (Object_values (networkCheckpoints g'))))))
       \<and> (\<not> list_all isHistoricalSyncComplete (Object_values (networkCheckpoints g')) \<longrightarrow>
            historicalSyncCompletedAt g' = historicalSyncCompletedAt g)"
proof -
  obtain n where n: "map_of (networkCheckpoints g) c = Some n"
    using r by (auto simp: handleHistoricalSyncComplete_def split: option.splits)
  define nc' where "nc' = AList.update c (n\<lparr>isHistoricalSyncComplete := True\<rparr>) (networkCheckpoints g)"
  have nc: "networkCheckpoints g' = nc'"
    using r n by (auto simp: handleHistoricalSyncComplete_def Let_def nc'_def
        recalculateCheckpoint_networkCheckpoints split: if_splits)
  have ne: "map historicalCheckpoint (Object_values nc') \<noteq> []"
    by (simp add: nc'_def Object_values_Nil update_not_Nil)
  have a: "list_all isHistoricalSyncComplete (Object_values nc') \<Longrightarrow>
           historicalSyncCompletedAt g' = Some (Math_max (map historicalCheckpoint (Object_values nc')))"
    using r n by (auto simp: handleHistoricalSyncComplete_def Let_def nc'_def
        recalculateCheckpoint_networkCheckpoints)
  have b: "\<not> list_all isHistoricalSyncComplete (Object_values nc') \<Longrightarrow>
           historicalSyncCompletedAt g' = historicalSyncCompletedAt g"
    using r n by (auto simp: handleHistoricalSyncComplete_def Let_def nc'_def
        recalculateCheckpoint_networkCheckpoints recalculateCheckpoint_hsca)
  show ?thesis unfolding nc using a b Math_max_Max[OF ne] by simp
qed

lemma flag_stays:
  assumes r: "gatewayCall g call = Inr g'"
    and n: "map_of (networkCheckpoints g) c = Some n" and f: "isHistoricalSyncComplete n"
  shows "\<exists>n'. map_of (networkCheckpoints g') c = Some n' \<and> isHistoricalSyncComplete n'"
proof (cases call)
  case (NewHistoricalCheckpoint c' t)
  then show ?thesis using r n f
    by (auto simp: handleNewHistoricalCheckpoint_def recalculateCheckpoint_networkCheckpoints
        update_conv split: option.splits)
next
  case (HistoricalSyncComplete c')
  then show ?thesis using r n f
    by (auto simp: handleHistoricalSyncComplete_def Let_def recalculateCheckpoint_networkCheckpoints
        update_conv split: option.splits if_splits)
next
  case (NewRealtimeCheckpoint c' t)
  then show ?thesis using r n f
    by (auto simp: handleNewRealtimeCheckpoint_def recalculateCheckpoint_networkCheckpoints
        update_conv split: option.splits)
next
  case (NewFinalityCheckpoint c' t)
  then show ?thesis using r n f
    by (auto simp: handleNewFinalityCheckpoint_def recalculateFinalityCheckpoint_others
        update_conv split: option.splits)
next
  case (Reorg t)
  then show ?thesis using r n f by (auto simp: handleReorg_def)
qed

text \<open>
  Claim C10.  Starting from the constructor, \<open>historicalSyncCompletedAt\<close> is defined only
  after \<open>handleHistoricalSyncComplete\<close> has been called for every registered chain.  A
  successful call of \<open>handleHistoricalSyncComplete\<close> after which every network is complete
  sets it to the maximum historical checkpoint of the registered networks, and any other
  successful call leaves it unchanged.  No handler resets a network's
  \<open>isHistoricalSyncComplete\<close> flag.
\<close>

theorem historicalSyncCompletedAt_set_only_when_all_complete:
  "(historicalSyncCompletedAt (gatewayCalls (SyncGateway_new chainIds) calls) \<noteq> None \<longrightarrow>
      (\<forall>c \<in> set chainIds. HistoricalSyncComplete c \<in> set calls))
   \<and> (\<forall>g c g'. handleHistoricalSyncComplete g c = Inr g' \<longrightarrow>
        (list_all isHistoricalSyncComplete (Object_values (networkCheckpoints g')) \<longrightarrow>
            historicalSyncCompletedAt g'
            = Some (Fin (Max (historicalCheckpoint ` set (Object_values (networkCheckpoints g'))))))
        \<and> (\<not> list_all isHistoricalSyncComplete (Object_values (networkCheckpoints g')) \<longrightarrow>
            historicalSyncCompletedAt g' = historicalSyncCompletedAt g))
   \<and> (\<forall>g call g' c n. gatewayCall g call = Inr g' \<and> map_of (networkCheckpoints g) c = Some n
          \<and> isHistoricalSyncComplete n \<longrightarrow>
          (\<exists>n'. map_of (networkCheckpoints g') c = Some n' \<and> isHistoricalSyncComplete n'))
   \<and> (\<forall>g call g'. gatewayCall g call = Inr g' \<and> (\<forall>c. call \<noteq> HistoricalSyncComplete c) \<longrightarrow>
          historicalSyncCompletedAt g' = historicalSyncCompletedAt g)"
proof (intro conjI)
  show "historicalSyncCompletedAt (gatewayCalls (SyncGateway_new chainIds) calls) \<noteq> None \<longrightarrow>
      (\<forall>c \<in> set chainIds. HistoricalSyncComplete c \<in> set calls)"
    using completedAt_needs_all_calls by blast
  show "\<forall>g c g'. handleHistoricalSyncComplete g c = Inr g' \<longrightarrow>
        (list_all isHistoricalSyncComplete (Object_values (networkCheckpoints g')) \<longrightarrow>
            historicalSyncCompletedAt g'
            = Some (Fin (Max (historicalCheckpoint ` set (Object_values (networkCheckpoints g'))))))
        \<and> (\<not> list_all isHistoricalSyncComplete (Object_values (networkCheckpoints g')) \<longrightarrow>
            historicalSyncCompletedAt g' = historicalSyncCompletedAt g)"
    using complete_sets_max by blast
  show "\<forall>g call g' c n. gatewayCall g call = Inr g' \<and> map_of (networkCheckpoints g) c = Some n
          \<and> isHistoricalSyncComplete n \<longrightarrow>
          (\<exists>n'. map_of (networkCheckpoints g') c = Some n' \<and> isHistoricalSyncComplete n')"
    using flag_stays by blast
  show "\<forall>g call g'. gatewayCall g call = Inr g' \<and> (\<forall>c. call \<noteq> HistoricalSyncComplete c) \<longrightarrow>
          historicalSyncCompletedAt g' = historicalSyncCompletedAt g"
  proof (intro allI impI)
    fix g call g' assume h: "gatewayCall g call = Inr g' \<and> (\<forall>c. call \<noteq> HistoricalSyncComplete c)"
    show "historicalSyncCompletedAt g' = historicalSyncCompletedAt g"
      using h by (cases call)
        (auto simp: handleNewHistoricalCheckpoint_def handleNewRealtimeCheckpoint_def
          handleNewFinalityCheckpoint_def handleReorg_def recalculateCheckpoint_hsca
          recalculateFinalityCheckpoint_others split: option.splits)
  qed
qed

lemma gatewayTwoNetworks_eval:
  "gatewayTwoNetworks =
     \<lparr>checkpoint = Fin 30, gatewayFinalityCheckpoint = Fin 0, historicalSyncCompletedAt = None,
      networkCheckpoints =
        [(1, \<lparr>isHistoricalSyncComplete = False, historicalCheckpoint = 50,
              realtimeCheckpoint = 0, finalityCheckpoint = 0\<rparr>),
         (10, \<lparr>isHistoricalSyncComplete = True, historicalCheckpoint = 30,
               realtimeCheckpoint = 0, finalityCheckpoint = 0\<rparr>)],
      emitted = [newCheckpoint (Fin 30)]\<rparr>"
  by (simp add: gatewayTwoNetworks_def handleNewHistoricalCheckpoint_def SyncGateway_new_def
      handleHistoricalSyncComplete_def recalculateCheckpoint_def
      Object_values_def Math_min_def num_min_def num_gt_def Let_def)

lemma gatewayTwoNetworks_complete:
  "handleHistoricalSyncComplete gatewayTwoNetworks 1 =
     Inr \<lparr>checkpoint = Fin 30, gatewayFinalityCheckpoint = Fin 0,
          historicalSyncCompletedAt = Some (Fin 50),
      networkCheckpoints =
        [(1, \<lparr>isHistoricalSyncComplete = True, historicalCheckpoint = 50,
              realtimeCheckpoint = 0, finalityCheckpoint = 0\<rparr>),
         (10, \<lparr>isHistoricalSyncComplete = True, historicalCheckpoint = 30,
               realtimeCheckpoint = 0, finalityCheckpoint = 0\<rparr>)],
      emitted = [newCheckpoint (Fin 30)]\<rparr>"
  unfolding gatewayTwoNetworks_eval
  by (simp add: handleHistoricalSyncComplete_def recalculateCheckpoint_def
      Object_values_def Math_min_def Math_max_def num_min_def num_max_def num_gt_def
      Let_def)

lemma gatewayAllCalls_eval:
  "historicalSyncCompletedAt (gatewayCalls (SyncGateway_new [1, 10]) gatewayAllCalls) = Some (Fin 50)"
proof -
  have "gatewayCalls (SyncGateway_new [1, 10]) gatewayAllCalls
        = gatewayCalls gatewayTwoNetworks [HistoricalSyncComplete 1]"
    by (simp add: gatewayAllCalls_def gatewayTwoNetworks_def handleNewHistoricalCheckpoint_def
        SyncGateway_new_def handleHistoricalSyncComplete_def recalculateCheckpoint_def
        Object_values_def Math_min_def num_min_def num_gt_def Let_def)
  then show ?thesis by (simp add: gatewayTwoNetworks_complete)
qed

theorem historicalSyncCompletedAt_set_only_when_all_complete_witness:
  "historicalSyncCompletedAt gatewayTwoNetworks = None
   \<and> (\<exists>g'. handleHistoricalSyncComplete gatewayTwoNetworks 1 = Inr g'
         \<and> list_all isHistoricalSyncComplete (Object_values (networkCheckpoints g'))
         \<and> Max (historicalCheckpoint ` set (Object_values (networkCheckpoints g'))) = 50
         \<and> historicalSyncCompletedAt g' = Some (Fin 50))
   \<and> historicalSyncCompletedAt (gatewayCalls (SyncGateway_new [1, 10]) gatewayAllCalls) \<noteq> None
   \<and> HistoricalSyncComplete 1 \<in> set gatewayAllCalls
   \<and> HistoricalSyncComplete 10 \<in> set gatewayAllCalls"
proof -
  note T = historicalSyncCompletedAt_set_only_when_all_complete[of "[1, 10]" gatewayAllCalls]
  have a: "historicalSyncCompletedAt gatewayTwoNetworks = None"
    by (simp add: gatewayTwoNetworks_eval)
  have ne: "historicalSyncCompletedAt (gatewayCalls (SyncGateway_new [1, 10]) gatewayAllCalls) \<noteq> None"
    by (simp add: gatewayAllCalls_eval)
  with T have "\<forall>c \<in> set [1, 10]. HistoricalSyncComplete c \<in> set gatewayAllCalls" by blast
  then have d: "HistoricalSyncComplete 1 \<in> set gatewayAllCalls"
    "HistoricalSyncComplete 10 \<in> set gatewayAllCalls" by simp_all
  define g' where "g' = \<lparr>checkpoint = Fin 30, gatewayFinalityCheckpoint = Fin 0,
          historicalSyncCompletedAt = Some (Fin 50),
      networkCheckpoints =
        [(1, \<lparr>isHistoricalSyncComplete = True, historicalCheckpoint = 50,
              realtimeCheckpoint = 0, finalityCheckpoint = 0\<rparr>),
         (10, \<lparr>isHistoricalSyncComplete = True, historicalCheckpoint = 30,
               realtimeCheckpoint = 0, finalityCheckpoint = 0\<rparr>)],
      emitted = [newCheckpoint (Fin 30)]\<rparr>"
  have r: "handleHistoricalSyncComplete gatewayTwoNetworks 1 = Inr g'"
    by (simp add: gatewayTwoNetworks_complete g'_def)
  have all: "list_all isHistoricalSyncComplete (Object_values (networkCheckpoints g'))"
    by (simp add: g'_def Object_values_def)
  from T r all have h: "historicalSyncCompletedAt g'
            = Some (Fin (Max (historicalCheckpoint ` set (Object_values (networkCheckpoints g')))))"
    by blast
  have mx: "Max (historicalCheckpoint ` set (Object_values (networkCheckpoints g'))) = 50"
    by (simp add: g'_def Object_values_def)
  show ?thesis using a ne d r all h mx by auto
qed

section \<open>Historical sync service: block-task gate and start\<close>

lemma enqueueBlockTask_fields:
  "queue (enqueueBlockTask k s)
     = queue s @ [\<lparr>task = BLOCK k (map_of (blockCallbacks s) k),
                   priority = MAX_SAFE_INTEGER - k, retry = False\<rparr>]"
  "blockCallbacks (enqueueBlockTask k s) = AList.delete k (blockCallbacks s)"
  "defaultMaxBlockRange (enqueueBlockTask k s) = defaultMaxBlockRange s"
  "finalizedBlockNumber (enqueueBlockTask k s) = finalizedBlockNumber s"
  "logFilterProgressTrackers (enqueueBlockTask k s) = logFilterProgressTrackers s"
  "factoryChildAddressProgressTrackers (enqueueBlockTask k s) = factoryChildAddressProgressTrackers s"
  "factoryLogFilterProgressTrackers (enqueueBlockTask k s) = factoryLogFilterProgressTrackers s"
  "blockProgressTracker (enqueueBlockTask k s) = blockProgressTracker s"
  "blockTasksEnqueuedCheckpoint (enqueueBlockTask k s) = blockTasksEnqueuedCheckpoint s"
  "effects (enqueueBlockTask k s) = effects s"
  by (simp_all add: enqueueBlockTask_def addTask_def)

lemma enqueueBlockTask_eq:
  "enqueueBlockTask k s =
     s\<lparr>queue := queue s @ [\<lparr>task = BLOCK k (map_of (blockCallbacks s) k),
                   priority = MAX_SAFE_INTEGER - k, retry = False\<rparr>],
       blockCallbacks := AList.delete k (blockCallbacks s)\<rparr>"
  by (simp add: enqueueBlockTask_def addTask_def)

lemma fold_enqueueBlockTask:
  "distinct ks \<Longrightarrow>
   fold enqueueBlockTask ks s =
     s\<lparr>queue := queue s @ map (\<lambda>k. \<lparr>task = BLOCK k (map_of (blockCallbacks s) k),
                                   priority = MAX_SAFE_INTEGER - k, retry = False\<rparr>) ks,
       blockCallbacks := filter (\<lambda>(k, v). k \<notin> set ks) (blockCallbacks s)\<rparr>"
proof (induction ks arbitrary: s)
  case Nil
  then show ?case by simp
next
  case (Cons k ks)
  have d: "distinct ks" "k \<notin> set ks" using Cons.prems by simp_all
  have m: "map (\<lambda>k'. \<lparr>task = BLOCK k' (map_of (AList.delete k (blockCallbacks s)) k'),
                       priority = MAX_SAFE_INTEGER - k', retry = False\<rparr>) ks
         = map (\<lambda>k'. \<lparr>task = BLOCK k' (map_of (blockCallbacks s) k'),
                       priority = MAX_SAFE_INTEGER - k', retry = False\<rparr>) ks"
    using d(2) by (intro map_cong) (auto simp: AList.delete_conv)
  have f: "filter (\<lambda>(k', v). k' \<notin> set ks) (AList.delete k (blockCallbacks s))
         = filter (\<lambda>(k', v). k' \<notin> set (k # ks)) (blockCallbacks s)"
    by (auto simp: AList.delete_eq intro!: filter_cong)
  show ?case
    unfolding fold_simps Cons.IH[OF d(1)] enqueueBlockTask_fields m f
    by (simp add: enqueueBlockTask_eq)
qed

lemma distinct_Object_keys: "distinct (map fst r) \<Longrightarrow> distinct (Object_keys r)"
  by (simp add: Object_keys_def)

lemma set_Object_keys: "set (Object_keys r) = fst ` set r"
  by (simp add: Object_keys_def)

lemma Math_min_lower: "x \<in> set xs \<Longrightarrow> num_le (Math_min xs) (Fin x)"
proof -
  assume x: "x \<in> set xs"
  then have ne: "xs \<noteq> []" by auto
  have "Min (set xs) \<le> x" using x by simp
  then show ?thesis by (simp add: Math_min_Min[OF ne])
qed

text \<open>
  Claim C2.  \<open>enqueueBlockTasks\<close> takes \<open>T\<close>, the minimum of the checkpoints of all
  log-filter, factory-child-address and factory-log-filter trackers (\<open>Infinity\<close> when there is
  no tracker).  If \<open>T\<close> is greater than \<open>blockTasksEnqueuedCheckpoint\<close>, the new blocks are
  exactly the keys of \<open>blockCallbacks\<close> that are at most \<open>T\<close>, each once; they are added to
  the pending blocks of the block tracker, one \<open>BLOCK\<close> task per key is appended to the
  queue with the callback list stored at that key and priority
  \<open>MAX_SAFE_INTEGER - blockNumber\<close>, these keys are deleted from \<open>blockCallbacks\<close>, the
  checkpoint becomes \<open>T\<close>, and nothing else changes.  Otherwise the service is unchanged.
\<close>

theorem enqueueBlockTasks_gate:
  assumes "distinct (map fst (blockCallbacks s))"
  shows "blockTasksCanBeEnqueuedTo s
           = Math_min (map (getCheckpoint \<circ> snd) (logFilterProgressTrackers s)
                       @ map (getCheckpoint \<circ> snd) (factoryChildAddressProgressTrackers s)
                       @ map (getCheckpoint \<circ> snd) (factoryLogFilterProgressTrackers s))
     \<and> (\<forall>tr \<in> snd ` (set (logFilterProgressTrackers s) \<union> set (factoryChildAddressProgressTrackers s)
                          \<union> set (factoryLogFilterProgressTrackers s)).
           num_le (blockTasksCanBeEnqueuedTo s) (Fin (getCheckpoint tr)))
     \<and> (num_gt (blockTasksCanBeEnqueuedTo s) (blockTasksEnqueuedCheckpoint s) \<longrightarrow>
          (\<exists>newBlocks.
             distinct newBlocks
             \<and> set newBlocks = {k \<in> fst ` set (blockCallbacks s). num_le (Fin k) (blockTasksCanBeEnqueuedTo s)}
             \<and> (\<forall>k \<in> set newBlocks. \<exists>cbs. map_of (blockCallbacks s) k = Some cbs)
             \<and> set (pendingBlocks (addPendingBlocks (blockProgressTracker s) newBlocks))
                 = set (pendingBlocks (blockProgressTracker s)) \<union> set newBlocks
             \<and> enqueueBlockTasks s =
                 s\<lparr>blockProgressTracker := addPendingBlocks (blockProgressTracker s) newBlocks,
                   queue := queue s @ map (\<lambda>k. \<lparr>task = BLOCK k (map_of (blockCallbacks s) k),
                                                 priority = MAX_SAFE_INTEGER - k, retry = False\<rparr>) newBlocks,
                   blockCallbacks := filter (\<lambda>(k, v). \<not> num_le (Fin k) (blockTasksCanBeEnqueuedTo s))
                                       (blockCallbacks s),
                   blockTasksEnqueuedCheckpoint := blockTasksCanBeEnqueuedTo s\<rparr>))
     \<and> (\<not> num_gt (blockTasksCanBeEnqueuedTo s) (blockTasksEnqueuedCheckpoint s) \<longrightarrow>
          enqueueBlockTasks s = s)"
proof (intro conjI impI ballI)
  show "blockTasksCanBeEnqueuedTo s
           = Math_min (map (getCheckpoint \<circ> snd) (logFilterProgressTrackers s)
                       @ map (getCheckpoint \<circ> snd) (factoryChildAddressProgressTrackers s)
                       @ map (getCheckpoint \<circ> snd) (factoryLogFilterProgressTrackers s))"
    by (simp add: blockTasksCanBeEnqueuedTo_def)
next
  fix tr
  assume "tr \<in> snd ` (set (logFilterProgressTrackers s) \<union> set (factoryChildAddressProgressTrackers s)
                          \<union> set (factoryLogFilterProgressTrackers s))"
  then have "getCheckpoint tr \<in> set (map (getCheckpoint \<circ> snd) (logFilterProgressTrackers s)
                       @ map (getCheckpoint \<circ> snd) (factoryChildAddressProgressTrackers s)
                       @ map (getCheckpoint \<circ> snd) (factoryLogFilterProgressTrackers s))"
    by auto
  then show "num_le (blockTasksCanBeEnqueuedTo s) (Fin (getCheckpoint tr))"
    unfolding blockTasksCanBeEnqueuedTo_def by (rule Math_min_lower)
next
  assume "\<not> num_gt (blockTasksCanBeEnqueuedTo s) (blockTasksEnqueuedCheckpoint s)"
  then show "enqueueBlockTasks s = s" by (simp add: enqueueBlockTasks_def)
next
  assume gt: "num_gt (blockTasksCanBeEnqueuedTo s) (blockTasksEnqueuedCheckpoint s)"
  define T where "T = blockTasksCanBeEnqueuedTo s"
  define newBlocks where
    "newBlocks = filter (\<lambda>k. num_le (Fin k) T) (Object_keys (blockCallbacks s))"
  define s1 where "s1 = s\<lparr>blockProgressTracker := addPendingBlocks (blockProgressTracker s) newBlocks\<rparr>"
  have d: "distinct newBlocks"
    using assms by (simp add: newBlocks_def distinct_Object_keys)
  have st: "set newBlocks = {k \<in> fst ` set (blockCallbacks s). num_le (Fin k) T}"
    by (auto simp: newBlocks_def set_Object_keys)
  have df: "\<forall>k \<in> set newBlocks. \<exists>cbs. map_of (blockCallbacks s) k = Some cbs"
  proof
    fix k assume "k \<in> set newBlocks"
    then have "k \<in> fst ` set (blockCallbacks s)" using st by simp
    then show "\<exists>cbs. map_of (blockCallbacks s) k = Some cbs"
      by (metis domD dom_map_of_conv_image_fst)
  qed
  have pend: "set (pendingBlocks (addPendingBlocks (blockProgressTracker s) newBlocks))
                 = set (pendingBlocks (blockProgressTracker s)) \<union> set newBlocks"
    by (simp add: addPendingBlocks_def)
  have flt: "filter (\<lambda>(k, v). k \<notin> set newBlocks) (blockCallbacks s)
           = filter (\<lambda>(k, v). \<not> num_le (Fin k) T) (blockCallbacks s)"
    by (rule filter_cong) (force simp: st)+
  have "enqueueBlockTasks s = (fold enqueueBlockTask newBlocks s1)\<lparr>blockTasksEnqueuedCheckpoint := T\<rparr>"
    using gt by (simp add: enqueueBlockTasks_def Let_def T_def newBlocks_def s1_def)
  then have eq: "enqueueBlockTasks s =
                 s\<lparr>blockProgressTracker := addPendingBlocks (blockProgressTracker s) newBlocks,
                   queue := queue s @ map (\<lambda>k. \<lparr>task = BLOCK k (map_of (blockCallbacks s) k),
                                                 priority = MAX_SAFE_INTEGER - k, retry = False\<rparr>) newBlocks,
                   blockCallbacks := filter (\<lambda>(k, v). \<not> num_le (Fin k) T) (blockCallbacks s),
                   blockTasksEnqueuedCheckpoint := T\<rparr>"
    unfolding fold_enqueueBlockTask[OF d] by (simp add: s1_def flt)
  show "\<exists>newBlocks.
             distinct newBlocks
             \<and> set newBlocks = {k \<in> fst ` set (blockCallbacks s). num_le (Fin k) (blockTasksCanBeEnqueuedTo s)}
             \<and> (\<forall>k \<in> set newBlocks. \<exists>cbs. map_of (blockCallbacks s) k = Some cbs)
             \<and> set (pendingBlocks (addPendingBlocks (blockProgressTracker s) newBlocks))
                 = set (pendingBlocks (blockProgressTracker s)) \<union> set newBlocks
             \<and> enqueueBlockTasks s =
                 s\<lparr>blockProgressTracker := addPendingBlocks (blockProgressTracker s) newBlocks,
                   queue := queue s @ map (\<lambda>k. \<lparr>task = BLOCK k (map_of (blockCallbacks s) k),
                                                 priority = MAX_SAFE_INTEGER - k, retry = False\<rparr>) newBlocks,
                   blockCallbacks := filter (\<lambda>(k, v). \<not> num_le (Fin k) (blockTasksCanBeEnqueuedTo s))
                                       (blockCallbacks s),
                   blockTasksEnqueuedCheckpoint := blockTasksCanBeEnqueuedTo s\<rparr>"
    using d st df pend eq unfolding T_def by (intro exI[of _ newBlocks]) simp
qed

lemma gateService_T: "blockTasksCanBeEnqueuedTo gateService = Fin 149"
  by (simp add: gateService_def HistoricalSyncService_new_def blockTasksCanBeEnqueuedTo_def
      getCheckpoint_def Math_min_def num_min_def)

lemma gateService_cbs:
  "blockCallbacks gateService =
          [(160, [insertLogFilterInterval 1 \<lparr>address = None, topics = None\<rparr> [] [] 150 160 (Some ''A'')]),
           (110, [insertLogFilterInterval 1 \<lparr>address = None, topics = None\<rparr> [] [] 100 110 (Some ''A'')]),
           (149, [insertLogFilterInterval 1 \<lparr>address = None, topics = None\<rparr> [] [] 111 149 (Some ''A'')])]"
  "blockTasksEnqueuedCheckpoint gateService = Fin 0"
  "queue gateService = []"
  by (simp_all add: gateService_def HistoricalSyncService_new_def)

theorem enqueueBlockTasks_gate_witness:
  "distinct (map fst (blockCallbacks gateService))
   \<and> num_gt (blockTasksCanBeEnqueuedTo gateService) (blockTasksEnqueuedCheckpoint gateService)
   \<and> (\<exists>newBlocks. distinct newBlocks \<and> set newBlocks = {110, 149}
         \<and> blockCallbacks (enqueueBlockTasks gateService)
             = [(160, [insertLogFilterInterval 1 \<lparr>address = None, topics = None\<rparr> [] [] 150 160 (Some ''A'')])]
         \<and> blockTasksEnqueuedCheckpoint (enqueueBlockTasks gateService) = Fin 149
         \<and> map priority (queue (enqueueBlockTasks gateService)) = map (\<lambda>k. MAX_SAFE_INTEGER - k) newBlocks)"
proof -
  have h: "distinct (map fst (blockCallbacks gateService))" by (simp add: gateService_cbs)
  have gt: "num_gt (blockTasksCanBeEnqueuedTo gateService) (blockTasksEnqueuedCheckpoint gateService)"
    by (simp add: gateService_T gateService_cbs num_gt_def)
  have st: "{k \<in> fst ` set (blockCallbacks gateService). num_le (Fin k) (blockTasksCanBeEnqueuedTo gateService)}
            = {110, 149}"
    unfolding gateService_T gateService_cbs by auto
  from enqueueBlockTasks_gate[OF h] gt obtain newBlocks where
    d: "distinct newBlocks"
    and s: "set newBlocks = {k \<in> fst ` set (blockCallbacks gateService).
                               num_le (Fin k) (blockTasksCanBeEnqueuedTo gateService)}"
    and eq: "enqueueBlockTasks gateService =
                 gateService\<lparr>blockProgressTracker := addPendingBlocks (blockProgressTracker gateService) newBlocks,
                   queue := queue gateService @ map (\<lambda>k. \<lparr>task = BLOCK k (map_of (blockCallbacks gateService) k),
                                                 priority = MAX_SAFE_INTEGER - k, retry = False\<rparr>) newBlocks,
                   blockCallbacks := filter (\<lambda>(k, v). \<not> num_le (Fin k) (blockTasksCanBeEnqueuedTo gateService))
                                       (blockCallbacks gateService),
                   blockTasksEnqueuedCheckpoint := blockTasksCanBeEnqueuedTo gateService\<rparr>"
    by blast
  have a: "blockCallbacks (enqueueBlockTasks gateService)
             = [(160, [insertLogFilterInterval 1 \<lparr>address = None, topics = None\<rparr> [] [] 150 160 (Some ''A'')])]"
    unfolding eq by (simp add: gateService_T gateService_cbs)
  have b: "blockTasksEnqueuedCheckpoint (enqueueBlockTasks gateService) = Fin 149"
    unfolding eq by (simp add: gateService_T)
  have c: "map priority (queue (enqueueBlockTasks gateService)) = map (\<lambda>k. MAX_SAFE_INTEGER - k) newBlocks"
    unfolding eq by (simp add: gateService_cbs comp_def)
  show ?thesis using h gt d s[unfolded st] a b c by blast
qed

lemma distinct_or_assign_push:
  "distinct (map fst r) \<Longrightarrow> distinct (map fst (or_assign_push r k v))"
  by (simp add: or_assign_push_def distinct_update split: option.splits)

lemma Math_round_div_nearest:
  "1000 * Math_round_div now 1000 - 500 \<le> now \<and> now < 1000 * Math_round_div now 1000 + 500"
proof -
  define q where "q = (2 * now + 1000) div (2 * 1000)"
  define r where "r = (2 * now + 1000) mod (2 * 1000)"
  have e: "2 * now + 1000 = 2000 * q + r"
    unfolding q_def r_def by (simp add: mult_div_mod_eq)
  have r: "0 \<le> r" "r < 2000" unfolding r_def by simp_all
  have "1000 * q - 500 \<le> now \<and> now < 1000 * q + 500" using e r by linarith
  then show ?thesis unfolding Math_round_div_def q_def by simp
qed

text \<open>
  Claim C8.  If the queue is empty when \<open>start\<close> is called, the service emits
  \<open>historicalCheckpoint\<close> with \<open>blockNumber = finalizedBlockNumber\<close> and with
  \<open>blockTimestamp\<close> the current time in milliseconds divided by 1000 and rounded to the nearest
  second, then \<open>syncComplete\<close>, and only then starts the queue.  If the queue is not empty,
  \<open>start\<close> emits nothing and starts the queue.  The queue's tasks are untouched either way.
\<close>

theorem start_emits_when_queue_empty:
  "(queue_size (queue s) = 0 \<longrightarrow>
      effects (start now s)
      = effects s @ [Emit (historicalCheckpoint' (finalizedBlockNumber s) (Math_round_div now 1000)),
                     Emit syncComplete, QueueStart])
   \<and> (queue_size (queue s) \<noteq> 0 \<longrightarrow> effects (start now s) = effects s @ [QueueStart])
   \<and> 1000 * Math_round_div now 1000 - 500 \<le> now
   \<and> now < 1000 * Math_round_div now 1000 + 500
   \<and> queue (start now s) = queue s"
  using Math_round_div_nearest[of now] by (simp add: start_def Let_def)

theorem start_emits_when_queue_empty_witness:
  "queue_size (queue cachedService) = 0
   \<and> effects (start 1700000000499 cachedService)
       = [Emit (historicalCheckpoint' (Some 500) 1700000000), Emit syncComplete, QueueStart]
   \<and> queue_size (queue busyService) \<noteq> 0
   \<and> effects (start 1700000000499 busyService) = [QueueStart]"
proof -
  have a: "queue_size (queue cachedService) = 0"
    by (simp add: cachedService_def HistoricalSyncService_new_def queue_size_def)
  have b: "queue_size (queue busyService) \<noteq> 0"
    by (simp add: busyService_def queue_size_def)
  have c: "effects cachedService = []" "finalizedBlockNumber cachedService = Some 500"
    "effects busyService = []"
    by (simp_all add: busyService_def cachedService_def HistoricalSyncService_new_def)
  have r: "Math_round_div 1700000000499 1000 = 1700000000" by (simp add: Math_round_div_def)
  show ?thesis
    using start_emits_when_queue_empty[of cachedService 1700000000499]
      start_emits_when_queue_empty[of busyService 1700000000499] a b
    unfolding c r by simp
qed

section \<open>Remote log fetcher: range splitting\<close>


lemma toHex_number_error:
  "toHex_number x = Inl e \<Longrightarrow> e = RangeError \<or> e = IntegerOutOfRangeError"
  by (cases x) (auto simp: toHex_number_def split: if_splits)

lemma toHex_number_NaN: "toHex_number NaN = Inl RangeError"
  by (simp add: toHex_number_def)

lemma toHex_number_safe:
  "0 \<le> a \<Longrightarrow> a \<le> MAX_SAFE_INTEGER \<Longrightarrow> toHex_number (Integer a) = Inr (''0x'' @ hexDigits (nat a))"
  by (simp add: toHex_number_def)




lemma split_from_nonempty: "split_from sep cur s \<noteq> []"
  by (induction sep cur s rule: split_from.induct) auto

lemma split_first: "\<exists>x. at_index (split s sep) 0 = Some x"
  using split_from_nonempty[of sep "[]" s] by (cases "split_from sep [] s") (auto simp: split_def)

lemma suggestedRanges_no_range:
  assumes "at_index (split details marker) 1 = None
           \<or> (\<exists>safe. at_index (split details marker) 1 = Some safe
                      \<and> at_index (split safe '', '') 1 = None)"
  shows "suggestedRanges details marker n options = Inl TypeError"
proof (cases "at_index (split details marker) 1")
  case None
  then show ?thesis by (simp add: suggestedRanges_def)
next
  case (Some safe)
  then have s: "at_index (split safe '', '') 1 = None" using assms by auto
  obtain x where x: "at_index (split safe '', '') 0 = Some x" using split_first by blast
  show ?thesis by (simp only: suggestedRanges_def Some s x Let_def option.case)
qed

lemma c4Client_first:
  "c4Client details [] s4Options = (Inl (RequestError InvalidParamsRpcError details), [s4Options])"
  by (simp add: c4Client_def s4Options_def)

lemma noRange_ranges:
  "retryRanges (RequestError InvalidParamsRpcError noRangeDetails) s4Options = Inl TypeError"
  by code_simp

lemma badRange_ranges:
  "retryRanges (RequestError InvalidParamsRpcError badRangeDetails) s4Options = Inl RangeError"
  by code_simp

text \<open>
  Claim C4 as stated fails.  The response-size error without a suggested range, and the one
  whose suggested range is \<open>[abc, def]\<close>, are recognised, their range cannot be read as two
  numbers, and both halves of the midpoint split of \<open>[0, 1000]\<close> would be served by the
  client; still the call fails, with a type error and a range error, after the one request.
\<close>

theorem eth_getLogs_midpoint_fallback_counterexample:
  "startsWith noRangeDetails ''Log response size exceeded.''
   \<and> startsWith badRangeDetails ''Log response size exceeded.''
   \<and> js_midpoint (Number (gl_toBlock s4Options)) (Number (gl_fromBlock s4Options)) = Integer 500
   \<and> fst (c4Client noRangeDetails [] (s4Options\<lparr>gl_fromBlock := ''0x0'', gl_toBlock := ''0x1f4''\<rparr>))
       = Inr [s4LogA]
   \<and> fst (c4Client noRangeDetails [] (s4Options\<lparr>gl_fromBlock := ''0x1f5'', gl_toBlock := ''0x3e8''\<rparr>))
       = Inr [s4LogB]
   \<and> eth_getLogs 3 (c4Client noRangeDetails) [] s4Options = Some (Inl TypeError, [s4Options])
   \<and> eth_getLogs 3 (c4Client badRangeDetails) [] s4Options = Some (Inl RangeError, [s4Options])"
proof -
  have a: "startsWith noRangeDetails ''Log response size exceeded.''"
    "startsWith badRangeDetails ''Log response size exceeded.''"
    "js_midpoint (Number (gl_toBlock s4Options)) (Number (gl_fromBlock s4Options)) = Integer 500"
    by code_simp+
  have b: "fst (c4Client noRangeDetails [] (s4Options\<lparr>gl_fromBlock := ''0x0'', gl_toBlock := ''0x1f4''\<rparr>))
       = Inr [s4LogA]"
    "fst (c4Client noRangeDetails [] (s4Options\<lparr>gl_fromBlock := ''0x1f5'', gl_toBlock := ''0x3e8''\<rparr>))
       = Inr [s4LogB]"
    by (simp_all add: c4Client_def s4Options_def)
  have c: "eth_getLogs 3 (c4Client noRangeDetails) [] s4Options = Some (Inl TypeError, [s4Options])"
    by (simp add: numeral_3_eq_3 c4Client_first noRange_ranges)
  have d: "eth_getLogs 3 (c4Client badRangeDetails) [] s4Options = Some (Inl RangeError, [s4Options])"
    by (simp add: numeral_3_eq_3 c4Client_first badRange_ranges)
  show ?thesis using a b c d by blast
qed

lemma suggestedRanges_not_a_number:
  assumes "at_index (split details marker) 1 = Some safe"
    and "at_index (split safe '', '') 0 = Some first"
    and "at_index (split safe '', '') 1 = Some second"
    and "Number (slice_from 1 first) = NaN \<or> Number (slice_to_end_minus n second) = NaN"
  shows "\<exists>e. suggestedRanges details marker n options = Inl e
          \<and> (e = RangeError \<or> e = IntegerOutOfRangeError)
          \<and> (Number (slice_from 1 first) = NaN
               \<or> (\<exists>a. Number (slice_from 1 first) = Integer a \<and> 0 \<le> a \<and> a \<le> MAX_SAFE_INTEGER)
               \<longrightarrow> e = RangeError)"
proof (cases "toHex_number (Number (slice_from 1 first))")
  case (Inl e)
  have s: "suggestedRanges details marker n options = Inl e"
    by (simp only: suggestedRanges_def assms(1-3) Let_def option.case Inl sum.case)
  have k: "e = RangeError \<or> e = IntegerOutOfRangeError" using Inl by (rule toHex_number_error)
  have "e = RangeError"
    if "Number (slice_from 1 first) = NaN
        \<or> (\<exists>a. Number (slice_from 1 first) = Integer a \<and> 0 \<le> a \<and> a \<le> MAX_SAFE_INTEGER)"
    using that Inl by (auto simp: toHex_number_NaN toHex_number_safe)
  with s k show ?thesis by blast
next
  case (Inr h1)
  then have "Number (slice_from 1 first) \<noteq> NaN" by (auto simp: toHex_number_NaN)
  then have nan: "Number (slice_to_end_minus n second) = NaN" using assms(4) by simp
  have "suggestedRanges details marker n options = Inl RangeError"
    by (simp only: suggestedRanges_def assms(1-3) Let_def option.case Inr sum.case nan
          toHex_number_NaN)
  then show ?thesis by simp
qed

text \<open>
  Claim C4, amended.  For every recognised error that carries a provider-suggested range
  (the response-size error and the more-than-10000-results error) whose suggested range
  cannot be read as two numbers (the details have no text after the marker, or that text
  has no \<open>", "\<close> separator, or one of the two parts reads as \<open>NaN\<close>), \<open>_eth_getLogs\<close> does not
  fall back to a midpoint split: the call fails after the one failed request, whatever the
  fuel, without a further request.  The error is the one thrown while the retry ranges are
  built: a type error where the range text or the separator is missing; a range error where
  the first part is not a number, or is a safe integer and the second part is not a number;
  otherwise the error of \<open>toHex\<close> on the first part.
\<close>

theorem eth_getLogs_unparsable_suggested_range_fails:
  assumes "client c options = (Inl (RequestError cls details), c1)"
    and "(cls = InvalidParamsRpcError \<and> startsWith details ''Log response size exceeded.''
            \<and> marker = ''this block range should work: '' \<and> n = 1)
         \<or> (cls = LimitExceededRpcError
            \<and> includes_str details ''query returned more than 10000 results''
            \<and> marker = ''Try with this block range '' \<and> n = 2)"
    and "at_index (split details marker) 1 = None
         \<or> (at_index (split details marker) 1 = Some safe
            \<and> (at_index (split safe '', '') 1 = None
               \<or> (at_index (split safe '', '') 0 = Some first
                  \<and> at_index (split safe '', '') 1 = Some second
                  \<and> (Number (slice_from 1 first) = NaN
                       \<or> Number (slice_to_end_minus n second) = NaN))))"
  shows "\<exists>e. retryRanges (RequestError cls details) options = Inl e
          \<and> eth_getLogs (Suc fuel) client c options = Some (Inl e, c1)
          \<and> (e = TypeError \<or> e = RangeError \<or> e = IntegerOutOfRangeError)
          \<and> (at_index (split details marker) 1 = None \<or> at_index (split safe '', '') 1 = None
               \<longrightarrow> e = TypeError)
          \<and> (at_index (split details marker) 1 = Some safe
               \<and> at_index (split safe '', '') 1 = Some second
               \<and> (Number (slice_from 1 first) = NaN
                    \<or> (\<exists>a. Number (slice_from 1 first) = Integer a
                             \<and> 0 \<le> a \<and> a \<le> MAX_SAFE_INTEGER))
               \<longrightarrow> e = RangeError)"
proof -
  have r: "retryRanges (RequestError cls details) options
           = suggestedRanges details marker n options"
    using assms(2) by (auto simp: retryRanges_def)
  have run: "eth_getLogs (Suc fuel) client c options = Some (Inl e, c1)"
    if "suggestedRanges details marker n options = Inl e" for e
    using assms(1) that by (simp add: r)
  consider (missing) "at_index (split details marker) 1 = None
           \<or> (\<exists>safe. at_index (split details marker) 1 = Some safe
                      \<and> at_index (split safe '', '') 1 = None)"
    | (parts) "at_index (split details marker) 1 = Some safe"
        "at_index (split safe '', '') 0 = Some first"
        "at_index (split safe '', '') 1 = Some second"
        "Number (slice_from 1 first) = NaN \<or> Number (slice_to_end_minus n second) = NaN"
    using assms(3) by blast
  then show ?thesis
  proof cases
    case missing
    then have s: "suggestedRanges details marker n options = Inl TypeError"
      by (rule suggestedRanges_no_range)
    have g1: "retryRanges (RequestError cls details) options = Inl TypeError"
      unfolding r by (rule s)
    have g2: "eth_getLogs (Suc fuel) client c options = Some (Inl TypeError, c1)"
      by (rule run[OF s])
    have g3: "TypeError = TypeError \<or> TypeError = RangeError \<or> TypeError = IntegerOutOfRangeError"
      by simp
    have g4: "at_index (split details marker) 1 = None \<or> at_index (split safe '', '') 1 = None
              \<longrightarrow> TypeError = TypeError"
      by simp
    have g5: "at_index (split details marker) 1 = Some safe
               \<and> at_index (split safe '', '') 1 = Some second
               \<and> (Number (slice_from 1 first) = NaN
                    \<or> (\<exists>a. Number (slice_from 1 first) = Integer a
                             \<and> 0 \<le> a \<and> a \<le> MAX_SAFE_INTEGER))
               \<longrightarrow> TypeError = RangeError"
      using missing by auto
    show ?thesis by (intro exI[of _ TypeError] conjI) (rule g1 g2 g3 g4 g5)+
  next
    case parts
    from suggestedRanges_not_a_number[OF parts, of options]
    obtain e where e: "suggestedRanges details marker n options = Inl e"
      "e = RangeError \<or> e = IntegerOutOfRangeError"
      "Number (slice_from 1 first) = NaN
         \<or> (\<exists>a. Number (slice_from 1 first) = Integer a \<and> 0 \<le> a \<and> a \<le> MAX_SAFE_INTEGER)
       \<longrightarrow> e = RangeError"
      by blast
    have g1: "retryRanges (RequestError cls details) options = Inl e"
      unfolding r by (rule e(1))
    have g2: "eth_getLogs (Suc fuel) client c options = Some (Inl e, c1)"
      by (rule run[OF e(1)])
    have g3: "e = TypeError \<or> e = RangeError \<or> e = IntegerOutOfRangeError"
      using e(2) by blast
    have g4: "at_index (split details marker) 1 = None \<or> at_index (split safe '', '') 1 = None
              \<longrightarrow> e = TypeError"
      using parts(1,3) by simp
    have g5: "at_index (split details marker) 1 = Some safe
               \<and> at_index (split safe '', '') 1 = Some second
               \<and> (Number (slice_from 1 first) = NaN
                    \<or> (\<exists>a. Number (slice_from 1 first) = Integer a
                             \<and> 0 \<le> a \<and> a \<le> MAX_SAFE_INTEGER))
               \<longrightarrow> e = RangeError"
      using e(3) by blast
    show ?thesis by (intro exI[of _ e] conjI) (rule g1 g2 g3 g4 g5)+
  qed
qed

theorem eth_getLogs_unparsable_suggested_range_fails_witness:
  "c4Client noRangeDetails [] s4Options
     = (Inl (RequestError InvalidParamsRpcError noRangeDetails), [s4Options])
   \<and> startsWith noRangeDetails ''Log response size exceeded.''
   \<and> at_index (split noRangeDetails ''this block range should work: '') 1 = None
   \<and> eth_getLogs (Suc 7) (c4Client noRangeDetails) [] s4Options = Some (Inl TypeError, [s4Options])
   \<and> c4Client badRangeDetails [] s4Options
     = (Inl (RequestError InvalidParamsRpcError badRangeDetails), [s4Options])
   \<and> startsWith badRangeDetails ''Log response size exceeded.''
   \<and> at_index (split badRangeDetails ''this block range should work: '') 1 = Some ''[abc, def]''
   \<and> at_index (split ''[abc, def]'' '', '') 0 = Some ''[abc''
   \<and> at_index (split ''[abc, def]'' '', '') 1 = Some ''def]''
   \<and> Number (slice_from 1 ''[abc'') = NaN
   \<and> eth_getLogs (Suc 7) (c4Client badRangeDetails) [] s4Options = Some (Inl RangeError, [s4Options])
   \<and> infuraClient [] s4Options
     = (Inl (RequestError LimitExceededRpcError infuraDetails), [s4Options])
   \<and> includes_str infuraDetails ''query returned more than 10000 results''
   \<and> at_index (split infuraDetails ''Try with this block range '') 1 = Some ''[0x10, 0x2g].''
   \<and> at_index (split ''[0x10, 0x2g].'' '', '') 0 = Some ''[0x10''
   \<and> at_index (split ''[0x10, 0x2g].'' '', '') 1 = Some ''0x2g].''
   \<and> Number (slice_from 1 ''[0x10'') = Integer 16
   \<and> Number (slice_to_end_minus 2 ''0x2g].'') = NaN
   \<and> eth_getLogs (Suc 7) infuraClient [] s4Options = Some (Inl RangeError, [s4Options])"
proof -
  have a1: "c4Client noRangeDetails [] s4Options
     = (Inl (RequestError InvalidParamsRpcError noRangeDetails), [s4Options])"
    by (rule c4Client_first)
  have a2: "startsWith noRangeDetails ''Log response size exceeded.''" by code_simp
  have a3: "at_index (split noRangeDetails ''this block range should work: '') 1 = None"
    by code_simp
  have a4: "eth_getLogs (Suc 7) (c4Client noRangeDetails) [] s4Options
            = Some (Inl TypeError, [s4Options])"
    using eth_getLogs_unparsable_suggested_range_fails[where client = "c4Client noRangeDetails"
        and c = "[]" and options = s4Options and cls = InvalidParamsRpcError
        and details = noRangeDetails and ?c1.0 = "[s4Options]"
        and marker = "''this block range should work: ''" and n = 1 and fuel = 7] a1 a2 a3
    by blast
  have b1: "c4Client badRangeDetails [] s4Options
     = (Inl (RequestError InvalidParamsRpcError badRangeDetails), [s4Options])"
    by (rule c4Client_first)
  have b2: "startsWith badRangeDetails ''Log response size exceeded.''" by code_simp
  have b3: "at_index (split badRangeDetails ''this block range should work: '') 1
            = Some ''[abc, def]''"
    by code_simp
  have b4: "at_index (split ''[abc, def]'' '', '') 0 = Some ''[abc''" by code_simp
  have b5: "at_index (split ''[abc, def]'' '', '') 1 = Some ''def]''" by code_simp
  have b6: "Number (slice_from 1 ''[abc'') = NaN" by code_simp
  have b7: "eth_getLogs (Suc 7) (c4Client badRangeDetails) [] s4Options
            = Some (Inl RangeError, [s4Options])"
    using eth_getLogs_unparsable_suggested_range_fails[where client = "c4Client badRangeDetails"
        and c = "[]" and options = s4Options and cls = InvalidParamsRpcError
        and details = badRangeDetails and ?c1.0 = "[s4Options]"
        and marker = "''this block range should work: ''" and n = 1 and fuel = 7
        and safe = "''[abc, def]''" and first = "''[abc''" and second = "''def]''"]
      b1 b2 b3 b4 b5 b6
    by blast
  have c1: "infuraClient [] s4Options
     = (Inl (RequestError LimitExceededRpcError infuraDetails), [s4Options])"
    by (simp add: infuraClient_def)
  have c2: "includes_str infuraDetails ''query returned more than 10000 results''" by code_simp
  have c3: "at_index (split infuraDetails ''Try with this block range '') 1
            = Some ''[0x10, 0x2g].''"
    by code_simp
  have c4: "at_index (split ''[0x10, 0x2g].'' '', '') 0 = Some ''[0x10''" by code_simp
  have c5: "at_index (split ''[0x10, 0x2g].'' '', '') 1 = Some ''0x2g].''" by code_simp
  have c6: "Number (slice_from 1 ''[0x10'') = Integer 16" by code_simp
  have c7: "Number (slice_to_end_minus 2 ''0x2g].'') = NaN" by code_simp
  have c8: "(0::int) \<le> 16 \<and> (16::int) \<le> MAX_SAFE_INTEGER" by (simp add: MAX_SAFE_INTEGER_def)
  have c9: "eth_getLogs (Suc 7) infuraClient [] s4Options = Some (Inl RangeError, [s4Options])"
    using eth_getLogs_unparsable_suggested_range_fails[where client = infuraClient
        and c = "[]" and options = s4Options and cls = LimitExceededRpcError
        and details = infuraDetails and ?c1.0 = "[s4Options]"
        and marker = "''Try with this block range ''" and n = 2 and fuel = 7
        and safe = "''[0x10, 0x2g].''" and first = "''[0x10''" and second = "''0x2g].''"]
      c1 c2 c3 c4 c5 c6 c7 c8
    by blast
  show ?thesis
    by (intro conjI) (rule a1 a2 a3 a4 b1 b2 b3 b4 b5 b6 b7 c1 c2 c3 c4 c5 c6 c7 c9)+
qed

text \<open>
  The two block-range-limit errors take the midpoint split.  The start of the first range is
  \<open>toHex(options.fromBlock)\<close>, and \<open>options.fromBlock\<close> is a hex string already: for the
  request over \<open>[0x0, 0x3e8]\<close> the first retry range starts at the hex encoding of the three
  characters \<open>0x0\<close>.
\<close>

lemma midpointRanges_hex_string_start:
  "retryRanges (RequestError InvalidParamsRpcError ''block range less than 20000'') s4Options
   = Inr [(''0x307830'', ''0x1f4''), (''0x1f5'', ''0x3e8'')]"
  by code_simp

section \<open>Historical sync service: chunked tasks, setup, worker and error handler\<close>

lemma addRangeTasks_append:
  "addRangeTasks mk chunks q = q @ map (rangeTaskEntry mk) chunks"
proof (induction chunks arbitrary: q)
  case Nil
  then show ?case by (simp add: addRangeTasks_def)
next
  case (Cons iv chunks)
  obtain a b where iv: "iv = (a, b)" by (cases iv)
  have "addRangeTasks mk (iv # chunks) q
        = addRangeTasks mk chunks (q @ [rangeTaskEntry mk iv])"
    by (simp add: addRangeTasks_def addTask_def rangeTaskEntry_def iv)
  then show ?case using Cons.IH by simp
qed

lemma blocksOf_Nil: "blocksOf [] = {}"
  by (simp add: blocksOf_def)

lemma blocksOf_Cons: "blocksOf ((a, b) # ivs) = {a .. b} \<union> blocksOf ivs"
  by (simp add: blocksOf_def)

lemma blocksOf_append: "blocksOf (xs @ ys) = blocksOf xs \<union> blocksOf ys"
  by (simp add: blocksOf_def)

lemma blocksOf_concat: "blocksOf (concat xss) = (\<Union>xs \<in> set xss. blocksOf xs)"
  by (induction xss) (simp_all add: blocksOf_Nil blocksOf_append)

lemma chunk_interval_blocks:
  "0 < w \<Longrightarrow> blocksOf (chunk_interval w a b) = {a .. b}"
proof (induction w a b rule: chunk_interval.induct)
  case (1 w a b)
  show ?case
  proof (cases "b < a")
    case True
    then have "chunk_interval w a b = []" by (subst chunk_interval.simps) simp
    then show ?thesis using True by (simp add: blocksOf_Nil)
  next
    case False
    define m where "m = min (a + w - 1) b"
    have ih: "blocksOf (chunk_interval w (m + 1) b) = {m + 1 .. b}"
      using "1.IH" "1.prems" False by (simp add: m_def)
    have u: "chunk_interval w a b = (a, m) # chunk_interval w (m + 1) b"
      using "1.prems" False by (subst chunk_interval.simps) (simp add: m_def)
    have "a \<le> m" "m \<le> b" using "1.prems" False by (simp_all add: m_def)
    then have "{a .. m} \<union> {m + 1 .. b} = {a .. b}" by auto
    then show ?thesis unfolding u blocksOf_Cons ih by simp
  qed
qed

lemma chunk_interval_width:
  "0 < w \<Longrightarrow> (f, t) \<in> set (chunk_interval w a b) \<Longrightarrow> f \<le> t \<and> t - f + 1 \<le> w"
proof (induction w a b rule: chunk_interval.induct)
  case (1 w a b)
  show ?case
  proof (cases "b < a")
    case True
    then have "chunk_interval w a b = []" by (subst chunk_interval.simps) simp
    then show ?thesis using "1.prems" by simp
  next
    case False
    define m where "m = min (a + w - 1) b"
    have u: "chunk_interval w a b = (a, m) # chunk_interval w (m + 1) b"
      using "1.prems" False by (subst chunk_interval.simps) (simp add: m_def)
    from "1.prems"(2) have "(f, t) = (a, m) \<or> (f, t) \<in> set (chunk_interval w (m + 1) b)"
      unfolding u by simp
    then show ?thesis
    proof
      assume "(f, t) = (a, m)"
      then show ?thesis using "1.prems"(1) False by (auto simp: m_def)
    next
      assume "(f, t) \<in> set (chunk_interval w (m + 1) b)"
      then show ?thesis using "1.IH" "1.prems"(1) False by (simp add: m_def)
    qed
  qed
qed

lemma getChunks_blocks: "0 < w \<Longrightarrow> blocksOf (getChunks ivs w) = blocksOf ivs"
proof (induction ivs)
  case Nil
  then show ?case by (simp add: getChunks_def blocksOf_Nil)
next
  case (Cons iv ivs)
  obtain a b where iv: "iv = (a, b)" by (cases iv)
  have "getChunks (iv # ivs) w = chunk_interval w a b @ getChunks ivs w"
    by (simp add: getChunks_def iv)
  then show ?case using Cons by (simp add: blocksOf_append chunk_interval_blocks iv blocksOf_Cons)
qed

lemma getChunks_width:
  "0 < w \<Longrightarrow> (f, t) \<in> set (getChunks ivs w) \<Longrightarrow> f \<le> t \<and> t - f + 1 \<le> w"
  by (auto simp: getChunks_def dest: chunk_interval_width)

lemma interval_minus_blocks: "blocksOf (interval_minus (a, b) (c, d)) = {a .. b} - {c .. d}"
  by (auto simp: blocksOf_def)

lemma minus_each_blocks:
  "blocksOf (concat (map (\<lambda>i. interval_minus i r) acc)) = blocksOf acc - blocksOf [r]"
proof (induction acc)
  case Nil
  then show ?case by (simp add: blocksOf_Nil)
next
  case (Cons i acc)
  obtain a b where i: "i = (a, b)" by (cases i)
  obtain c d where r: "r = (c, d)" by (cases r)
  have "blocksOf (interval_minus i r) = {a .. b} - {c .. d}"
    unfolding i r by (rule interval_minus_blocks)
  moreover have "blocksOf [r] = {c .. d}" by (simp add: r blocksOf_Cons blocksOf_Nil)
  ultimately show ?case using Cons by (auto simp: blocksOf_append i blocksOf_Cons)
qed

lemma intervalDifference_blocks:
  "blocksOf (intervalDifference initial remove) = blocksOf initial - blocksOf remove"
  unfolding intervalDifference_def
proof (induction remove arbitrary: initial)
  case Nil
  then show ?case by (simp add: blocksOf_Nil)
next
  case (Cons r remove)
  obtain c d where r: "r = (c, d)" by (cases r)
  have "blocksOf (r # remove) = blocksOf [r] \<union> blocksOf remove"
    by (simp add: r blocksOf_Cons blocksOf_Nil)
  then show ?case
    unfolding fold_simps Cons.IH minus_each_blocks by auto
qed

lemma addCompletedInterval_result:
  "addCompletedInterval tracker iv = (tracker', upd) \<Longrightarrow>
   prevCheckpoint upd = getCheckpoint tracker \<and> newCheckpoint' upd = getCheckpoint tracker'
   \<and> (isUpdated upd \<longleftrightarrow> prevCheckpoint upd < newCheckpoint' upd)"
  by (auto simp: addCompletedInterval_def Let_def)

text \<open>
  Claim C5.  When a \<open>FACTORY_CHILD_ADDRESS\<close> task for \<open>[fromBlock, toBlock]\<close> has fetched its
  logs and persisted them, the worker adds the interval to the factory's child-address
  tracker.  If the tracker reports \<open>isUpdated\<close>, the worker appends to the queue one
  \<open>FACTORY_LOG_FILTER\<close> task for each chunk of \<open>[prevCheckpoint + 1, newCheckpoint]\<close>, with
  priority \<open>MAX_SAFE_INTEGER - fromBlock\<close> of the chunk; the chunk size is the factory's
  \<open>maxBlockRange\<close>, or the network's default when that is undefined, and for a positive size
  the chunks cover exactly that range and none is wider than the size.  If \<open>isUpdated\<close> is
  false the queue is left as it was.
\<close>

theorem factoryChildAddressTaskWorker_enqueues_factory_log_filter:
  assumes "toHex_number (Integer fromBlock) = Inr fromHex"
    and "toHex_number (Integer toBlock) = Inr toHex"
    and "eth_getLogs fuel client c
           \<lparr>gl_address = Some [fc_address (f_criteria factory)],
            gl_topics = Some [Some [eventSelector (f_criteria factory)]],
            gl_fromBlock = fromHex, gl_toBlock = toHex\<rparr> = Some (Inr lgs, c1)"
    and "insertFactoryChildAddressLogs st (f_chainId factory) lgs = (None, st1)"
    and "map_of (factoryChildAddressProgressTrackers s) (f_name factory) = Some tracker"
    and "addCompletedInterval tracker (fromBlock, toBlock) = (tracker', upd)"
    and "w = nullish (f_maxBlockRange factory) (defaultMaxBlockRange s)"
    and "chunks = getChunks [(prevCheckpoint upd + 1, newCheckpoint' upd)] w"
  shows "\<exists>s'. factoryChildAddressTaskWorker fuel client insertFactoryChildAddressLogs factory
                fromBlock toBlock s c st = Some (None, s', c1, st1)
          \<and> factoryChildAddressProgressTrackers s'
              = AList.update (f_name factory) tracker' (factoryChildAddressProgressTrackers s)
          \<and> (isUpdated upd \<longrightarrow>
                queue s' = queue s
                  @ map (\<lambda>iv. \<lparr>task = FACTORY_LOG_FILTER factory (fst iv) (snd iv),
                                 priority = MAX_SAFE_INTEGER - fst iv, retry = False\<rparr>) chunks)
          \<and> (\<not> isUpdated upd \<longrightarrow> queue s' = queue s)
          \<and> (0 < w \<longrightarrow> blocksOf chunks = {prevCheckpoint upd + 1 .. newCheckpoint' upd}
                       \<and> (\<forall>iv \<in> set chunks. fst iv \<le> snd iv \<and> snd iv - fst iv + 1 \<le> w))
          \<and> (isUpdated upd \<longleftrightarrow> prevCheckpoint upd < newCheckpoint' upd)
          \<and> prevCheckpoint upd = getCheckpoint tracker
          \<and> newCheckpoint' upd = getCheckpoint tracker'"
proof -
  define s1 where "s1 = s\<lparr>blockCallbacks :=
      registerCallbacks (childAddressCallback factory) (buildLogIntervals fromBlock toBlock lgs)
        (blockCallbacks s)\<rparr>"
  define s2 where "s2 = s1\<lparr>factoryChildAddressProgressTrackers :=
      AList.update (f_name factory) tracker' (factoryChildAddressProgressTrackers s1)\<rparr>"
  define s3 where "s3 = (if isUpdated upd
      then s2\<lparr>queue := addRangeTasks (FACTORY_LOG_FILTER factory) chunks (queue s2)\<rparr> else s2)"
  have t1: "map_of (factoryChildAddressProgressTrackers s1) (f_name factory) = Some tracker"
    using assms(5) by (simp add: s1_def)
  have w2: "nullish (f_maxBlockRange factory) (defaultMaxBlockRange s2) = w"
    by (simp add: assms(7) s2_def s1_def)
  have run: "factoryChildAddressTaskWorker fuel client insertFactoryChildAddressLogs factory
                fromBlock toBlock s c st = Some (None, s3, c1, st1)"
    unfolding factoryChildAddressTaskWorker_def
    using assms(1-6)
    by (simp add: childAddressCriteria_def Let_def s1_def s2_def s3_def assms(7,8))
  have tr: "factoryChildAddressProgressTrackers s3
              = AList.update (f_name factory) tracker' (factoryChildAddressProgressTrackers s)"
    by (simp add: s3_def s2_def s1_def)
  have q1: "isUpdated upd \<Longrightarrow> queue s3 = queue s
                  @ map (\<lambda>iv. \<lparr>task = FACTORY_LOG_FILTER factory (fst iv) (snd iv),
                                 priority = MAX_SAFE_INTEGER - fst iv, retry = False\<rparr>) chunks"
    by (simp add: s3_def s2_def s1_def addRangeTasks_append rangeTaskEntry_def)
  have q2: "\<not> isUpdated upd \<Longrightarrow> queue s3 = queue s"
    by (simp add: s3_def s2_def s1_def)
  have cov: "0 < w \<Longrightarrow> blocksOf chunks = {prevCheckpoint upd + 1 .. newCheckpoint' upd}"
    unfolding assms(8) by (simp add: getChunks_blocks blocksOf_Cons blocksOf_Nil)
  have wid: "0 < w \<Longrightarrow> \<forall>iv \<in> set chunks. fst iv \<le> snd iv \<and> snd iv - fst iv + 1 \<le> w"
    unfolding assms(8) using getChunks_width[of w] by (metis prod.collapse)
  show ?thesis
    using run tr q1 q2 cov wid addCompletedInterval_result[OF assms(6)] by blast
qed

theorem factoryChildAddressTaskWorker_enqueues_factory_log_filter_witness:
  "\<exists>s'. factoryChildAddressTaskWorker 1 c5Client c5Insert c5Factory 100 149 c5Service [] []
          = Some (None, s', [c5Request], [c5Log])
        \<and> factoryChildAddressProgressTrackers s'
            = [(''F'', \<lparr>target = (100, 199), completed = [(100, 149)]\<rparr>)]
        \<and> queue s'
            = [\<lparr>task = FACTORY_LOG_FILTER c5Factory 100 124, priority = MAX_SAFE_INTEGER - 100,
                retry = False\<rparr>,
               \<lparr>task = FACTORY_LOG_FILTER c5Factory 125 149, priority = MAX_SAFE_INTEGER - 125,
                retry = False\<rparr>]"
proof -
  define upd where "upd = \<lparr>isUpdated = True, prevCheckpoint = 99, newCheckpoint' = 149\<rparr>"
  have h1: "toHex_number (Integer 100) = Inr ''0x64''" by code_simp
  have h2: "toHex_number (Integer 149) = Inr ''0x95''" by code_simp
  have h3: "eth_getLogs 1 c5Client []
           \<lparr>gl_address = Some [fc_address (f_criteria c5Factory)],
            gl_topics = Some [Some [eventSelector (f_criteria c5Factory)]],
            gl_fromBlock = ''0x64'', gl_toBlock = ''0x95''\<rparr> = Some (Inr [c5Log], [c5Request])"
    by (simp add: c5Client_def c5Factory_def c5Request_def)
  have h4: "c5Insert [] (f_chainId c5Factory) [c5Log] = (None, [c5Log])"
    by (simp add: c5Insert_def)
  have h5: "map_of (factoryChildAddressProgressTrackers c5Service) (f_name c5Factory)
            = Some \<lparr>target = (100, 199), completed = []\<rparr>"
    by (simp add: c5Service_def c5Factory_def HistoricalSyncService_new_def)
  have h6: "addCompletedInterval \<lparr>target = (100, 199), completed = []\<rparr> (100, 149)
            = (\<lparr>target = (100, 199), completed = [(100, 149)]\<rparr>, upd)"
    unfolding upd_def by code_simp
  have h7: "(25::int) = nullish (f_maxBlockRange c5Factory) (defaultMaxBlockRange c5Service)"
    by (simp add: nullish_def c5Factory_def)
  have h8: "[(100, 124), (125, 149)] = getChunks [(prevCheckpoint upd + 1, newCheckpoint' upd)] 25"
    unfolding upd_def by code_simp
  have u: "isUpdated upd" by (simp add: upd_def)
  have t: "AList.update (f_name c5Factory) \<lparr>target = (100, 199), completed = [(100, 149)]\<rparr>
             (factoryChildAddressProgressTrackers c5Service)
           = [(''F'', \<lparr>target = (100, 199), completed = [(100, 149)]\<rparr>)]"
    by (simp add: c5Service_def c5Factory_def HistoricalSyncService_new_def)
  have q: "queue c5Service = []" by (simp add: c5Service_def HistoricalSyncService_new_def)
  note T = factoryChildAddressTaskWorker_enqueues_factory_log_filter[
      where fromBlock = 100 and toBlock = 149 and fromHex = "''0x64''" and toHex = "''0x95''"
        and fuel = 1 and client = c5Client and c = "[]" and factory = c5Factory
        and lgs = "[c5Log]" and ?c1.0 = "[c5Request]"
        and insertFactoryChildAddressLogs = c5Insert and st = "[]" and ?st1.0 = "[c5Log]"
        and s = c5Service and tracker = "\<lparr>target = (100, 199), completed = []\<rparr>"
        and tracker' = "\<lparr>target = (100, 199), completed = [(100, 149)]\<rparr>"
        and upd = upd and w = 25 and chunks = "[(100, 124), (125, 149)]"]
  from T[OF h1 h2 h3 h4 h5 h6 h7 h8] u
  obtain s' where
    "factoryChildAddressTaskWorker 1 c5Client c5Insert c5Factory 100 149 c5Service [] []
          = Some (None, s', [c5Request], [c5Log])"
    "factoryChildAddressProgressTrackers s'
       = AList.update (f_name c5Factory) \<lparr>target = (100, 199), completed = [(100, 149)]\<rparr>
             (factoryChildAddressProgressTrackers c5Service)"
    "queue s' = queue c5Service
        @ map (\<lambda>iv. \<lparr>task = FACTORY_LOG_FILTER c5Factory (fst iv) (snd iv),
                       priority = MAX_SAFE_INTEGER - fst iv, retry = False\<rparr>) [(100, 124), (125, 149)]"
    by blast
  then show ?thesis unfolding t q by (intro exI[of _ s']) simp
qed

lemma ProgressTracker_new_target: "target (ProgressTracker_new t ivs) = t"
  by (simp add: ProgressTracker_new_def)

lemma getRequired_blocks:
  "blocksOf (getRequired tr) = {fst (target tr) .. snd (target tr)} - blocksOf (completed tr)"
proof -
  obtain a b where t: "target tr = (a, b)" by (cases "target tr")
  show ?thesis
    by (simp add: getRequired_def intervalDifference_blocks t blocksOf_Cons blocksOf_Nil)
qed

text \<open>
  The closure that \<open>setup\<close> builds for one factory, run on its own: for a factory whose
  historical sync is required and whose cached intervals are read from the store, it creates
  the child-address tracker and the log-filter tracker of the factory over the same target
  \<open>[startBlock, endBlock]\<close>, appends the \<open>FACTORY_CHILD_ADDRESS\<close> tasks for the chunks of the
  required child-address intervals, and then the \<open>FACTORY_LOG_FILTER\<close> tasks for the chunks of
  the required log-filter intervals minus the required child-address intervals, each with
  priority \<open>MAX_SAFE_INTEGER - fromBlock\<close>.  The chunk size is the factory's \<open>maxBlockRange\<close>,
  or the network's default; for a positive size the \<open>FACTORY_LOG_FILTER\<close> chunks cover exactly
  the blocks that are required for the log filter and not required for the child addresses,
  and none is wider than the size.
\<close>

lemma setupFactory_closure_tasks:
  assumes "validateHistoricalBlockRange env (f_startBlock factory) (f_endBlock factory)
             finalizedBlockNumber' latestBlockNumber = Inr r"
    and "isHistoricalSyncRequired r"
    and "getLogFilterIntervals env (f_chainId factory) (childAddressCriteria factory)
           = Inr completedChild"
    and "getFactoryLogFilterIntervals env (f_chainId factory) (f_criteria factory)
           = Inr completedLogFilter"
    and "w = nullish (f_maxBlockRange factory) (defaultMaxBlockRange s)"
    and "childTracker = ProgressTracker_new (range_startBlock r, range_endBlock r) completedChild"
    and "logFilterTracker = ProgressTracker_new (range_startBlock r, range_endBlock r) completedLogFilter"
    and "missingChunks = getChunks (intervalDifference (getRequired logFilterTracker)
                                      (getRequired childTracker)) w"
  shows "\<exists>s'. setupFactory env latestBlockNumber finalizedBlockNumber' factory s = (None, s')
          \<and> map_of (factoryChildAddressProgressTrackers s') (f_name factory) = Some childTracker
          \<and> map_of (factoryLogFilterProgressTrackers s') (f_name factory) = Some logFilterTracker
          \<and> target childTracker = (range_startBlock r, range_endBlock r)
          \<and> target logFilterTracker = (range_startBlock r, range_endBlock r)
          \<and> queue s' = queue s
                @ map (\<lambda>iv. \<lparr>task = FACTORY_CHILD_ADDRESS factory (fst iv) (snd iv),
                               priority = MAX_SAFE_INTEGER - fst iv, retry = False\<rparr>)
                    (getChunks (getRequired childTracker) w)
                @ map (\<lambda>iv. \<lparr>task = FACTORY_LOG_FILTER factory (fst iv) (snd iv),
                               priority = MAX_SAFE_INTEGER - fst iv, retry = False\<rparr>)
                    missingChunks
          \<and> (0 < w \<longrightarrow>
                blocksOf missingChunks
                  = blocksOf (getRequired logFilterTracker) - blocksOf (getRequired childTracker)
                \<and> (\<forall>iv \<in> set missingChunks. fst iv \<le> snd iv \<and> snd iv - fst iv + 1 \<le> w))"
proof -
  define s1 where "s1 = s\<lparr>factoryChildAddressProgressTrackers :=
        AList.update (f_name factory) childTracker (factoryChildAddressProgressTrackers s),
      queue := addRangeTasks (FACTORY_CHILD_ADDRESS factory)
                 (getChunks (getRequired childTracker) w) (queue s)\<rparr>"
  define s2 where "s2 = s1\<lparr>factoryLogFilterProgressTrackers :=
        AList.update (f_name factory) logFilterTracker (factoryLogFilterProgressTrackers s1),
      queue := addRangeTasks (FACTORY_LOG_FILTER factory) missingChunks (queue s1)\<rparr>"
  have run: "setupFactory env latestBlockNumber finalizedBlockNumber' factory s = (None, s2)"
    unfolding setupFactory_def using assms(1-4)
    by (simp add: Let_def s2_def s1_def assms(5-8))
  have a: "map_of (factoryChildAddressProgressTrackers s2) (f_name factory) = Some childTracker"
    by (simp add: s2_def s1_def update_conv')
  have b: "map_of (factoryLogFilterProgressTrackers s2) (f_name factory) = Some logFilterTracker"
    by (simp add: s2_def s1_def update_conv')
  have q: "queue s2 = queue s
                @ map (\<lambda>iv. \<lparr>task = FACTORY_CHILD_ADDRESS factory (fst iv) (snd iv),
                               priority = MAX_SAFE_INTEGER - fst iv, retry = False\<rparr>)
                    (getChunks (getRequired childTracker) w)
                @ map (\<lambda>iv. \<lparr>task = FACTORY_LOG_FILTER factory (fst iv) (snd iv),
                               priority = MAX_SAFE_INTEGER - fst iv, retry = False\<rparr>)
                    missingChunks"
    by (simp add: s2_def s1_def addRangeTasks_append rangeTaskEntry_def)
  have cov: "0 < w \<Longrightarrow> blocksOf missingChunks
                  = blocksOf (getRequired logFilterTracker) - blocksOf (getRequired childTracker)"
    unfolding assms(8) by (simp add: getChunks_blocks intervalDifference_blocks)
  have wid: "0 < w \<Longrightarrow> \<forall>iv \<in> set missingChunks. fst iv \<le> snd iv \<and> snd iv - fst iv + 1 \<le> w"
    unfolding assms(8) using getChunks_width[of w] by (metis prod.collapse)
  have t: "target childTracker = (range_startBlock r, range_endBlock r)"
    "target logFilterTracker = (range_startBlock r, range_endBlock r)"
    by (simp_all add: assms(6,7) ProgressTracker_new_target)
  show ?thesis using run a b q cov wid t by blast
qed

lemma setupFactory_closure_tasks_example:
  "\<exists>s'. setupFactory c6Env 250 199 c5Factory (HistoricalSyncService_new 50 [FactorySource c5Factory]) = (None, s')
        \<and> map_of (factoryChildAddressProgressTrackers s') (f_name c5Factory)
            = Some \<lparr>target = (100, 199), completed = [(100, 149)]\<rparr>
        \<and> map_of (factoryLogFilterProgressTrackers s') (f_name c5Factory)
            = Some \<lparr>target = (100, 199), completed = []\<rparr>
        \<and> queue s'
            = [\<lparr>task = FACTORY_CHILD_ADDRESS c5Factory 150 174, priority = MAX_SAFE_INTEGER - 150,
                retry = False\<rparr>,
               \<lparr>task = FACTORY_CHILD_ADDRESS c5Factory 175 199, priority = MAX_SAFE_INTEGER - 175,
                retry = False\<rparr>,
               \<lparr>task = FACTORY_LOG_FILTER c5Factory 100 124, priority = MAX_SAFE_INTEGER - 100,
                retry = False\<rparr>,
               \<lparr>task = FACTORY_LOG_FILTER c5Factory 125 149, priority = MAX_SAFE_INTEGER - 125,
                retry = False\<rparr>]"
proof -
  define r where "r = \<lparr>isHistoricalSyncRequired = True, range_startBlock = 100, range_endBlock = 199\<rparr>"
  define childTracker where "childTracker = \<lparr>target = (100, 199), completed = [(100::int, 149::int)]\<rparr>"
  define logFilterTracker where
    "logFilterTracker = \<lparr>target = (100, 199), completed = ([] :: interval list)\<rparr>"
  have h1: "validateHistoricalBlockRange c6Env (f_startBlock c5Factory) (f_endBlock c5Factory) 199 250
            = Inr r"
    by (simp add: c6Env_def r_def)
  have h2: "isHistoricalSyncRequired r" by (simp add: r_def)
  have h3: "getLogFilterIntervals c6Env (f_chainId c5Factory) (childAddressCriteria c5Factory)
            = Inr [(100, 149)]"
    by (simp add: c6Env_def)
  have h4: "getFactoryLogFilterIntervals c6Env (f_chainId c5Factory) (f_criteria c5Factory) = Inr []"
    by (simp add: c6Env_def)
  have h5: "(25::int) = nullish (f_maxBlockRange c5Factory)
                          (defaultMaxBlockRange (HistoricalSyncService_new 50 [FactorySource c5Factory]))"
    by (simp add: nullish_def c5Factory_def)
  have h6: "childTracker = ProgressTracker_new (range_startBlock r, range_endBlock r) [(100, 149)]"
    unfolding childTracker_def r_def by code_simp
  have h7: "logFilterTracker = ProgressTracker_new (range_startBlock r, range_endBlock r) []"
    unfolding logFilterTracker_def r_def by code_simp
  have h8: "[(100, 124), (125, 149)]
            = getChunks (intervalDifference (getRequired logFilterTracker) (getRequired childTracker)) 25"
    unfolding logFilterTracker_def childTracker_def by code_simp
  have c: "getChunks (getRequired childTracker) 25 = [(150, 174), (175, 199)]"
    unfolding childTracker_def by code_simp
  have q: "queue (HistoricalSyncService_new 50 [FactorySource c5Factory]) = []" by (simp add: HistoricalSyncService_new_def)
  note T = setupFactory_closure_tasks[
      where env = c6Env and factory = c5Factory and finalizedBlockNumber' = 199
        and latestBlockNumber = 250 and r = r and completedChild = "[(100, 149)]"
        and completedLogFilter = "[]" and w = 25 and s = "HistoricalSyncService_new 50 [FactorySource c5Factory]"
        and childTracker = childTracker and logFilterTracker = logFilterTracker
        and missingChunks = "[(100, 124), (125, 149)]"]
  from T[OF h1 h2 h3 h4 h5 h6 h7 h8]
  obtain s' where
    "setupFactory c6Env 250 199 c5Factory (HistoricalSyncService_new 50 [FactorySource c5Factory]) = (None, s')"
    "map_of (factoryChildAddressProgressTrackers s') (f_name c5Factory) = Some childTracker"
    "map_of (factoryLogFilterProgressTrackers s') (f_name c5Factory) = Some logFilterTracker"
    "queue s' = queue (HistoricalSyncService_new 50 [FactorySource c5Factory])
                @ map (\<lambda>iv. \<lparr>task = FACTORY_CHILD_ADDRESS c5Factory (fst iv) (snd iv),
                               priority = MAX_SAFE_INTEGER - fst iv, retry = False\<rparr>)
                    (getChunks (getRequired childTracker) 25)
                @ map (\<lambda>iv. \<lparr>task = FACTORY_LOG_FILTER c5Factory (fst iv) (snd iv),
                               priority = MAX_SAFE_INTEGER - fst iv, retry = False\<rparr>)
                    [(100, 124), (125, 149)]"
    by blast
  then show ?thesis
    by (intro exI[of _ s'])
      (simp add: c[unfolded childTracker_def] q childTracker_def logFilterTracker_def)
qed

text \<open>
  Claim C6.  \<open>setup\<close> itself never reaches that closure.  In a service as the constructor
  builds it, for any sources (log filters, factories, or none), \<open>this.logFilters\<close> is
  \<open>undefined\<close>; \<open>setup\<close> stores the finalized block number and then throws a \<open>TypeError\<close> at
  \<open>this.logFilters.map\<close>.  No tracker is initialised and no task is enqueued: the service is
  the one the constructor built, with the finalized block number set.  So it is for the
  service with the one factory source of the example above, whose historical sync is
  required.
\<close>

theorem setup_throws_before_any_tracker:
  "logFilters (HistoricalSyncService_new d srcs) = None
   \<and> factories (HistoricalSyncService_new d srcs) = None
   \<and> setupSources env latestBlockNumber finalizedBlockNumber' (HistoricalSyncService_new d srcs)
       = (Some TypeError,
          (HistoricalSyncService_new d srcs)\<lparr>finalizedBlockNumber := Some finalizedBlockNumber'\<rparr>)
   \<and> factoryChildAddressProgressTrackers
         (snd (setupSources env latestBlockNumber finalizedBlockNumber'
                 (HistoricalSyncService_new d srcs))) = []
   \<and> factoryLogFilterProgressTrackers
         (snd (setupSources env latestBlockNumber finalizedBlockNumber'
                 (HistoricalSyncService_new d srcs))) = []
   \<and> queue (snd (setupSources env latestBlockNumber finalizedBlockNumber'
                    (HistoricalSyncService_new d srcs))) = []
   \<and> setupSources c6Env 250 199 (HistoricalSyncService_new 50 [FactorySource c5Factory])
       = (Some TypeError,
          (HistoricalSyncService_new 50 [FactorySource c5Factory])\<lparr>finalizedBlockNumber := Some 199\<rparr>)"
proof -
  have n: "logFilters (HistoricalSyncService_new d' srcs') = None"
    "factories (HistoricalSyncService_new d' srcs') = None" for d' srcs'
    by (simp_all add: HistoricalSyncService_new_def)
  have run: "setupSources env' latest fin (HistoricalSyncService_new d' srcs')
        = (Some TypeError, (HistoricalSyncService_new d' srcs')\<lparr>finalizedBlockNumber := Some fin\<rparr>)"
    for env' latest fin d' srcs'
    unfolding setupSources_def by (simp add: Let_def n)
  have e: "factoryChildAddressProgressTrackers (HistoricalSyncService_new d srcs) = []"
    "factoryLogFilterProgressTrackers (HistoricalSyncService_new d srcs) = []"
    "queue (HistoricalSyncService_new d srcs) = []"
    by (simp_all add: HistoricalSyncService_new_def)
  show ?thesis by (simp add: n run e)
qed

lemma enqueuedPriorities_append:
  "enqueuedPriorities (q @ r) \<longleftrightarrow> enqueuedPriorities q \<and> enqueuedPriorities r"
  by (simp add: enqueuedPriorities_def)

lemma enqueuedPriorities_Nil: "enqueuedPriorities []"
  by (simp add: enqueuedPriorities_def)

lemma enqueuedPriorities_rangeTasks:
  assumes "\<And>f t. taskBlock (mk f t) = f"
  shows "enqueuedPriorities q \<Longrightarrow> enqueuedPriorities (addRangeTasks mk chunks q)"
  by (simp add: addRangeTasks_append enqueuedPriorities_append)
     (simp add: enqueuedPriorities_def list_all_iff rangeTaskEntry_def assms)

lemma onError_eq:
  "onError error t q = q @ [\<lparr>task = t, priority = MAX_SAFE_INTEGER - taskBlock t, retry = True\<rparr>]"
  by (cases t) (simp_all add: addTask_def)

lemma onError_repeat: "length ((onError error t ^^ n) q) = length q + n"
  by (induction n) (simp_all add: onError_eq)

lemma enqueuedPriorities_onError:
  "enqueuedPriorities q \<Longrightarrow> enqueuedPriorities (onError error t q)"
  by (simp add: onError_eq enqueuedPriorities_def)

lemma enqueuedPriorities_enqueueBlockTask:
  "enqueuedPriorities (queue s) \<Longrightarrow> enqueuedPriorities (queue (enqueueBlockTask k s))"
  by (simp add: enqueueBlockTask_def addTask_def enqueuedPriorities_def)

lemma enqueuedPriorities_fold_enqueueBlockTask:
  "enqueuedPriorities (queue s) \<Longrightarrow> enqueuedPriorities (queue (fold enqueueBlockTask ks s))"
  by (induction ks arbitrary: s) (simp_all add: enqueuedPriorities_enqueueBlockTask)

lemma enqueuedPriorities_enqueueBlockTasks:
  "enqueuedPriorities (queue s) \<Longrightarrow> enqueuedPriorities (queue (enqueueBlockTasks s))"
proof -
  assume a: "enqueuedPriorities (queue s)"
  have "enqueuedPriorities (queue (fold enqueueBlockTask ks (s\<lparr>blockProgressTracker := b\<rparr>)))" for ks b
    by (rule enqueuedPriorities_fold_enqueueBlockTask) (simp add: a)
  then show ?thesis using a by (simp add: enqueueBlockTasks_def Let_def)
qed

lemma enqueuedPriorities_setupLogFilter:
  assumes "enqueuedPriorities (queue s)"
  shows "enqueuedPriorities (queue (snd (setupLogFilter env latest fin logFilter s)))"
proof -
  have r: "enqueuedPriorities (addRangeTasks (LOG_FILTER logFilter) chunks (queue s))" for chunks
    using assms by (intro enqueuedPriorities_rangeTasks) simp_all
  show ?thesis
    unfolding setupLogFilter_def using assms r
    by (simp add: Let_def split: sum.splits)
qed

lemma enqueuedPriorities_setupFactory:
  assumes "enqueuedPriorities (queue s)"
  shows "enqueuedPriorities (queue (snd (setupFactory env latest fin factory s)))"
proof -
  have r: "enqueuedPriorities (addRangeTasks (FACTORY_CHILD_ADDRESS factory) chunks (queue s))" for chunks
    using assms by (intro enqueuedPriorities_rangeTasks) simp_all
  have r2: "enqueuedPriorities (addRangeTasks (FACTORY_LOG_FILTER factory) chunks2
              (addRangeTasks (FACTORY_CHILD_ADDRESS factory) chunks (queue s)))" for chunks chunks2
    by (intro enqueuedPriorities_rangeTasks r) simp
  show ?thesis
    unfolding setupFactory_def using assms r r2
    by (simp add: Let_def split: sum.splits)
qed

lemma enqueuedPriorities_runClosure:
  assumes "\<And>s. enqueuedPriorities (queue s) \<Longrightarrow> enqueuedPriorities (queue (snd (f s)))"
    and "enqueuedPriorities (queue (snd acc))"
  shows "enqueuedPriorities (queue (snd (runClosure f acc)))"
  using assms(1)[OF assms(2)] by (cases "f (snd acc)") (simp add: runClosure_def)

lemma enqueuedPriorities_fold_closures:
  assumes "\<And>x s. enqueuedPriorities (queue s) \<Longrightarrow> enqueuedPriorities (queue (snd (f x s)))"
  shows "enqueuedPriorities (queue (snd acc)) \<Longrightarrow>
         enqueuedPriorities (queue (snd (fold (\<lambda>x. runClosure (f x)) xs acc)))"
proof (induction xs arbitrary: acc)
  case Nil
  then show ?case by simp
next
  case (Cons x xs)
  have "enqueuedPriorities (queue (snd (runClosure (f x) acc)))"
    using assms Cons.prems by (intro enqueuedPriorities_runClosure) simp_all
  from Cons.IH[OF this] show ?case by simp
qed

lemma enqueuedPriorities_setupSources:
  assumes "enqueuedPriorities (queue s)"
  shows "enqueuedPriorities (queue (snd (setupSources env latest fin s)))"
proof -
  define s0 where "s0 = s\<lparr>finalizedBlockNumber := Some fin\<rparr>"
  have q0: "enqueuedPriorities (queue (snd (None :: Error option, s0)))"
    using assms by (simp add: s0_def)
  have lf: "enqueuedPriorities (queue (snd (fold (\<lambda>logFilter. runClosure
              (setupLogFilter env latest fin logFilter)) lfs (None, s0))))" for lfs
    by (intro enqueuedPriorities_fold_closures enqueuedPriorities_setupLogFilter)
      (simp_all add: q0[simplified])
  have fa: "enqueuedPriorities (queue (snd (fold (\<lambda>factory. runClosure
              (setupFactory env latest fin factory)) fs
              (fold (\<lambda>logFilter. runClosure (setupLogFilter env latest fin logFilter))
                 lfs (None, s0)))))" for lfs fs
    by (intro enqueuedPriorities_fold_closures enqueuedPriorities_setupFactory lf) simp_all
  have l: "logFilters s0 = logFilters s" "factories s0 = factories s" by (simp_all add: s0_def)
  show ?thesis
  proof (cases "logFilters s")
    case None
    then show ?thesis
      unfolding setupSources_def Let_def s0_def[symmetric] using q0 by (simp add: l)
  next
    case lfs: (Some lfs)
    show ?thesis
    proof (cases "factories s")
      case None
      then show ?thesis
        unfolding setupSources_def Let_def s0_def[symmetric] using lf[of lfs] by (simp add: l lfs)
    next
      case (Some fs)
      then show ?thesis
        unfolding setupSources_def Let_def s0_def[symmetric] using fa[of fs lfs] by (simp add: l lfs)
    qed
  qed
qed

lemma enqueuedPriorities_worker:
  assumes "enqueuedPriorities (queue s)"
    and "factoryChildAddressTaskWorker fuel client ins factory fromBlock toBlock s c st
         = Some (err, s', c', st')"
  shows "enqueuedPriorities (queue s')"
proof -
  have r: "enqueuedPriorities (addRangeTasks (FACTORY_LOG_FILTER factory) chunks (queue s))" for chunks
    using assms(1) by (intro enqueuedPriorities_rangeTasks) simp_all
  show ?thesis
    using assms r unfolding factoryChildAddressTaskWorker_def
    by (auto simp: Let_def split: sum.splits option.splits prod.splits if_splits)
qed

lemma onError_same_priority:
  assumes "enqueuedPriorities q" and "e \<in> set q"
  shows "last (onError error (task e) q') = \<lparr>task = task e, priority = priority e, retry = True\<rparr>"
proof -
  have "priority e = MAX_SAFE_INTEGER - taskBlock (task e)"
    using assms by (simp add: enqueuedPriorities_def list_all_iff)
  then show ?thesis by (simp add: onError_eq)
qed

text \<open>
  Claim C7.  For a task of any kind, the error handler appends the same task to the queue
  with \<open>retry: true\<close> and priority \<open>MAX_SAFE_INTEGER - fromBlock\<close> (\<open>MAX_SAFE_INTEGER -
  blockNumber\<close> for a block task).  It does so for every error and every task, however often
  the task has failed before: \<open>n\<close> failures append \<open>n\<close> entries.  Every place that enqueues
  a task (setup of a log filter and of a factory, the child-address worker, the block-task
  gate) uses the same priority, so the priority of a re-enqueued task equals the one it was
  first enqueued with.
\<close>

theorem onError_reenqueues_with_same_priority:
  "onError error t q = q @ [\<lparr>task = t, priority = MAX_SAFE_INTEGER - taskBlock t, retry = True\<rparr>]
   \<and> length ((onError error t ^^ n) q) = length q + n
   \<and> (enqueuedPriorities q \<longrightarrow>
         enqueuedPriorities (onError error t q)
         \<and> (\<forall>e \<in> set q. last (onError error (task e) q')
                           = \<lparr>task = task e, priority = priority e, retry = True\<rparr>))
   \<and> enqueuedPriorities (queue (HistoricalSyncService_new d srcs))
   \<and> (enqueuedPriorities (queue s) \<longrightarrow>
         enqueuedPriorities (queue (enqueueBlockTasks s))
         \<and> enqueuedPriorities (queue (snd (setupLogFilter env latest fin logFilter s)))
         \<and> enqueuedPriorities (queue (snd (setupFactory env latest fin factory s)))
         \<and> enqueuedPriorities (queue (snd (setupSources env latest fin s)))
         \<and> (\<forall>err s' c' st'.
               factoryChildAddressTaskWorker fuel client ins factory fromBlock toBlock s c st
                 = Some (err, s', c', st') \<longrightarrow> enqueuedPriorities (queue s')))"
proof (intro conjI impI allI ballI)
  show "onError error t q = q @ [\<lparr>task = t, priority = MAX_SAFE_INTEGER - taskBlock t, retry = True\<rparr>]"
    by (rule onError_eq)
  show "length ((onError error t ^^ n) q) = length q + n" by (rule onError_repeat)
  show "enqueuedPriorities (queue (HistoricalSyncService_new d srcs))"
    by (simp add: HistoricalSyncService_new_def enqueuedPriorities_Nil)
next
  assume "enqueuedPriorities q"
  then show "enqueuedPriorities (onError error t q)" by (rule enqueuedPriorities_onError)
next
  fix e assume "enqueuedPriorities q" "e \<in> set q"
  then show "last (onError error (task e) q') = \<lparr>task = task e, priority = priority e, retry = True\<rparr>"
    by (rule onError_same_priority)
next
  assume "enqueuedPriorities (queue s)"
  then show "enqueuedPriorities (queue (enqueueBlockTasks s))"
    by (rule enqueuedPriorities_enqueueBlockTasks)
next
  assume "enqueuedPriorities (queue s)"
  then show "enqueuedPriorities (queue (snd (setupLogFilter env latest fin logFilter s)))"
    by (rule enqueuedPriorities_setupLogFilter)
next
  assume "enqueuedPriorities (queue s)"
  then show "enqueuedPriorities (queue (snd (setupFactory env latest fin factory s)))"
    by (rule enqueuedPriorities_setupFactory)
next
  assume "enqueuedPriorities (queue s)"
  then show "enqueuedPriorities (queue (snd (setupSources env latest fin s)))"
    by (rule enqueuedPriorities_setupSources)
next
  fix err s' c' st'
  assume "enqueuedPriorities (queue s)"
    "factoryChildAddressTaskWorker fuel client ins factory fromBlock toBlock s c st
                 = Some (err, s', c', st')"
  then show "enqueuedPriorities (queue s')" by (rule enqueuedPriorities_worker)
qed

theorem onError_reenqueues_with_same_priority_witness:
  "enqueuedPriorities (queue busyService)
   \<and> blockEntry \<in> set (queue busyService)
   \<and> onError (StoreError ''insert failed'') (task blockEntry) []
       = [\<lparr>task = BLOCK 110 (Some []), priority = priority blockEntry, retry = True\<rparr>]
   \<and> enqueuedPriorities (queue (enqueueBlockTasks busyService))"
proof -
  have q: "queue busyService = [blockEntry]"
    by (simp add: busyService_def blockEntry_def)
  have h: "enqueuedPriorities (queue busyService)"
    by (simp add: q enqueuedPriorities_def blockEntry_def)
  have m: "blockEntry \<in> set (queue busyService)" by (simp add: q)
  note T = onError_reenqueues_with_same_priority[
      where q = "queue busyService" and s = busyService and q' = "[]"
        and error = "StoreError ''insert failed''" and t = "task blockEntry"
        and client = c5Client and ins = c5Insert]
  from T h m have l: "last (onError (StoreError ''insert failed'') (task blockEntry) [])
                      = \<lparr>task = task blockEntry, priority = priority blockEntry, retry = True\<rparr>"
    by blast
  from T h have g: "enqueuedPriorities (queue (enqueueBlockTasks busyService))" by blast
  have o: "onError (StoreError ''insert failed'') (task blockEntry) []
           = [last (onError (StoreError ''insert failed'') (task blockEntry) [])]"
    by (simp add: blockEntry_def addTask_def)
  have "task blockEntry = BLOCK 110 (Some [])" by (simp add: blockEntry_def)
  then show ?thesis using h m g o l by simp
qed

end
